(* ===== verification/Prelude.thy ===== *)
theory Prelude
  imports Complex_Main "HOL-Library.Word" "HOL-Library.Sublist" "HOL-Library.AList"
begin

text \<open>
  Shared vocabulary of the development: Python strings (sequences of code points below 256),
  their methods as far as the sources call them, decimal and hexadecimal printing, slices,
  insertion-ordered dictionaries, JSON values with Python truthiness, and the exceptions of
  the modelled code. The collections \<open>py_simps\<close> (facts about these helpers), \<open>model_defs\<close>
  (unfoldings of component operations) and \<open>inv_intros\<close> (preservation of well-formedness)
  are filled by the component theories.
\<close>

named_theorems py_simps "facts about the Python helpers"
named_theorems model_defs "unfoldings of component operations"
named_theorems inv_intros "preservation of well-formedness"

section \<open>Strings\<close>

text \<open>A UUID is a 128-bit number; a point in time is a number of microseconds.\<close>

type_synonym uuid = "128 word"
type_synonym datetime = int

definition microseconds :: "int \<Rightarrow> int" where
  "microseconds secs = secs * 1000000"

text \<open>\<open>str.isspace\<close> and \<open>str.lower\<close> on code points below 256.\<close>

definition is_space :: "char \<Rightarrow> bool" where
  "is_space c = (let n = (of_char c :: nat) in
     (9 \<le> n \<and> n \<le> 13) \<or> (28 \<le> n \<and> n \<le> 32) \<or> n = 133 \<or> n = 160)"

definition char_lower :: "char \<Rightarrow> char" where
  "char_lower c = (let n = (of_char c :: nat) in
     if (65 \<le> n \<and> n \<le> 90) \<or> (192 \<le> n \<and> n \<le> 222 \<and> n \<noteq> 215) then char_of (n + 32) else c)"

definition lower :: "string \<Rightarrow> string" where
  "lower s = map char_lower s"

definition lstrip :: "string \<Rightarrow> string" where
  "lstrip s = dropWhile is_space s"

definition rstrip :: "string \<Rightarrow> string" where
  "rstrip s = rev (dropWhile is_space (rev s))"

definition strip :: "string \<Rightarrow> string" where
  "strip s = rstrip (lstrip s)"

text \<open>\<open>pat in s\<close> on strings.\<close>

fun str_in :: "string \<Rightarrow> string \<Rightarrow> bool" where
  "str_in pat [] = (pat = [])"
| "str_in pat (c # cs) = (prefix pat (c # cs) \<or> str_in pat cs)"

lemma str_in_iff: "str_in pat s \<longleftrightarrow> (\<exists>u v. s = u @ pat @ v)"
proof (induction s)
  case Nil
  show ?case by simp
next
  case (Cons c cs)
  show ?case
  proof
    assume "str_in pat (c # cs)"
    then consider "prefix pat (c # cs)" | "str_in pat cs" by auto
    then show "\<exists>u v. c # cs = u @ pat @ v"
    proof cases
      case 1
      then show ?thesis by (metis append_Nil prefix_def)
    next
      case 2
      with Cons.IH obtain u v where "cs = u @ pat @ v" by blast
      then have "c # cs = (c # u) @ pat @ v" by simp
      then show ?thesis by blast
    qed
  next
    assume "\<exists>u v. c # cs = u @ pat @ v"
    then obtain u v where e: "c # cs = u @ pat @ v" by blast
    show "str_in pat (c # cs)"
    proof (cases u)
      case Nil
      with e have "prefix pat (c # cs)" by (simp add: prefix_def)
      then show ?thesis by simp
    next
      case (Cons d u')
      with e have "cs = u' @ pat @ v" by simp
      with Cons.IH show ?thesis by auto
    qed
  qed
qed

lemma str_in_append_mid [py_simps]: "str_in pat (u @ pat @ v)"
  by (auto simp: str_in_iff)

lemma str_in_trans: "str_in a b \<Longrightarrow> str_in b c \<Longrightarrow> str_in a c"
proof -
  assume "str_in a b" "str_in b c"
  then obtain u v u' v' where "b = u @ a @ v" "c = u' @ b @ v'" by (auto simp: str_in_iff)
  then have "c = (u' @ u) @ a @ (v @ v')" by simp
  then show "str_in a c" unfolding str_in_iff by blast
qed

text \<open>\<open>s.split(c)\<close> for a one-character separator: never empty, and \<open>join\<close> undoes it.\<close>

fun split_on :: "char \<Rightarrow> string \<Rightarrow> string list" where
  "split_on c [] = [[]]"
| "split_on c (x # xs) =
     (if x = c then [] # split_on c xs
      else (case split_on c xs of [] \<Rightarrow> [[x]] | w # ws \<Rightarrow> (x # w) # ws))"

fun join_with :: "string \<Rightarrow> string list \<Rightarrow> string" where
  "join_with sep [] = []"
| "join_with sep [w] = w"
| "join_with sep (w # v # ws) = w @ sep @ join_with sep (v # ws)"

lemma split_on_nonempty [simp]: "split_on c s \<noteq> []"
  by (induction s) (auto split: list.splits)

lemma join_split_on [py_simps]: "join_with [c] (split_on c s) = s"
proof (induction s)
  case Nil
  show ?case by simp
next
  case (Cons x xs)
  obtain w ws where w: "split_on c xs = w # ws"
    using split_on_nonempty by (meson neq_Nil_conv)
  with Cons.IH show ?case by (cases ws) auto
qed

text \<open>\<open>str.title\<close>, exact for text in ASCII.\<close>

definition is_letter :: "char \<Rightarrow> bool" where
  "is_letter c = (let n = (of_char c :: nat) in (65 \<le> n \<and> n \<le> 90) \<or> (97 \<le> n \<and> n \<le> 122) \<or>
     (192 \<le> n \<and> n \<noteq> 215 \<and> n \<noteq> 247))"

definition char_upper :: "char \<Rightarrow> char" where
  "char_upper c = (let n = (of_char c :: nat) in
     if (97 \<le> n \<and> n \<le> 122) \<or> (224 \<le> n \<and> n \<le> 254 \<and> n \<noteq> 247) then char_of (n - 32) else c)"

fun title_from :: "bool \<Rightarrow> string \<Rightarrow> string" where
  "title_from inside [] = []"
| "title_from inside (c # cs) =
     (if inside then char_lower c else char_upper c) # title_from (is_letter c) cs"

text \<open>\<open>s.split()\<close>: the maximal runs of non-blank characters.\<close>

fun words_acc :: "string \<Rightarrow> string \<Rightarrow> string list" where
  "words_acc acc [] = (if acc = [] then [] else [rev acc])"
| "words_acc acc (c # cs) =
     (if is_space c then (if acc = [] then words_acc [] cs else rev acc # words_acc [] cs)
      else words_acc (c # acc) cs)"

definition py_words :: "string \<Rightarrow> string list" where
  "py_words s = words_acc [] s"

lemma length_rstrip_le: "length (rstrip s) \<le> length s"
  by (simp add: rstrip_def) (metis length_dropWhile_le length_rev)

lemma length_strip_le [py_simps]: "length (strip s) \<le> length s"
proof -
  have "length (rstrip (lstrip s)) \<le> length (lstrip s)" by (rule length_rstrip_le)
  also have "\<dots> \<le> length s" by (simp add: lstrip_def length_dropWhile_le)
  finally show ?thesis by (simp add: strip_def)
qed

section \<open>Printing numbers\<close>

definition digit_char :: "nat \<Rightarrow> char" where
  "digit_char d = char_of (if d < 10 then 48 + d else 87 + d)"

fun nat_str :: "nat \<Rightarrow> string" where
  "nat_str n = (if n < 10 then [digit_char n] else nat_str (n div 10) @ [digit_char (n mod 10)])"

declare nat_str.simps [simp del]

definition int_str :: "int \<Rightarrow> string" where
  "int_str i = (if i < 0 then ''-'' @ nat_str (nat (- i)) else nat_str (nat i))"

definition char_digit :: "char \<Rightarrow> nat" where
  "char_digit c = of_char c - 48"

definition str_nat :: "string \<Rightarrow> nat" where
  "str_nat s = foldl (\<lambda>a c. 10 * a + char_digit c) 0 s"

lemma char_digit_char: "d < 10 \<Longrightarrow> char_digit (digit_char d) = d"
  by (simp add: char_digit_def digit_char_def)

text \<open>Printing and reading decimals is a round trip, so distinct numbers print differently.\<close>

lemma str_nat_nat_str [py_simps]: "str_nat (nat_str n) = n"
proof (induction n rule: nat_str.induct)
  case (1 n)
  show ?case
  proof (cases "n < 10")
    case True
    then show ?thesis by (simp add: nat_str.simps [of n] str_nat_def char_digit_char)
  next
    case False
    with "1.IH" have "str_nat (nat_str (n div 10)) = n div 10" by simp
    with False show ?thesis
      by (simp add: nat_str.simps [of n] str_nat_def char_digit_char)
  qed
qed

lemma nat_str_inject [simp]: "nat_str m = nat_str n \<longleftrightarrow> m = n"
  by (metis str_nat_nat_str)

lemma nat_str_nonempty [simp]: "nat_str n \<noteq> []"
  by (subst nat_str.simps) simp

definition is_digit :: "char \<Rightarrow> bool" where
  "is_digit c = (let n = (of_char c :: nat) in 48 \<le> n \<and> n \<le> 57)"

lemma is_digit_digit_char: "d < 10 \<Longrightarrow> is_digit (digit_char d)"
  by (simp add: is_digit_def digit_char_def)

lemma nat_str_digits: "c \<in> set (nat_str n) \<Longrightarrow> is_digit c"
proof (induction n rule: nat_str.induct)
  case (1 n)
  then show ?case
    by (cases "n < 10") (auto simp: nat_str.simps [of n] is_digit_digit_char)
qed

lemma hd_nat_str_not_minus: "hd (nat_str n) \<noteq> CHR ''-''"
proof
  assume h: "hd (nat_str n) = CHR ''-''"
  have "hd (nat_str n) \<in> set (nat_str n)" by (rule hd_in_set) simp
  then have "is_digit (hd (nat_str n))" by (rule nat_str_digits)
  with h show False by (simp add: is_digit_def)
qed

lemma int_str_inject [simp]: "int_str i = int_str j \<longleftrightarrow> i = j"
proof
  assume e: "int_str i = int_str j"
  show "i = j"
  proof (cases "i < 0"; cases "j < 0")
    assume "i < 0" "\<not> j < 0"
    with e have "nat_str (nat j) = CHR ''-'' # nat_str (nat (- i))" by (simp add: int_str_def)
    with hd_nat_str_not_minus [of "nat j"] show ?thesis by simp
  next
    assume "\<not> i < 0" "j < 0"
    with e have "nat_str (nat i) = CHR ''-'' # nat_str (nat (- j))" by (simp add: int_str_def)
    with hd_nat_str_not_minus [of "nat i"] show ?thesis by simp
  qed (use e in \<open>auto simp: int_str_def\<close>)
qed simp

text \<open>
  \<open>int(s)\<close>: blanks around, a sign, decimal digits and single underscores between them.
  \<open>s.isdigit()\<close> also holds for superscript digits, which \<open>int\<close> refuses.
\<close>

fun int_digits :: "bool \<Rightarrow> nat \<Rightarrow> string \<Rightarrow> nat option" where
  "int_digits ok acc [] = (if ok then Some acc else None)"
| "int_digits ok acc (c # cs) =
     (if is_digit c then int_digits True (10 * acc + char_digit c) cs
      else if c = CHR ''_'' \<and> ok then int_digits False acc cs else None)"

definition py_int :: "string \<Rightarrow> int option" where
  "py_int s = (case strip s of
       [] \<Rightarrow> None
     | c # cs \<Rightarrow>
         if c = CHR ''-'' then map_option (\<lambda>n. - int n) (int_digits False 0 cs)
         else if c = CHR ''+'' then map_option int (int_digits False 0 cs)
         else map_option int (int_digits False 0 (c # cs)))"

definition py_isdigit :: "string \<Rightarrow> bool" where
  "py_isdigit s = (s \<noteq> [] \<and> list_all (\<lambda>c. is_digit c \<or> (of_char c :: nat) \<in> {178, 179, 185}) s)"

lemma int_digits_all: "\<forall>c \<in> set s. is_digit c \<Longrightarrow> s \<noteq> [] \<or> ok \<Longrightarrow>
    int_digits ok acc s = Some (foldl (\<lambda>a c. 10 * a + char_digit c) acc s)"
  by (induction s arbitrary: ok acc) auto

lemma digit_not_space: "is_digit c \<Longrightarrow> \<not> is_space c"
  by (auto simp: is_digit_def is_space_def Let_def)

lemma strip_solid: "s \<noteq> [] \<Longrightarrow> \<not> is_space (hd s) \<Longrightarrow> \<not> is_space (last s) \<Longrightarrow> strip s = s"
proof -
  assume "s \<noteq> []" "\<not> is_space (hd s)" "\<not> is_space (last s)"
  moreover from this have "hd (rev s) = last s" "rev s \<noteq> []" by (simp_all add: hd_rev)
  moreover have "dropWhile is_space xs = xs" if "xs \<noteq> []" "\<not> is_space (hd xs)" for xs
    using that by (cases xs) simp_all
  ultimately show ?thesis by (simp add: strip_def lstrip_def rstrip_def)
qed

lemma py_int_int_str [py_simps]: "py_int (int_str n) = Some n"
proof -
  have d: "\<forall>c \<in> set (nat_str k). is_digit c" for k using nat_str_digits by blast
  have l: "is_digit (last (nat_str k))" "is_digit (hd (nat_str k))" for k
    using d [of k] nat_str_nonempty [of k] by simp_all
  have v: "int_digits False 0 (nat_str k) = Some k" for k
    using int_digits_all [OF d [of k], of False 0] str_nat_nat_str [of k] by (simp add: str_nat_def)
  show ?thesis
  proof (cases "n < 0")
    case True
    have "\<not> is_space (CHR ''-'')" by code_simp
    then have "strip (int_str n) = int_str n"
      using True l(1) [THEN digit_not_space] by (intro strip_solid) (simp_all add: int_str_def)
    with True v show ?thesis by (simp add: py_int_def int_str_def)
  next
    case False
    have "strip (int_str n) = int_str n"
      using False l [THEN digit_not_space] by (intro strip_solid) (simp_all add: int_str_def)
    moreover obtain c cs where "nat_str (nat n) = c # cs" by (meson neq_Nil_conv nat_str_nonempty)
    moreover have "c \<noteq> CHR ''-''" "c \<noteq> CHR ''+''"
      using l(2) [of "nat n"] calculation(2) by (auto simp: is_digit_def)
    ultimately show ?thesis using False v [of "nat n"] by (simp add: py_int_def int_str_def)
  qed
qed

text \<open>\<open>UUID.hex\<close> is the 32-digit lower-case form; \<open>str(UUID)\<close> groups it 8-4-4-4-12.\<close>

fun hex_str :: "nat \<Rightarrow> nat \<Rightarrow> string" where
  "hex_str 0 n = []"
| "hex_str (Suc k) n = hex_str k (n div 16) @ [digit_char (n mod 16)]"

definition uuid_hex :: "uuid \<Rightarrow> string" where
  "uuid_hex u = hex_str 32 (unat u)"

definition uuid_str :: "uuid \<Rightarrow> string" where
  "uuid_str u = (let h = uuid_hex u in
     take 8 h @ ''-'' @ take 4 (drop 8 h) @ ''-'' @ take 4 (drop 12 h) @ ''-''
       @ take 4 (drop 16 h) @ ''-'' @ drop 20 h)"

lemma length_hex_str [simp]: "length (hex_str k n) = k"
  by (induction k arbitrary: n) auto

section \<open>Slices and dictionaries\<close>

text \<open>\<open>xs[:n]\<close> and \<open>xs[n:]\<close>, negative \<open>n\<close> counting from the end.\<close>

definition slice_to :: "int \<Rightarrow> 'a list \<Rightarrow> 'a list" where
  "slice_to n xs = (if n < 0 then take (nat (int (length xs) + n)) xs else take (nat n) xs)"

definition slice_from :: "int \<Rightarrow> 'a list \<Rightarrow> 'a list" where
  "slice_from n xs = (if n < 0 then drop (nat (int (length xs) + n)) xs else drop (nat n) xs)"

lemma slice_append [simp]: "slice_to n xs @ slice_from n xs = xs"
  by (simp add: slice_to_def slice_from_def)

lemma length_slice_to_nonneg: "0 \<le> n \<Longrightarrow> int (length (slice_to n xs)) \<le> n"
  by (simp add: slice_to_def)

lemma set_slice_to: "set (slice_to n xs) \<subseteq> set xs"
  by (auto simp: slice_to_def dest: in_set_takeD)

text \<open>\<open>d.get(k, default)\<close> on an insertion-ordered dictionary; \<open>d[k] = v\<close> is \<open>AList.update\<close>.\<close>

definition dict_get :: "('k \<times> 'v) list \<Rightarrow> 'k \<Rightarrow> 'v \<Rightarrow> 'v" where
  "dict_get d k dflt = (case map_of d k of None \<Rightarrow> dflt | Some v \<Rightarrow> v)"

definition dict_has :: "('k \<times> 'v) list \<Rightarrow> 'k \<Rightarrow> bool" where
  "dict_has d k = (map_of d k \<noteq> None)"

lemma dict_has_iff [simp]: "dict_has d k \<longleftrightarrow> k \<in> fst ` set d"
  by (simp add: dict_has_def map_of_eq_None_iff)

lemma dict_keys_update: "fst ` set (AList.update k v d) = insert k (fst ` set d)"
  by (induction d) auto

lemma length_filter_map_le:
  "(\<And>x. P (g x) \<Longrightarrow> P x) \<Longrightarrow> length (filter P (map g xs)) \<le> length (filter P xs)"
  by (induction xs) auto

section \<open>JSON values and truthiness\<close>

text \<open>
  Values of JSON columns and payloads. Numbers are integers: the sources never compute with
  a fractional JSON number.
\<close>

datatype json =
    JNull
  | JBool bool
  | JInt int
  | JStr string
  | JList "json list"
  | JObj "(string \<times> json) list"

fun truthy :: "json \<Rightarrow> bool" where
  "truthy JNull = False"
| "truthy (JBool b) = b"
| "truthy (JInt i) = (i \<noteq> 0)"
| "truthy (JStr s) = (s \<noteq> [])"
| "truthy (JList xs) = (xs \<noteq> [])"
| "truthy (JObj d) = (d \<noteq> [])"

text \<open>Truthiness of \<open>str | None\<close>, the type most guards of the sources test.\<close>

fun str_truthy :: "string option \<Rightarrow> bool" where
  "str_truthy None = False"
| "str_truthy (Some s) = (s \<noteq> [])"

lemma str_truthy_iff: "str_truthy x \<longleftrightarrow> (\<exists>s. x = Some s \<and> s \<noteq> [])"
  by (cases x) auto

text \<open>\<open>str(v)\<close> of a JSON value, with \<open>repr\<close> for the elements of containers.\<close>

fun esc_char :: "char \<Rightarrow> string" where
  "esc_char c =
     (if c = CHR 0x5C then [CHR 0x5C, CHR 0x5C]
      else if c = CHR 0x0A then [CHR 0x5C, CHR ''n'']
      else if c = CHR 0x0D then [CHR 0x5C, CHR ''r'']
      else if c = CHR 0x09 then [CHR 0x5C, CHR ''t'']
      else if (of_char c :: nat) < 32 \<or> (of_char c :: nat) = 127
        then [CHR 0x5C, CHR ''x''] @ hex_str 2 (of_char c)
      else [c])"

definition str_repr :: "string \<Rightarrow> string" where
  "str_repr s = (if CHR 0x27 \<in> set s \<and> CHR 0x22 \<notin> set s
     then [CHR 0x22] @ concat (map esc_char s) @ [CHR 0x22]
     else [CHR 0x27] @ concat (map (\<lambda>c. if c = CHR 0x27 then [CHR 0x5C, c] else esc_char c) s)
       @ [CHR 0x27])"

fun json_repr :: "json \<Rightarrow> string" where
  "json_repr JNull = ''None''"
| "json_repr (JBool b) = (if b then ''True'' else ''False'')"
| "json_repr (JInt i) = int_str i"
| "json_repr (JStr s) = str_repr s"
| "json_repr (JList xs) = ''['' @ join_with '', '' (map json_repr xs) @ '']''"
| "json_repr (JObj d) =
     ''{'' @ join_with '', '' (map (\<lambda>(k, v). str_repr k @ '': '' @ json_repr v) d) @ ''}''"

fun json_str :: "json \<Rightarrow> string" where
  "json_str (JStr s) = s"
| "json_str v = json_repr v"

section \<open>Exceptions\<close>

text \<open>
  The exceptions that the modelled code raises or that its libraries raise through it. A
  fallible operation returns \<open>exn + 'a\<close>, with \<open>Inl\<close> for the raise.
\<close>

datatype exn =
    ValueError string
  | TypeError string
  | AttributeError string
  | NameError string
  | KeyError string
  | IntegrityError string
  | SQLAlchemyError string
  | ClaimFailedError string
  | IdempotencyError string
  | TaskNotFoundError int
  | DispatchError string
  | CalledProcessError string
  | TimeoutExpired string
  | OtherException string

fun exn_str :: "exn \<Rightarrow> string" where
  "exn_str (ValueError s) = s"
| "exn_str (TypeError s) = s"
| "exn_str (AttributeError s) = s"
| "exn_str (NameError s) = s"
| "exn_str (KeyError s) = str_repr s"
| "exn_str (IntegrityError s) = s"
| "exn_str (SQLAlchemyError s) = s"
| "exn_str (ClaimFailedError s) = s"
| "exn_str (IdempotencyError k) =
     ''A task with idempotency_key '' @ [CHR 0x27] @ k @ [CHR 0x27] @ '' already exists.''"
| "exn_str (TaskNotFoundError n) = ''Task '' @ int_str n @ '' was not found.''"
| "exn_str (DispatchError s) = s"
| "exn_str (CalledProcessError s) = s"
| "exn_str (TimeoutExpired s) = s"
| "exn_str (OtherException s) = s"

section \<open>Keyword classification\<close>

text \<open>
  Several components classify a message by the first table that has one of its keywords in
  it. The locale states the contract of one such row order; the components interpret it on
  their own tables.
\<close>

definition any_in :: "string list \<Rightarrow> string \<Rightarrow> bool" where
  "any_in pats s = (\<exists>p \<in> set pats. str_in p s)"

fun first_match :: "(string list \<times> 'c) list \<Rightarrow> 'c \<Rightarrow> string \<Rightarrow> 'c" where
  "first_match [] dflt s = dflt"
| "first_match ((pats, c) # rows) dflt s = (if any_in pats s then c else first_match rows dflt s)"

locale keyword_classifier =
  fixes classify_msg :: "string \<Rightarrow> 'c"
    and rows :: "(string list \<times> 'c) list"
    and dflt :: 'c
  assumes classify_rows: "classify_msg s = first_match rows dflt (lower s)"
begin

lemma classify_case_insensitive: "lower s = lower s' \<Longrightarrow> classify_msg s = classify_msg s'"
  by (simp add: classify_rows)

lemma classify_default: "\<forall>(pats, c) \<in> set rows. \<not> any_in pats (lower s) \<Longrightarrow> classify_msg s = dflt"
proof -
  have "\<forall>(pats, c) \<in> set rs. \<not> any_in pats t \<Longrightarrow> first_match rs dflt t = dflt" for rs t
    by (induction rs) auto
  then show "\<forall>(pats, c) \<in> set rows. \<not> any_in pats (lower s) \<Longrightarrow> classify_msg s = dflt"
    by (simp add: classify_rows)
qed

lemma classify_range: "classify_msg s \<in> insert dflt (snd ` set rows)"
proof -
  have "first_match rs dflt t \<in> insert dflt (snd ` set rs)" for rs :: "(string list \<times> 'c) list" and t
  proof (induction rs)
    case (Cons r rs)
    then show ?case by (cases r) auto
  qed simp
  then show ?thesis by (simp add: classify_rows)
qed

end

end
