(* ===== verification/Model.thy ===== *)
theory Model
  imports Prelude
begin

text \<open>
  The persistent data model: the enumerations of \<open>execqueue/db/models.py\<close> and
  \<open>execqueue/models/enums.py\<close>, the rows of the tables \<open>task\<close>, \<open>requirement\<close>,
  \<open>task_executions\<close> and \<open>task_execution_events\<close>, a database holding them in row order
  with the constraints the schema declares, and the SQLAlchemy session: a working copy
  that \<open>commit\<close> publishes and \<open>rollback\<close> or \<open>close\<close> discards. Attribute writes on loaded
  objects are applied to the working copy at once; the sessions of the program are created
  with \<open>autoflush=False\<close>, and no modelled operation queries a column between writing it on
  an object and the next flush or commit.
\<close>

section \<open>Enumerations\<close>

datatype task_status = TS_BACKLOG | TS_QUEUED | TS_PREPARED | TS_FAILED

fun task_status_value :: "task_status \<Rightarrow> string" where
  "task_status_value TS_BACKLOG = ''backlog''"
| "task_status_value TS_QUEUED = ''queued''"
| "task_status_value TS_PREPARED = ''prepared''"
| "task_status_value TS_FAILED = ''failed''"

datatype task_type = TT_PLANNING | TT_EXECUTION | TT_ANALYSIS | TT_REQUIREMENT

fun task_type_value :: "task_type \<Rightarrow> string" where
  "task_type_value TT_PLANNING = ''planning''"
| "task_type_value TT_EXECUTION = ''execution''"
| "task_type_value TT_ANALYSIS = ''analysis''"
| "task_type_value TT_REQUIREMENT = ''requirement''"

datatype requirement_status = RS_DRAFT | RS_APPROVED | RS_REJECTED | RS_ARCHIVED

fun requirement_status_value :: "requirement_status \<Rightarrow> string" where
  "requirement_status_value RS_DRAFT = ''draft''"
| "requirement_status_value RS_APPROVED = ''approved''"
| "requirement_status_value RS_REJECTED = ''rejected''"
| "requirement_status_value RS_ARCHIVED = ''archived''"

datatype execution_status =
    ES_PREPARED | ES_QUEUED | ES_DISPATCHING | ES_IN_PROGRESS | ES_RESULT_INSPECTION
  | ES_ADOPTING_COMMIT | ES_REVIEW | ES_DONE | ES_FAILED

fun execution_status_value :: "execution_status \<Rightarrow> string" where
  "execution_status_value ES_PREPARED = ''prepared''"
| "execution_status_value ES_QUEUED = ''queued''"
| "execution_status_value ES_DISPATCHING = ''dispatching''"
| "execution_status_value ES_IN_PROGRESS = ''in_progress''"
| "execution_status_value ES_RESULT_INSPECTION = ''result_inspection''"
| "execution_status_value ES_ADOPTING_COMMIT = ''adopting_commit''"
| "execution_status_value ES_REVIEW = ''review''"
| "execution_status_value ES_DONE = ''done''"
| "execution_status_value ES_FAILED = ''failed''"

definition FINAL_EXECUTION_STATUSES :: "string list" where
  "FINAL_EXECUTION_STATUSES = [''done'', ''failed'', ''review'']"

definition ACTIVE_EXECUTION_STATUSES :: "string list" where
  "ACTIVE_EXECUTION_STATUSES = [''prepared'', ''queued'', ''dispatching'', ''in_progress'',
     ''result_inspection'', ''adopting_commit'']"

datatype event_direction = ED_INBOUND | ED_OUTBOUND

datatype event_type =
    EV_STARTED | EV_PROGRESS | EV_COMPLETED | EV_ERROR | EV_STATUS_UPDATE
  | EV_EXECUTION_CLAIMED | EV_EXECUTION_DISPATCHED | EV_EXECUTION_STARTED
  | EV_EXECUTION_COMPLETED | EV_EXECUTION_FAILED | EV_SESSION_CREATED | EV_SESSION_CLOSED
  | EV_MESSAGE_SENT | EV_MESSAGE_RECEIVED | EV_STREAM_CONNECTED | EV_STREAM_DISCONNECTED
  | EV_STREAM_HEARTBEAT | EV_RESULT_INSPECTED | EV_COMMIT_ADOPTION_STARTED
  | EV_COMMIT_ADOPTION_SUCCESS | EV_COMMIT_ADOPTION_CONFLICT | EV_RETRY_SCHEDULED
  | EV_RETRY_EXHAUSTED

fun event_type_value :: "event_type \<Rightarrow> string" where
  "event_type_value EV_STARTED = ''started''"
| "event_type_value EV_PROGRESS = ''progress''"
| "event_type_value EV_COMPLETED = ''completed''"
| "event_type_value EV_ERROR = ''error''"
| "event_type_value EV_STATUS_UPDATE = ''status_update''"
| "event_type_value EV_EXECUTION_CLAIMED = ''execution.claimed''"
| "event_type_value EV_EXECUTION_DISPATCHED = ''execution.dispatched''"
| "event_type_value EV_EXECUTION_STARTED = ''execution.started''"
| "event_type_value EV_EXECUTION_COMPLETED = ''execution.completed''"
| "event_type_value EV_EXECUTION_FAILED = ''execution.failed''"
| "event_type_value EV_SESSION_CREATED = ''session.created''"
| "event_type_value EV_SESSION_CLOSED = ''session.closed''"
| "event_type_value EV_MESSAGE_SENT = ''message.sent''"
| "event_type_value EV_MESSAGE_RECEIVED = ''message.received''"
| "event_type_value EV_STREAM_CONNECTED = ''stream.connected''"
| "event_type_value EV_STREAM_DISCONNECTED = ''stream.disconnected''"
| "event_type_value EV_STREAM_HEARTBEAT = ''stream.heartbeat''"
| "event_type_value EV_RESULT_INSPECTED = ''result.inspected''"
| "event_type_value EV_COMMIT_ADOPTION_STARTED = ''commit.adoption_started''"
| "event_type_value EV_COMMIT_ADOPTION_SUCCESS = ''commit.adoption_success''"
| "event_type_value EV_COMMIT_ADOPTION_CONFLICT = ''commit.adoption_conflict''"
| "event_type_value EV_RETRY_SCHEDULED = ''retry.scheduled''"
| "event_type_value EV_RETRY_EXHAUSTED = ''retry.exhausted''"

lemma task_status_value_inject [simp]: "task_status_value a = task_status_value b \<longleftrightarrow> a = b"
  by (cases a; cases b) auto

lemma execution_status_value_inject [simp]:
  "execution_status_value a = execution_status_value b \<longleftrightarrow> a = b"
  by (cases a; cases b) auto

section \<open>Rows\<close>

record task =
  t_id :: uuid
  t_task_number :: int
  t_title :: string
  t_prompt :: string
  t_type :: string
  t_status :: task_status
  t_execution_order :: "int option"
  t_retry_count :: int
  t_max_retries :: int
  t_session_id :: "string option"
  t_created_by_type :: string
  t_created_by_ref :: string
  t_project_id :: "uuid option"
  t_requirement_id :: "uuid option"
  t_idempotency_key :: "string option"
  t_details :: "(string \<times> json) list"
  t_queued_at :: "datetime option"
  t_locked_by :: "string option"
  t_preparation_attempt_count :: int
  t_last_preparation_error :: "string option"
  t_branch_name :: "string option"
  t_worktree_path :: "string option"
  t_commit_sha_before :: "string option"
  t_prepared_context_version :: "string option"
  t_batch_id :: "string option"
  t_allow_parallel_execution :: bool
  t_created_at :: datetime
  t_updated_at :: datetime

record requirement =
  r_id :: uuid
  r_title :: string
  r_description :: string
  r_status :: string
  r_project_id :: "uuid option"
  r_created_at :: datetime
  r_updated_at :: datetime

record task_execution =
  e_id :: uuid
  e_task_id :: uuid
  e_runner_id :: "string option"
  e_correlation_id :: "string option"
  e_prepared_context_version :: "string option"
  e_opencode_session_id :: "string option"
  e_opencode_message_id :: "string option"
  e_status :: execution_status
  e_started_at :: "datetime option"
  e_dispatched_at :: "datetime option"
  e_finished_at :: "datetime option"
  e_heartbeat_at :: "datetime option"
  e_attempt :: int
  e_max_attempts :: int
  e_error_type :: "string option"
  e_error_message :: "string option"
  e_result_summary :: json
  e_branch_name :: "string option"
  e_worktree_path :: "string option"
  e_commit_sha_before :: "string option"
  e_commit_sha_after :: "string option"
  e_new_commit_shas :: "string list option"
  e_changed_files :: "string list option"
  e_diff_stat :: "string option"
  e_has_uncommitted_changes :: "bool option"
  e_inspection_status :: "string option"
  e_adopted_commit_sha :: "string option"
  e_total_tokens :: "int option"
  e_next_retry_at :: "datetime option"
  e_phase :: "string option"
  e_max_execution_duration_seconds :: "int option"
  e_updated_at :: datetime
  e_created_at :: datetime

record execution_event =
  v_execution_id :: uuid
  v_sequence :: int
  v_external_event_id :: "string option"
  v_direction :: event_direction
  v_event_type :: event_type
  v_payload :: "(string \<times> json) list"
  v_correlation_id :: "string option"
  v_created_at :: datetime

text \<open>The properties of \<open>TaskExecution\<close>.\<close>

definition is_complete :: "task_execution \<Rightarrow> bool" where
  "is_complete e = (execution_status_value (e_status e) \<in> {''done'', ''failed''})"

definition is_successful :: "task_execution \<Rightarrow> bool" where
  "is_successful e = (execution_status_value (e_status e) = ''done'')"

definition is_done :: "task_execution \<Rightarrow> bool" where
  "is_done e = (execution_status_value (e_status e) \<in> set FINAL_EXECUTION_STATUSES)"

definition is_active :: "task_execution \<Rightarrow> bool" where
  "is_active e = (execution_status_value (e_status e) \<notin> set FINAL_EXECUTION_STATUSES)"

lemma is_active_iff: "is_active e \<longleftrightarrow> e_status e \<notin> {ES_DONE, ES_FAILED, ES_REVIEW}"
  by (cases "e_status e") (auto simp: is_active_def FINAL_EXECUTION_STATUSES_def)

lemma is_active_ACTIVE:
  "is_active e \<longleftrightarrow> execution_status_value (e_status e) \<in> set ACTIVE_EXECUTION_STATUSES"
  by (cases "e_status e")
     (auto simp: is_active_def FINAL_EXECUTION_STATUSES_def ACTIVE_EXECUTION_STATUSES_def)

section \<open>The database\<close>

record db =
  tasks :: "task list"
  requirements :: "requirement list"
  executions :: "task_execution list"
  events :: "execution_event list"

text \<open>\<open>session.get(Task, id)\<close> and \<open>session.get(TaskExecution, id)\<close>.\<close>

definition get_task :: "db \<Rightarrow> uuid \<Rightarrow> task option" where
  "get_task d i = find (\<lambda>t. t_id t = i) (tasks d)"

definition get_execution :: "db \<Rightarrow> uuid \<Rightarrow> task_execution option" where
  "get_execution d i = find (\<lambda>e. e_id e = i) (executions d)"

text \<open>\<open>UPDATE task SET ... WHERE ...\<close> with its row count.\<close>

definition update_tasks :: "(task \<Rightarrow> bool) \<Rightarrow> (task \<Rightarrow> task) \<Rightarrow> db \<Rightarrow> db" where
  "update_tasks p f d = d\<lparr>tasks := map (\<lambda>t. if p t then f t else t) (tasks d)\<rparr>"

definition count_tasks :: "(task \<Rightarrow> bool) \<Rightarrow> db \<Rightarrow> nat" where
  "count_tasks p d = length (filter p (tasks d))"

text \<open>Writing the attributes of one loaded object.\<close>

definition put_task :: "uuid \<Rightarrow> (task \<Rightarrow> task) \<Rightarrow> db \<Rightarrow> db" where
  "put_task i f = update_tasks (\<lambda>t. t_id t = i) f"

definition put_execution :: "uuid \<Rightarrow> (task_execution \<Rightarrow> task_execution) \<Rightarrow> db \<Rightarrow> db" where
  "put_execution i f d =
     d\<lparr>executions := map (\<lambda>e. if e_id e = i then f e else e) (executions d)\<rparr>"

text \<open>
  The inserts check the constraints of the schema: primary keys, the foreign key of an
  execution, the partial unique index \<open>ix_task_executions_unique_active\<close>, and the unique
  indexes \<open>(task_execution_id, sequence)\<close> and \<open>(task_execution_id, external_event_id)\<close>.
\<close>

definition active_for :: "db \<Rightarrow> uuid \<Rightarrow> task_execution list" where
  "active_for d i = filter (\<lambda>e. e_task_id e = i \<and> is_active e) (executions d)"

definition insert_execution :: "task_execution \<Rightarrow> db \<Rightarrow> exn + db" where
  "insert_execution e d =
     (if e_id e \<in> e_id ` set (executions d) then Inl (IntegrityError ''pk_task_executions'')
      else if e_task_id e \<notin> t_id ` set (tasks d) then Inl (IntegrityError ''fk_task_executions'')
      else if is_active e \<and> active_for d (e_task_id e) \<noteq> []
        then Inl (IntegrityError ''ix_task_executions_unique_active'')
      else Inr (d\<lparr>executions := executions d @ [e]\<rparr>))"

definition events_of :: "db \<Rightarrow> uuid \<Rightarrow> execution_event list" where
  "events_of d i = filter (\<lambda>v. v_execution_id v = i) (events d)"

definition insert_event :: "execution_event \<Rightarrow> db \<Rightarrow> exn + db" where
  "insert_event v d =
     (if v_execution_id v \<notin> e_id ` set (executions d)
        then Inl (IntegrityError ''fk_task_execution_events'')
      else if \<exists>w \<in> set (events_of d (v_execution_id v)). v_sequence w = v_sequence v
        then Inl (IntegrityError ''ix_task_execution_events_unique_sequence'')
      else if v_external_event_id v \<noteq> None \<and>
          (\<exists>w \<in> set (events_of d (v_execution_id v)). v_external_event_id w = v_external_event_id v)
        then Inl (IntegrityError ''ix_task_execution_events_unique_external_id'')
      else Inr (d\<lparr>events := events d @ [v]\<rparr>))"

section \<open>Sessions\<close>

record session =
  committed :: db
  working :: db

definition open_session :: "db \<Rightarrow> session" where
  "open_session d = \<lparr>committed = d, working = d\<rparr>"

definition commit :: "session \<Rightarrow> session" where
  "commit s = s\<lparr>committed := working s\<rparr>"

definition rollback :: "session \<Rightarrow> session" where
  "rollback s = s\<lparr>working := committed s\<rparr>"

text \<open>Closing a session rolls its open transaction back and leaves the committed state.\<close>

definition close_session :: "session \<Rightarrow> db" where
  "close_session s = committed (rollback s)"

definition modify :: "(db \<Rightarrow> db) \<Rightarrow> session \<Rightarrow> session" where
  "modify f s = s\<lparr>working := f (working s)\<rparr>"

lemma session_simps [simp]:
  "committed (open_session d) = d" "working (open_session d) = d"
  "committed (commit s) = working s" "working (commit s) = working s"
  "committed (rollback s) = committed s" "working (rollback s) = committed s"
  "committed (modify f s) = committed s" "working (modify f s) = f (working s)"
  "close_session s = committed s"
  by (simp_all add: open_session_def commit_def rollback_def modify_def close_session_def)

text \<open>
  The outcome of a statement or commit at the database: it succeeds or SQLAlchemy raises.
  Whether it does is decided outside the program, so the operations take it as an argument.
\<close>

datatype db_outcome = DbOk | DbError string

section \<open>Well-formed databases\<close>

definition unique_active :: "db \<Rightarrow> bool" where
  "unique_active d = (\<forall>i. length (active_for d i) \<le> 1)"

definition events_unique :: "db \<Rightarrow> bool" where
  "events_unique d = distinct (map (\<lambda>v. (v_execution_id v, v_sequence v)) (events d))"

definition wf_db :: "db \<Rightarrow> bool" where
  "wf_db d = (distinct (map t_id (tasks d)) \<and> distinct (map e_id (executions d)) \<and>
     (\<forall>e \<in> set (executions d). e_task_id e \<in> t_id ` set (tasks d)) \<and>
     (\<forall>v \<in> set (events d). v_execution_id v \<in> e_id ` set (executions d)) \<and>
     unique_active d \<and> events_unique d)"

lemma wf_db_ids: "wf_db d \<Longrightarrow> distinct (map t_id (tasks d))"
  by (simp add: wf_db_def)

lemma get_task_Some: "get_task d i = Some t \<Longrightarrow> t \<in> set (tasks d) \<and> t_id t = i"
  by (auto simp: get_task_def find_Some_iff)

lemma get_task_None: "get_task d i = None \<longleftrightarrow> i \<notin> t_id ` set (tasks d)"
  by (auto simp: get_task_def find_None_iff)

lemma get_execution_Some:
  "get_execution d i = Some e \<Longrightarrow> e \<in> set (executions d) \<and> e_id e = i"
  by (auto simp: get_execution_def find_Some_iff)

lemma get_execution_None: "get_execution d i = None \<longleftrightarrow> i \<notin> e_id ` set (executions d)"
  by (auto simp: get_execution_def find_None_iff)

lemma find_unique:
  "distinct (map f xs) \<Longrightarrow> x \<in> set xs \<Longrightarrow> find (\<lambda>y. f y = f x) xs = Some x"
proof (induction xs)
  case (Cons a xs)
  show ?case
  proof (cases "a = x")
    case False
    with Cons.prems have "x \<in> set xs" by simp
    with Cons.prems(1) have "f a \<noteq> f x" by (metis distinct.simps(2) image_eqI list.simps(9) set_map)
    with Cons \<open>x \<in> set xs\<close> show ?thesis by simp
  qed simp
qed simp

lemma get_task_mem: "distinct (map t_id (tasks d)) \<Longrightarrow> t \<in> set (tasks d) \<Longrightarrow> get_task d (t_id t) = Some t"
  unfolding get_task_def by (rule find_unique)

text \<open>Reading a row after an update of the table: the identity of rows never changes.\<close>

lemma get_task_update:
  assumes "\<And>t. t_id (f t) = t_id t"
  shows "get_task (update_tasks p f d) i = map_option (\<lambda>t. if p t then f t else t) (get_task d i)"
proof -
  have "find (\<lambda>t. t_id t = i) (map (\<lambda>t. if p t then f t else t) ts) =
      map_option (\<lambda>t. if p t then f t else t) (find (\<lambda>t. t_id t = i) ts)" for ts
    using assms by (induction ts) auto
  then show ?thesis by (simp add: get_task_def update_tasks_def)
qed

lemma update_tasks_ids:
  assumes "\<And>t. t_id (f t) = t_id t"
  shows "map t_id (tasks (update_tasks p f d)) = map t_id (tasks d)"
  using assms by (simp add: update_tasks_def)

lemma update_tasks_other [simp]:
  "executions (update_tasks p f d) = executions d" "events (update_tasks p f d) = events d"
  "requirements (update_tasks p f d) = requirements d"
  "executions (put_task i g d) = executions d" "events (put_task i g d) = events d"
  "requirements (put_task i g d) = requirements d"
  by (simp_all add: update_tasks_def put_task_def)

lemma wf_db_update_tasks [inv_intros]:
  assumes "wf_db d" and "\<And>t. t_id (f t) = t_id t"
  shows "wf_db (update_tasks p f d)"
proof -
  have "map t_id (tasks (update_tasks p f d)) = map t_id (tasks d)"
    by (rule update_tasks_ids) (rule assms(2))
  moreover from this have "t_id ` set (tasks (update_tasks p f d)) = t_id ` set (tasks d)"
    by (metis set_map)
  ultimately show ?thesis using assms(1)
    by (simp add: wf_db_def unique_active_def active_for_def events_unique_def)
qed

lemma wf_db_put_task [inv_intros]:
  "wf_db d \<Longrightarrow> (\<And>t. t_id (f t) = t_id t) \<Longrightarrow> wf_db (put_task i f d)"
  unfolding put_task_def by (rule wf_db_update_tasks)

lemma get_task_put:
  assumes "\<And>t. t_id (f t) = t_id t"
  shows "get_task (put_task i f d) j = (if i = j then map_option f (get_task d j) else get_task d j)"
proof -
  have "get_task (put_task i f d) j = map_option (\<lambda>t. if t_id t = i then f t else t) (get_task d j)"
    unfolding put_task_def by (rule get_task_update) (rule assms)
  then show ?thesis by (cases "get_task d j") (auto dest: get_task_Some)
qed

lemma wf_db_insert_execution [inv_intros]:
  assumes "wf_db d" "insert_execution e d = Inr d'"
  shows "wf_db d'"
proof -
  from assms(2) have d': "d' = d\<lparr>executions := executions d @ [e]\<rparr>"
    and new: "e_id e \<notin> e_id ` set (executions d)" and fk: "e_task_id e \<in> t_id ` set (tasks d)"
    and act: "is_active e \<longrightarrow> active_for d (e_task_id e) = []"
    by (auto simp: insert_execution_def split: if_splits)
  have "unique_active d'"
    using assms(1) act by (auto simp: d' unique_active_def active_for_def wf_db_def)
  with assms(1) new fk show ?thesis by (auto simp: d' wf_db_def events_unique_def)
qed

lemma wf_db_insert_event [inv_intros]:
  assumes "wf_db d" "insert_event v d = Inr d'"
  shows "wf_db d'"
proof -
  from assms(2) have d': "d' = d\<lparr>events := events d @ [v]\<rparr>"
    and fk: "v_execution_id v \<in> e_id ` set (executions d)"
    and sq: "\<forall>w \<in> set (events_of d (v_execution_id v)). v_sequence w \<noteq> v_sequence v"
    by (auto simp: insert_event_def split: if_splits)
  have "(v_execution_id v, v_sequence v) \<notin> (\<lambda>v. (v_execution_id v, v_sequence v)) ` set (events d)"
    using sq by (auto simp: events_of_def)
  with assms(1) fk show ?thesis
    by (auto simp: d' wf_db_def unique_active_def active_for_def events_unique_def)
qed

lemma put_execution_other [simp]:
  "tasks (put_execution i f d) = tasks d" "events (put_execution i f d) = events d"
  "requirements (put_execution i f d) = requirements d"
  by (simp_all add: put_execution_def)

text \<open>
  An execution may change everything but its identity, its task and its being active.
\<close>

lemma wf_db_put_execution [inv_intros]:
  assumes wf: "wf_db d" and f: "\<And>e. e_id (f e) = e_id e" "\<And>e. e_task_id (f e) = e_task_id e"
    and act: "\<And>e. is_active (f e) \<Longrightarrow> is_active e"
  shows "wf_db (put_execution i f d)"
proof -
  let ?g = "\<lambda>e. if e_id e = i then f e else e"
  let ?d = "put_execution i f d"
  have g: "e_id (?g e) = e_id e" "e_task_id (?g e) = e_task_id e" "is_active (?g e) \<Longrightarrow> is_active e" for e
    by (cases "e_id e = i"; simp add: f act)+
  have ex: "executions ?d = map ?g (executions d)" by (simp add: put_execution_def)
  have ids: "map e_id (executions ?d) = map e_id (executions d)"
    using g(1) by (simp add: put_execution_def)
  have len: "length (filter (\<lambda>e. e_task_id e = j \<and> is_active e) (map ?g es)) \<le>
      length (filter (\<lambda>e. e_task_id e = j \<and> is_active e) es)" for j es
    by (rule length_filter_map_le) (metis (no_types, lifting) g(2) g(3))
  have ua: "unique_active ?d"
    unfolding unique_active_def
  proof
    fix j
    have "length (active_for ?d j) \<le> length (active_for d j)"
      using len [of j "executions d"] by (simp only: active_for_def ex)
    also have "\<dots> \<le> 1" using wf by (simp only: wf_db_def unique_active_def)
    finally show "length (active_for ?d j) \<le> 1" .
  qed
  have eids: "e_id ` set (executions ?d) = e_id ` set (executions d)" by (metis ids set_map)
  have fk: "\<forall>e \<in> set (executions ?d). e_task_id e \<in> t_id ` set (tasks ?d)"
  proof
    fix e assume "e \<in> set (executions ?d)"
    then obtain e' where e': "e' \<in> set (executions d)" "e = ?g e'"
      by (auto simp only: ex set_map image_iff)
    then have "e_task_id e = e_task_id e'" by (simp only: g(2))
    with e'(1) wf show "e_task_id e \<in> t_id ` set (tasks ?d)"
      by (simp only: wf_db_def put_execution_other)
  qed
  from wf have "distinct (map t_id (tasks d))" "distinct (map e_id (executions d))"
    "\<forall>v \<in> set (events d). v_execution_id v \<in> e_id ` set (executions d)" "events_unique d"
    by (auto simp only: wf_db_def)
  then show ?thesis using ua fk ids
    by (simp only: wf_db_def put_execution_other eids events_unique_def simp_thms)
qed

lemma get_execution_put:
  assumes "\<And>e. e_id (f e) = e_id e"
  shows "get_execution (put_execution i f d) j =
    (if i = j then map_option f (get_execution d j) else get_execution d j)"
proof -
  have "find (\<lambda>e. e_id e = j) (map (\<lambda>e. if e_id e = i then f e else e) es) =
     (if i = j then map_option f (find (\<lambda>e. e_id e = j) es) else find (\<lambda>e. e_id e = j) es)" for es
    using assms by (induction es) auto
  then show ?thesis by (simp add: get_execution_def put_execution_def)
qed

section \<open>Interfaces\<close>

text \<open>
  \<open>guarded_update\<close> is the contract of a conditional \<open>UPDATE ... WHERE status = src\<close> on one or
  several rows: it succeeds only when all its rows are in \<open>src\<close>, moves them to \<open>dst\<close>, and
  touches no other row's status. Whoever offers such an operation gets mutual exclusion
  from it: of all attempts, in any order and by any workers, at most one wins each row.
\<close>

locale guarded_update =
  fixes attempt :: "'op \<Rightarrow> 's \<Rightarrow> 's option"
    and keys_of :: "'op \<Rightarrow> 'k list"
    and status_of :: "'s \<Rightarrow> 'k \<Rightarrow> 'st option"
    and inv :: "'s \<Rightarrow> bool"
    and src dst :: 'st
  assumes attempt_inv: "inv s \<Longrightarrow> attempt x s = Some s' \<Longrightarrow> inv s'"
    and attempt_keys: "inv s \<Longrightarrow> attempt x s = Some s' \<Longrightarrow> distinct (keys_of x)"
    and attempt_guard: "inv s \<Longrightarrow> attempt x s = Some s' \<Longrightarrow> k \<in> set (keys_of x) \<Longrightarrow>
          status_of s k = Some src"
    and attempt_moves: "inv s \<Longrightarrow> attempt x s = Some s' \<Longrightarrow> k \<in> set (keys_of x) \<Longrightarrow>
          status_of s' k = Some dst"
    and attempt_frame: "inv s \<Longrightarrow> attempt x s = Some s' \<Longrightarrow> j \<notin> set (keys_of x) \<Longrightarrow>
          status_of s' j = status_of s j"
    and src_dst: "src \<noteq> dst"
begin

lemma overlapping_attempt_fails:
  assumes "inv s" "attempt x s = Some s'" "k \<in> set (keys_of x)" "k \<in> set (keys_of y)"
  shows "attempt y s' = None"
proof (cases "attempt y s'")
  case (Some u)
  have "inv s'" using assms(1,2) by (rule attempt_inv)
  then have "status_of s' k = Some src" using Some assms(4) by (rule attempt_guard)
  moreover have "status_of s' k = Some dst" using assms(1,2,3) by (rule attempt_moves)
  ultimately show ?thesis using src_dst by simp
qed simp

text \<open>A run of attempts; a failed attempt leaves the state.\<close>

fun run_attempts :: "'op list \<Rightarrow> 's \<Rightarrow> 'op list \<times> 's" where
  "run_attempts [] s = ([], s)"
| "run_attempts (x # xs) s =
     (case attempt x s of
        None \<Rightarrow> run_attempts xs s
      | Some s' \<Rightarrow> (case run_attempts xs s' of (won, t) \<Rightarrow> (x # won, t)))"

lemma run_attempts_frame:
  "inv s \<Longrightarrow> run_attempts xs s = (won, t) \<Longrightarrow> k \<notin> set (concat (map keys_of won)) \<Longrightarrow>
   status_of t k = status_of s k"
proof (induction xs arbitrary: s won)
  case (Cons x xs)
  show ?case
  proof (cases "attempt x s")
    case None
    with Cons show ?thesis by simp
  next
    case (Some s')
    obtain won' t' where r: "run_attempts xs s' = (won', t')" by (cases "run_attempts xs s'")
    with Some Cons.prems have won: "won = x # won'" "t' = t" by auto
    have "status_of t k = status_of s' k"
      by (rule Cons.IH) (use attempt_inv Cons.prems Some r won in auto)
    also have "\<dots> = status_of s k"
      by (rule attempt_frame [OF Cons.prems(1) Some]) (use Cons.prems won in auto)
    finally show ?thesis .
  qed
qed simp

lemma run_attempts_lost:
  "inv s \<Longrightarrow> status_of s k \<noteq> Some src \<Longrightarrow> run_attempts xs s = (won, t) \<Longrightarrow>
   k \<notin> set (concat (map keys_of won))"
proof (induction xs arbitrary: s won t)
  case (Cons x xs)
  show ?case
  proof (cases "attempt x s")
    case None
    with Cons show ?thesis by simp
  next
    case (Some s')
    have i: "inv s'" by (rule attempt_inv [OF Cons.prems(1) Some])
    have k: "k \<notin> set (keys_of x)" using attempt_guard [OF Cons.prems(1) Some] Cons.prems(2) by blast
    then have "status_of s' k \<noteq> Some src"
      using attempt_frame [OF Cons.prems(1) Some] Cons.prems(2) by simp
    moreover obtain won' t' where r: "run_attempts xs s' = (won', t')" by (cases "run_attempts xs s'")
    ultimately have "k \<notin> set (concat (map keys_of won'))" using Cons.IH [OF i] by simp
    with k r Some Cons.prems(3) show ?thesis by auto
  qed
qed simp

lemma run_attempts_wins:
  "inv s \<Longrightarrow> run_attempts xs s = (won, t) \<Longrightarrow> k \<in> set (concat (map keys_of won)) \<Longrightarrow>
   status_of s k = Some src \<and> status_of t k = Some dst"
proof (induction xs arbitrary: s won)
  case (Cons x xs)
  show ?case
  proof (cases "attempt x s")
    case None
    with Cons show ?thesis by simp
  next
    case (Some s')
    have i: "inv s'" by (rule attempt_inv [OF Cons.prems(1) Some])
    obtain won' t' where r: "run_attempts xs s' = (won', t')" by (cases "run_attempts xs s'")
    with Some Cons.prems have won: "won = x # won'" "t' = t" by auto
    show ?thesis
    proof (cases "k \<in> set (keys_of x)")
      case True
      from attempt_moves [OF Cons.prems(1) Some True] have d: "status_of s' k = Some dst" .
      then have "k \<notin> set (concat (map keys_of won'))"
        by (intro run_attempts_lost [OF i _ r]) (use src_dst in auto)
      then have "status_of t k = status_of s' k"
        using run_attempts_frame [OF i r] won by simp
      with d attempt_guard [OF Cons.prems(1) Some True] show ?thesis by simp
    next
      case False
      with Cons.prems(3) won have "k \<in> set (concat (map keys_of won'))" by auto
      with Cons.IH [OF i] r won have "status_of s' k = Some src \<and> status_of t k = Some dst" by blast
      with attempt_frame [OF Cons.prems(1) Some False] show ?thesis by simp
    qed
  qed
qed simp

lemma at_most_one_winner:
  "inv s \<Longrightarrow> run_attempts xs s = (won, t) \<Longrightarrow> distinct (concat (map keys_of won))"
proof (induction xs arbitrary: s won t)
  case (Cons x xs)
  show ?case
  proof (cases "attempt x s")
    case None
    with Cons show ?thesis by simp
  next
    case (Some s')
    have i: "inv s'" by (rule attempt_inv [OF Cons.prems(1) Some])
    obtain won' t' where r: "run_attempts xs s' = (won', t')" by (cases "run_attempts xs s'")
    with Some Cons.prems have won: "won = x # won'" by auto
    have "k \<notin> set (concat (map keys_of won'))" if "k \<in> set (keys_of x)" for k
      by (rule run_attempts_lost [OF i _ r])
         (use attempt_moves [OF Cons.prems(1) Some that] src_dst in auto)
    with Cons.IH [OF i r] won attempt_keys [OF Cons.prems(1) Some] show ?thesis by auto
  qed
qed simp

end

text \<open>
  \<open>sequence_log\<close> is the contract of an append-only event log: an append adds one number
  above all numbers that are there, so the numbers stay distinct and increasing.
\<close>

locale sequence_log =
  fixes numbers :: "'s \<Rightarrow> int list"
    and append_event :: "'x \<Rightarrow> 's \<Rightarrow> 's"
  assumes append_numbers: "\<exists>n. numbers (append_event x s) = numbers s @ [n] \<and>
      (\<forall>m \<in> set (numbers s). m < n)"
begin

fun append_all :: "'x list \<Rightarrow> 's \<Rightarrow> 's" where
  "append_all [] s = s"
| "append_all (x # xs) s = append_all xs (append_event x s)"

lemma append_sorted: "sorted_wrt (<) (numbers s) \<Longrightarrow> sorted_wrt (<) (numbers (append_event x s))"
  using append_numbers [of x s] by (auto simp: sorted_wrt_append)

lemma append_all_sorted: "sorted_wrt (<) (numbers s) \<Longrightarrow> sorted_wrt (<) (numbers (append_all xs s))"
  by (induction xs arbitrary: s) (auto intro: append_sorted)

lemma append_all_length: "length (numbers (append_all xs s)) = length (numbers s) + length xs"
proof (induction xs arbitrary: s)
  case (Cons x xs)
  from append_numbers [of x s] have "length (numbers (append_event x s)) = Suc (length (numbers s))"
    by auto
  with Cons show ?case by simp
qed simp

end

end
