(* ===== verification/Classification.thy ===== *)
theory Classification
  imports Model "HOL-Library.Multiset"
begin

text \<open>
  \<open>orchestrator/models.py\<close> (the DTOs) and \<open>orchestrator/classification.py\<close>: the task
  classifier and the batch planner. Both are side-effect free; the batch identifier (a
  timestamp and a random suffix) is an argument.
\<close>

section \<open>Data\<close>

datatype batch_type = READONLY_PARALLEL | WRITE_PARALLEL_ISOLATED | WRITE_SEQUENTIAL

fun batch_type_value :: "batch_type \<Rightarrow> string" where
  "batch_type_value READONLY_PARALLEL = ''readonly_parallel''"
| "batch_type_value WRITE_PARALLEL_ISOLATED = ''write_parallel_isolated''"
| "batch_type_value WRITE_SEQUENTIAL = ''write_sequential''"

datatype runner_mode = READ_ONLY | WRITE

fun runner_mode_value :: "runner_mode \<Rightarrow> string" where
  "runner_mode_value READ_ONLY = ''read_only''"
| "runner_mode_value WRITE = ''write''"

record task_classification =
  c_task_id :: uuid
  c_task_number :: int
  c_requires_write_access :: json
  c_parallelization_mode :: string
  c_effective_runner_mode :: runner_mode
  c_conflict_key :: "string option"
  c_reason_codes :: "string list"

record batch_plan =
  b_batch_id :: string
  b_batch_type :: batch_type
  b_task_ids :: "uuid list"
  b_excluded_task_ids :: "uuid list"
  b_exclusion_reasons :: "(uuid \<times> string) list"

section \<open>TaskClassifier\<close>

text \<open>
  \<open>classify\<close> accumulates \<open>reasons\<close> while it decides. The decision on write access comes
  first; a \<open>requires_write_access\<close> entry of the details always wins, and it may be any
  JSON value: the code keeps it as it is.
\<close>

definition write_decision :: "string \<Rightarrow> (string \<times> json) list \<Rightarrow> json \<times> string list" where
  "write_decision task_type details =
     (let (rw, rs) =
        (if task_type = ''execution'' then (JBool True, [''execution type requires write access''])
         else if task_type = ''planning'' \<or> task_type = ''analysis''
           then (JBool False, [task_type @ '' type is read-only by default''])
         else if task_type = ''requirement'' then
           (case map_of details ''requires_write_access'' of
              Some v \<Rightarrow> (v, [''requirement type with explicit requires_write_access='' @ json_str v])
            | None \<Rightarrow> (JBool False,
                [''requirement type - no explicit setting (default: read-only)'']))
         else (JBool True, [''unknown task type '' @ [CHR 0x27] @ task_type @ [CHR 0x27]
                 @ '' - conservative default: write'']));
        (rw', rs') =
        (case map_of details ''requires_write_access'' of
           Some v \<Rightarrow> (v, rs @ [''explicit override: requires_write_access='' @ json_str v])
         | None \<Rightarrow> (rw, rs))
      in (rw', rs' @ [if rw' = JBool True then ''final decision: requires write access''
                      else ''final decision: read-only'']))"

definition parallel_decision :: "(string \<times> json) list \<Rightarrow> string \<times> string list" where
  "parallel_decision details =
     (let m = dict_get details ''parallelization_mode'' (JStr ''sequential'') in
      if m = JStr ''sequential''
        then (''sequential'', [''parallelization_mode=sequential (default or explicit)''])
      else if m = JStr ''parallel'' then (''parallel'', [''parallelization_mode=parallel''])
      else (''sequential'',
        [''parallelization_mode='' @ json_str m @ '' (unknown, treated as sequential)'']))"

definition conflict_decision ::
    "json \<Rightarrow> int \<Rightarrow> (string \<times> json) list \<Rightarrow> string option \<times> string list" where
  "conflict_decision rw task_number details =
     (if truthy rw then
        (let b = dict_get details ''branch_name'' JNull in
         if truthy b then
           (Some (''branch:'' @ json_str b), [''conflict_key=branch:'' @ json_str b])
         else
           (Some (''task:'' @ int_str task_number),
            [''conflict_key=task:'' @ int_str task_number @ '' (auto-generated branch)'']))
      else (None, [''no conflict_key for read-only'']))"

definition classify ::
    "uuid \<Rightarrow> int \<Rightarrow> string \<Rightarrow> (string \<times> json) list \<Rightarrow> task_classification" where
  "classify task_id task_number task_type details =
     (let (rw, rs1) = write_decision task_type details;
          (pm, rs2) = parallel_decision details;
          (ck, rs3) = conflict_decision rw task_number details
      in \<lparr>c_task_id = task_id, c_task_number = task_number, c_requires_write_access = rw,
          c_parallelization_mode = pm,
          c_effective_runner_mode = (if truthy rw then WRITE else READ_ONLY),
          c_conflict_key = ck, c_reason_codes = rs1 @ rs2 @ rs3\<rparr>)"

definition classify_batch ::
    "(uuid \<times> int \<times> string \<times> (string \<times> json) list) list \<Rightarrow> task_classification list" where
  "classify_batch ts = map (\<lambda>(i, n, ty, det). classify i n ty det) ts"

section \<open>BatchPlanner\<close>

definition separate ::
    "task_classification list \<Rightarrow> task_classification list \<times> task_classification list" where
  "separate cs = (filter (\<lambda>c. c_effective_runner_mode c = READ_ONLY) cs,
                  filter (\<lambda>c. c_effective_runner_mode c \<noteq> READ_ONLY) cs)"

text \<open>The dictionary \<open>conflict_groups\<close>: keys in first-seen order, tasks in arrival order.\<close>

fun add_group ::
    "task_classification \<Rightarrow> (string option \<times> task_classification list) list \<Rightarrow>
     (string option \<times> task_classification list) list" where
  "add_group t [] = [(c_conflict_key t, [t])]"
| "add_group t ((k, g) # gs) =
     (if k = c_conflict_key t then (k, g @ [t]) # gs else (k, g) # add_group t gs)"

definition conflict_groups ::
    "task_classification list \<Rightarrow> (string option \<times> task_classification list) list" where
  "conflict_groups ts = fold add_group ts []"

text \<open>The planner's accumulators: included, excluded, reasons and \<open>write_count\<close>.\<close>

record plan_acc =
  p_included :: "uuid list"
  p_excluded :: "uuid list"
  p_reasons :: "(uuid \<times> string) list"
  p_write_count :: int

definition include_write :: "uuid \<Rightarrow> plan_acc \<Rightarrow> plan_acc" where
  "include_write i a =
     a\<lparr>p_included := p_included a @ [i], p_write_count := p_write_count a + 1\<rparr>"

definition exclude :: "string \<Rightarrow> uuid \<Rightarrow> plan_acc \<Rightarrow> plan_acc" where
  "exclude why i a =
     a\<lparr>p_excluded := p_excluded a @ [i], p_reasons := AList.update i why (p_reasons a)\<rparr>"

definition take_first :: "int \<Rightarrow> string \<Rightarrow> task_classification \<Rightarrow> plan_acc \<Rightarrow> plan_acc" where
  "take_first max_batch_size why t a =
     (if p_write_count a < max_batch_size then include_write (c_task_id t) a
      else exclude why (c_task_id t) a)"

text \<open>One iteration of the loop over \<open>conflict_groups.items()\<close>, its three branches.\<close>

definition plan_group ::
    "int \<Rightarrow> string option \<times> task_classification list \<Rightarrow> plan_acc \<Rightarrow> plan_acc" where
  "plan_group max_batch_size kg a =
     (case kg of (key, g) \<Rightarrow>
       (case key of
          None \<Rightarrow> fold (take_first max_batch_size ''Exceeded max_batch_size'') (take 1 g) a
        | Some k \<Rightarrow>
            if length g = 1
            then fold (take_first max_batch_size ''Exceeded max_batch_size'') g a
            else fold (\<lambda>t. exclude (''Blocked by conflict key '' @ k) (c_task_id t)) (drop 1 g)
                   (fold (take_first max_batch_size (''Conflict with branch '' @ k))
                      (take 1 g) a)))"

definition plan_readonly :: "int \<Rightarrow> task_classification list \<Rightarrow> plan_acc" where
  "plan_readonly max_batch_size ro =
     fold (\<lambda>t. exclude (''Exceeded max_batch_size ('' @ int_str max_batch_size @ '')'') (c_task_id t))
       (if max_batch_size < int (length ro) then slice_from max_batch_size ro else [])
       \<lparr>p_included = map c_task_id (slice_to max_batch_size ro), p_excluded = [],
        p_reasons = [], p_write_count = 0\<rparr>"

text \<open>\<open>len(conflict_keys) >= len([t for t in write_tasks if t.conflict_key])\<close>.\<close>

definition plan_batch_type :: "task_classification list \<Rightarrow> uuid list \<Rightarrow> batch_type" where
  "plan_batch_type write_tasks included =
     (if write_tasks = [] then READONLY_PARALLEL
      else if length included = 1 then WRITE_SEQUENTIAL
      else (let ks = filter str_truthy (map c_conflict_key write_tasks) in
            if length ks \<le> length (remdups ks) then WRITE_PARALLEL_ISOLATED
            else WRITE_SEQUENTIAL))"

definition create_batch_plan ::
    "string \<Rightarrow> int \<Rightarrow> task_classification list \<Rightarrow> batch_plan" where
  "create_batch_plan batch_id max_batch_size cs =
     (let (ro, wr) = separate cs;
          a = fold (plan_group max_batch_size) (conflict_groups wr) (plan_readonly max_batch_size ro)
      in \<lparr>b_batch_id = batch_id, b_batch_type = plan_batch_type wr (p_included a),
          b_task_ids = p_included a, b_excluded_task_ids = p_excluded a,
          b_exclusion_reasons = p_reasons a\<rparr>)"

definition plan_for_single_task :: "string \<Rightarrow> task_classification \<Rightarrow> batch_plan" where
  "plan_for_single_task batch_id c =
     \<lparr>b_batch_id = batch_id,
      b_batch_type = (if c_effective_runner_mode c = READ_ONLY then READONLY_PARALLEL
                      else WRITE_SEQUENTIAL),
      b_task_ids = [c_task_id c], b_excluded_task_ids = [], b_exclusion_reasons = []\<rparr>"

section \<open>Lemmas: classification\<close>

lemma write_decision_value:
  "fst (write_decision ty d) = (case map_of d ''requires_write_access'' of
     Some v \<Rightarrow> v | None \<Rightarrow> JBool (ty \<notin> {''planning'', ''analysis'', ''requirement''}))"
  by (auto simp: write_decision_def Let_def split: option.splits)

lemma classify_fields [simp]:
  "c_task_id (classify i n ty d) = i"
  "c_task_number (classify i n ty d) = n"
  "c_requires_write_access (classify i n ty d) = fst (write_decision ty d)"
  "c_effective_runner_mode (classify i n ty d) =
     (if truthy (fst (write_decision ty d)) then WRITE else READ_ONLY)"
  "c_parallelization_mode (classify i n ty d) = fst (parallel_decision d)"
  "c_conflict_key (classify i n ty d) =
     fst (conflict_decision (fst (write_decision ty d)) n d)"
  by (simp_all add: classify_def split_beta Let_def)

lemma conflict_key_iff:
  "(c_conflict_key (classify i n ty d) = None) = (c_effective_runner_mode (classify i n ty d) = READ_ONLY)"
  by (simp add: conflict_decision_def Let_def)

lemma conflict_key_truthy:
  "c_conflict_key (classify i n ty d) = Some k \<Longrightarrow> k \<noteq> []"
  by (auto simp: conflict_decision_def Let_def split: if_splits)

lemma auto_keys_distinct:
  assumes "\<not> truthy (dict_get d ''branch_name'' JNull)" "\<not> truthy (dict_get d' ''branch_name'' JNull)"
    and "truthy (fst (write_decision ty d))" "truthy (fst (write_decision ty' d'))" and "n \<noteq> n'"
  shows "c_conflict_key (classify i n ty d) \<noteq> c_conflict_key (classify i' n' ty' d')"
  using assms by (simp add: conflict_decision_def Let_def)

text \<open>The classifications that the classifier produces: read-only exactly without a key.\<close>

definition keyed :: "task_classification \<Rightarrow> bool" where
  "keyed c = ((c_conflict_key c = None) = (c_effective_runner_mode c = READ_ONLY))"

lemma classify_keyed: "keyed (classify i n ty d)"
  by (simp only: keyed_def conflict_key_iff)

lemma classify_batch_keyed: "c \<in> set (classify_batch ts) \<Longrightarrow> keyed c"
  by (auto simp: classify_batch_def classify_keyed)

lemma classify_batch_ids: "map c_task_id (classify_batch ts) = map fst ts"
  by (induction ts) (auto simp: classify_batch_def)

section \<open>Lemmas: conflict groups\<close>

definition groups_ok ::
    "(string option \<times> task_classification list) list \<Rightarrow> bool" where
  "groups_ok gs = (distinct (map fst gs) \<and>
     (\<forall>(k, g) \<in> set gs. g \<noteq> [] \<and> (\<forall>t \<in> set g. c_conflict_key t = k)))"

lemma add_group_keys: "fst ` set (add_group t gs) = insert (c_conflict_key t) (fst ` set gs)"
  by (induction t gs rule: add_group.induct) auto

lemma add_group_ok: "groups_ok gs \<Longrightarrow> groups_ok (add_group t gs)"
proof (induction t gs rule: add_group.induct)
  case (2 t k g gs)
  then show ?case using add_group_keys [of t gs]
    by (auto simp: groups_ok_def)
qed (simp add: groups_ok_def)

lemma add_group_mset: "mset (concat (map snd (add_group t gs))) = mset (concat (map snd gs)) + {#t#}"
  by (induction t gs rule: add_group.induct) auto

lemma conflict_groups_ok: "groups_ok (conflict_groups ts)"
proof -
  have "groups_ok gs \<Longrightarrow> groups_ok (fold add_group ts gs)" for gs
    by (induction ts arbitrary: gs) (auto simp: add_group_ok)
  moreover have "groups_ok []" by (simp add: groups_ok_def)
  ultimately show ?thesis by (simp add: conflict_groups_def)
qed

lemma conflict_groups_mset: "mset (concat (map snd (conflict_groups ts))) = mset ts"
proof -
  have "mset (concat (map snd (fold add_group ts gs))) = mset (concat (map snd gs)) + mset ts" for gs
    by (induction ts arbitrary: gs) (auto simp: add_group_mset)
  then show ?thesis by (simp add: conflict_groups_def)
qed

lemma conflict_groups_set: "(k, g) \<in> set (conflict_groups ts) \<Longrightarrow> set g \<subseteq> set ts"
  using arg_cong [OF conflict_groups_mset [of ts], of set_mset] by fastforce

lemma conflict_groups_key:
  "(k, g) \<in> set (conflict_groups ts) \<Longrightarrow> t \<in> set g \<Longrightarrow> c_conflict_key t = k"
  using conflict_groups_ok [of ts] by (auto simp: groups_ok_def)

lemma conflict_groups_nonempty: "(k, g) \<in> set (conflict_groups ts) \<Longrightarrow> g \<noteq> []"
  using conflict_groups_ok [of ts] by (auto simp: groups_ok_def)

section \<open>Lemmas: the plan in closed form\<close>

abbreviation group_first :: "string option \<times> task_classification list \<Rightarrow> uuid" where
  "group_first kg \<equiv> c_task_id (hd (snd kg))"

abbreviation group_rest :: "string option \<times> task_classification list \<Rightarrow> uuid list" where
  "group_rest kg \<equiv> map c_task_id (tl (snd kg))"

abbreviation group_ids :: "string option \<times> task_classification list \<Rightarrow> uuid list" where
  "group_ids kg \<equiv> map c_task_id (snd kg)"

lemma fold_exclude:
  "p_included (fold (\<lambda>t. exclude why (c_task_id t)) ts a) = p_included a"
  "p_excluded (fold (\<lambda>t. exclude why (c_task_id t)) ts a) = p_excluded a @ map c_task_id ts"
  "p_write_count (fold (\<lambda>t. exclude why (c_task_id t)) ts a) = p_write_count a"
  "fst ` set (p_reasons (fold (\<lambda>t. exclude why (c_task_id t)) ts a)) =
     fst ` set (p_reasons a) \<union> c_task_id ` set ts"
  by (induction ts arbitrary: a) (auto simp: exclude_def dict_keys_update)

lemma take_first_fields:
  "p_included (take_first m why t a) =
     p_included a @ (if p_write_count a < m then [c_task_id t] else [])"
  "p_excluded (take_first m why t a) =
     p_excluded a @ (if p_write_count a < m then [] else [c_task_id t])"
  "p_write_count (take_first m why t a) = p_write_count a + (if p_write_count a < m then 1 else 0)"
  "fst ` set (p_reasons (take_first m why t a)) =
     fst ` set (p_reasons a) \<union> (if p_write_count a < m then {} else {c_task_id t})"
  by (auto simp: take_first_def include_write_def exclude_def dict_keys_update)

lemma plan_group_fields:
  assumes "g \<noteq> []"
  shows "p_included (plan_group m (Some k, g) a) =
      p_included a @ (if p_write_count a < m then [c_task_id (hd g)] else [])"
    and "p_excluded (plan_group m (Some k, g) a) =
      p_excluded a @ (if p_write_count a < m then map c_task_id (tl g) else map c_task_id g)"
    and "p_write_count (plan_group m (Some k, g) a) =
      p_write_count a + (if p_write_count a < m then 1 else 0)"
    and "fst ` set (p_reasons (plan_group m (Some k, g) a)) = fst ` set (p_reasons a) \<union>
      (if p_write_count a < m then c_task_id ` set (tl g) else c_task_id ` set g)"
  using assms
  by (cases g; auto simp: plan_group_def take_first_fields fold_exclude)+

lemma plan_groups_closed:
  assumes "\<forall>(k, g) \<in> set gs. k \<noteq> None \<and> g \<noteq> []" and "p_write_count a \<le> m"
  shows "let n = nat (m - p_write_count a); a' = fold (plan_group m) gs a in
    p_included a' = p_included a @ map group_first (take n gs) \<and>
    p_excluded a' = p_excluded a @ concat (map group_rest (take n gs)) @ concat (map group_ids (drop n gs)) \<and>
    fst ` set (p_reasons a') = fst ` set (p_reasons a) \<union>
      set (concat (map group_rest (take n gs)) @ concat (map group_ids (drop n gs)))"
  using assms
proof (induction gs arbitrary: a)
  case Nil
  then show ?case by simp
next
  case (Cons kg gs)
  obtain k g where kg: "kg = (Some k, g)" and g: "g \<noteq> []"
    using Cons.prems(1) by (cases kg) auto
  let ?a = "plan_group m kg a"
  have cnt: "p_write_count ?a \<le> m" using Cons.prems(2) g by (simp add: kg plan_group_fields)
  have IH: "let n = nat (m - p_write_count ?a); a' = fold (plan_group m) gs ?a in
    p_included a' = p_included ?a @ map group_first (take n gs) \<and>
    p_excluded a' = p_excluded ?a @ concat (map group_rest (take n gs)) @ concat (map group_ids (drop n gs)) \<and>
    fst ` set (p_reasons a') = fst ` set (p_reasons ?a) \<union>
      set (concat (map group_rest (take n gs)) @ concat (map group_ids (drop n gs)))"
    by (rule Cons.IH) (use Cons.prems(1) cnt in auto)
  show ?case
  proof (cases "p_write_count a < m")
    case True
    then have n: "nat (m - p_write_count a) = Suc (nat (m - p_write_count ?a))"
      using g by (simp add: kg plan_group_fields)
    show ?thesis using IH True g
      by (simp add: n Let_def kg plan_group_fields Un_assoc)
  next
    case False
    with Cons.prems(2) have "nat (m - p_write_count a) = 0" "nat (m - p_write_count ?a) = 0"
      using g by (simp_all add: kg plan_group_fields)
    then show ?thesis using IH False g
      by (simp add: Let_def kg plan_group_fields Un_assoc)
  qed
qed

definition writes_of :: "task_classification list \<Rightarrow> task_classification list" where
  "writes_of cs = snd (separate cs)"

definition reads_of :: "task_classification list \<Rightarrow> task_classification list" where
  "reads_of cs = fst (separate cs)"

lemma separate_mset: "mset (reads_of cs) + mset (writes_of cs) = mset cs"
  by (simp add: reads_of_def writes_of_def separate_def)

lemma writes_groups_keyed:
  assumes "\<forall>c \<in> set cs. keyed c"
  shows "\<forall>(k, g) \<in> set (conflict_groups (writes_of cs)). k \<noteq> None \<and> g \<noteq> []"
proof clarify
  fix k g assume kg: "(k, g) \<in> set (conflict_groups (writes_of cs))"
  then have g: "g \<noteq> []" by (rule conflict_groups_nonempty)
  then have "hd g \<in> set g" by simp
  with kg have "c_conflict_key (hd g) = k" "hd g \<in> set (writes_of cs)"
    by (auto dest: conflict_groups_key conflict_groups_set)
  with assms have "k \<noteq> None" by (auto simp: writes_of_def separate_def keyed_def)
  with g show "k \<noteq> None \<and> g \<noteq> []" by simp
qed

lemma create_batch_plan_closed:
  fixes b :: string and cs :: "task_classification list"
  assumes "\<forall>c \<in> set cs. keyed c" and m: "0 \<le> m"
  defines "gs \<equiv> conflict_groups (writes_of cs)" and "p \<equiv> create_batch_plan b m cs"
  shows "b_task_ids p = map c_task_id (take (nat m) (reads_of cs)) @ map group_first (take (nat m) gs)"
    and "b_excluded_task_ids p = map c_task_id (drop (nat m) (reads_of cs)) @
      concat (map group_rest (take (nat m) gs)) @ concat (map group_ids (drop (nat m) gs))"
    and "fst ` set (b_exclusion_reasons p) = set (b_excluded_task_ids p)"
    and "b_batch_type p = plan_batch_type (writes_of cs) (b_task_ids p)"
proof -
  let ?a = "plan_readonly m (reads_of cs)"
  have over: "(if m < int (length xs) then slice_from m xs else []) = drop (nat m) xs" for xs :: "task_classification list"
    using m by (simp add: slice_from_def)
  have ro: "p_included ?a = map c_task_id (take (nat m) (reads_of cs))"
    "p_excluded ?a = map c_task_id (drop (nat m) (reads_of cs))"
    "p_write_count ?a = 0"
    "fst ` set (p_reasons ?a) = c_task_id ` set (drop (nat m) (reads_of cs))"
    using m by (simp_all add: plan_readonly_def fold_exclude slice_to_def over)
  have gs: "\<forall>(k, g) \<in> set gs. k \<noteq> None \<and> g \<noteq> []"
    unfolding gs_def by (rule writes_groups_keyed) (rule assms(1))
  have p: "b_task_ids p = p_included (fold (plan_group m) gs ?a)"
    "b_excluded_task_ids p = p_excluded (fold (plan_group m) gs ?a)"
    "b_exclusion_reasons p = p_reasons (fold (plan_group m) gs ?a)"
    "b_batch_type p = plan_batch_type (writes_of cs) (b_task_ids p)"
    by (simp_all add: p_def create_batch_plan_def gs_def writes_of_def reads_of_def split_beta Let_def)
  have c: "p_write_count ?a \<le> m" using m ro by simp
  from plan_groups_closed [OF gs c] ro p
  show "b_task_ids p = map c_task_id (take (nat m) (reads_of cs)) @ map group_first (take (nat m) gs)"
    and "b_excluded_task_ids p = map c_task_id (drop (nat m) (reads_of cs)) @
      concat (map group_rest (take (nat m) gs)) @ concat (map group_ids (drop (nat m) gs))"
    and "fst ` set (b_exclusion_reasons p) = set (b_excluded_task_ids p)"
    by (simp_all add: Let_def)
  show "b_batch_type p = plan_batch_type (writes_of cs) (b_task_ids p)" by (rule p(4))
qed

lemma group_parts_mset:
  "\<forall>(k, g) \<in> set hs. g \<noteq> [] \<Longrightarrow>
   mset (map group_first hs) + mset (concat (map group_rest hs)) =
     mset (map c_task_id (concat (map snd hs)))"
proof (induction hs)
  case (Cons kg hs)
  then obtain k t g where kg: "kg = (k, t # g)" by (cases kg) (auto simp: neq_Nil_conv)
  from Cons have "mset (map group_first hs) + mset (concat (map group_rest hs)) =
     mset (map c_task_id (concat (map snd hs)))" by simp
  then show ?case by (simp add: kg)
qed simp

lemma group_ids_concat: "concat (map group_ids hs) = map c_task_id (concat (map snd hs))"
  by (induction hs) simp_all

lemma groups_split_mset:
  assumes "\<forall>(k, g) \<in> set gs. g \<noteq> []"
  shows "mset (map group_first (take n gs)) + mset (concat (map group_rest (take n gs))) +
      mset (concat (map group_ids (drop n gs))) = mset (map c_task_id (concat (map snd gs)))"
proof -
  have t: "\<forall>(k, g) \<in> set (take n gs). g \<noteq> []" using assms by (auto dest: in_set_takeD)
  have "mset (map c_task_id (concat (map snd (take n gs)))) + mset (map c_task_id (concat (map snd (drop n gs))))
    = mset (map c_task_id (concat (map snd (take n gs @ drop n gs))))"
    by (simp only: map_append concat_append mset_append)
  then show ?thesis
    by (simp only: group_parts_mset [OF t] group_ids_concat append_take_drop_id)
qed

lemma plan_conservation:
  assumes "\<forall>c \<in> set cs. keyed c" and "0 \<le> m"
  shows "mset (b_task_ids (create_batch_plan b m cs)) + mset (b_excluded_task_ids (create_batch_plan b m cs))
    = mset (map c_task_id cs)"
proof -
  let ?gs = "conflict_groups (writes_of cs)" and ?n = "nat m"
  have ne: "\<forall>(k, g) \<in> set ?gs. g \<noteq> []" by (auto dest: conflict_groups_nonempty)
  have "mset (map c_task_id (concat (map snd ?gs))) = mset (map c_task_id (writes_of cs))"
    by (simp only: mset_map conflict_groups_mset)
  moreover have "mset (map c_task_id (take ?n (reads_of cs))) + mset (map c_task_id (drop ?n (reads_of cs)))
      = mset (map c_task_id (reads_of cs))"
    by (simp only: mset_append [symmetric] map_append [symmetric] append_take_drop_id)
  moreover have "mset (map c_task_id (reads_of cs)) + mset (map c_task_id (writes_of cs)) = mset (map c_task_id cs)"
    by (simp only: mset_map image_mset_union [symmetric] separate_mset)
  ultimately show ?thesis
    using groups_split_mset [OF ne, of ?n] create_batch_plan_closed(1,2) [OF assms, of b]
    by (simp add: ac_simps)
qed

lemma planned_write_is_first:
  assumes "\<forall>c \<in> set cs. keyed c" "0 \<le> m" "distinct (map c_task_id cs)"
    and c: "c \<in> set cs" "c_effective_runner_mode c = WRITE"
    and inc: "c_task_id c \<in> set (b_task_ids (create_batch_plan b m cs))"
  shows "\<exists>g. (c_conflict_key c, g) \<in> set (conflict_groups (writes_of cs)) \<and> hd g = c"
proof -
  have inj: "x = y" if "x \<in> set cs" "y \<in> set cs" "c_task_id x = c_task_id y" for x y
    using that assms(3) by (meson distinct_map inj_on_eq_iff)
  have "c_task_id c \<notin> c_task_id ` set (reads_of cs)"
  proof
    assume "c_task_id c \<in> c_task_id ` set (reads_of cs)"
    then obtain x where "x \<in> set cs" "c_effective_runner_mode x = READ_ONLY" "c_task_id x = c_task_id c"
      by (auto simp: reads_of_def separate_def)
    with inj [of x c] c show False by simp
  qed
  with inc create_batch_plan_closed(1) [OF assms(1,2), of b]
  have "c_task_id c \<in> set (map group_first (take (nat m) (conflict_groups (writes_of cs))))"
    by (auto dest: in_set_takeD)
  then obtain k g where kg: "(k, g) \<in> set (conflict_groups (writes_of cs))" "c_task_id (hd g) = c_task_id c"
    by (auto dest: in_set_takeD)
  moreover from kg(1) have "hd g \<in> set g" by (simp add: conflict_groups_nonempty)
  moreover from this kg(1) have "hd g \<in> set cs"
    by (auto dest!: conflict_groups_set simp: writes_of_def separate_def)
  moreover have "c_conflict_key (hd g) = k"
    by (rule conflict_groups_key [OF kg(1) \<open>hd g \<in> set g\<close>])
  ultimately show ?thesis using inj c by metis
qed

lemma planned_writes_isolated:
  assumes "\<forall>c \<in> set cs. keyed c" "0 \<le> m" "distinct (map c_task_id cs)"
    and "c \<in> set cs" "c_effective_runner_mode c = WRITE"
    and "c_task_id c \<in> set (b_task_ids (create_batch_plan b m cs))"
    and "c' \<in> set cs" "c_effective_runner_mode c' = WRITE"
    and "c_task_id c' \<in> set (b_task_ids (create_batch_plan b m cs))"
    and "c_conflict_key c = c_conflict_key c'"
  shows "c = c'"
proof -
  obtain g g' where g: "(c_conflict_key c, g) \<in> set (conflict_groups (writes_of cs))" "hd g = c"
    and g': "(c_conflict_key c', g') \<in> set (conflict_groups (writes_of cs))" "hd g' = c'"
    using planned_write_is_first [OF assms(1-6)] planned_write_is_first [OF assms(1-3,7-9)] by blast
  have "distinct (map fst (conflict_groups (writes_of cs)))"
    using conflict_groups_ok by (simp add: groups_ok_def)
  with g(1) g'(1) assms(10) have "g = g'" by (metis eq_key_imp_eq_value)
  with g(2) g'(2) show ?thesis by simp
qed

lemma isolated_batch_type:
  assumes "plan_batch_type wr inc = WRITE_PARALLEL_ISOLATED"
  shows "distinct (filter str_truthy (map c_conflict_key wr))"
proof -
  let ?ks = "filter str_truthy (map c_conflict_key wr)"
  from assms have "length ?ks \<le> length (remdups ?ks)"
    by (auto simp: plan_batch_type_def Let_def split: if_splits)
  then have "length (remdups ?ks) = length ?ks"
    by (metis length_remdups_leq le_antisym)
  then have "remdups ?ks = ?ks" by (simp only: length_remdups_eq)
  then show ?thesis by (simp only: remdups_id_iff_distinct)
qed

section \<open>Properties\<close>

text \<open>The descriptions of tasks that the witnesses classify.\<close>

definition sample_batch :: "(uuid \<times> int \<times> string \<times> (string \<times> json) list) list" where
  "sample_batch =
     [(1, 1, ''planning'', []),
      (2, 2, ''execution'', [(''branch_name'', JStr ''f'')]),
      (3, 3, ''execution'', [(''branch_name'', JStr ''f'')]),
      (4, 4, ''execution'', [])]"

lemma sample_batch_distinct: "distinct (map fst sample_batch)"
  by (simp add: sample_batch_def)

text \<open>
  Write access. An entry \<open>requires_write_access\<close> in the details always decides, by its
  Python truth value; without it, only planning, analysis and requirement tasks are
  read-only, so an unknown type is classified conservatively as a write. A task has a
  conflict key exactly when it writes: the requested branch if one is given, otherwise a
  key of its own task number, which no other task's automatic key equals.
\<close>

theorem classify_write_access:
  "(c_effective_runner_mode (classify i n ty d) = WRITE) =
     (case map_of d ''requires_write_access'' of
        Some v \<Rightarrow> truthy v
      | None \<Rightarrow> ty \<notin> {''planning'', ''analysis'', ''requirement''}) \<and>
   c_conflict_key (classify i n ty d) =
     (if c_effective_runner_mode (classify i n ty d) = READ_ONLY then None
      else if truthy (dict_get d ''branch_name'' JNull)
        then Some (''branch:'' @ json_str (dict_get d ''branch_name'' JNull))
      else Some (''task:'' @ int_str n)) \<and>
   c_parallelization_mode (classify i n ty d) \<in> {''sequential'', ''parallel''}"
  by (auto simp: write_decision_value conflict_decision_def parallel_decision_def Let_def
      split: option.splits)

text \<open>
  C22: Conservation. For every batch of classified tasks and every non-negative limit the
  plan includes or excludes each task exactly once, and gives a reason for exactly the
  excluded ones: no task is lost or planned twice.
\<close>

theorem plan_partitions_tasks:
  assumes "0 \<le> m"
  shows "let p = create_batch_plan b m (classify_batch ts) in
     mset (b_task_ids p) + mset (b_excluded_task_ids p) = mset (map fst ts) \<and>
     fst ` set (b_exclusion_reasons p) = set (b_excluded_task_ids p)"
proof -
  have k: "\<forall>c \<in> set (classify_batch ts). keyed c" by (auto intro: classify_batch_keyed)
  show ?thesis
    using plan_conservation [OF k assms, of b] create_batch_plan_closed(3) [OF k assms, of b]
    by (simp add: Let_def classify_batch_ids)
qed

theorem plan_partitions_tasks_witness:
  "let p = create_batch_plan ''b'' 1 (classify_batch sample_batch) in
     mset (b_task_ids p) + mset (b_excluded_task_ids p) = mset (map fst sample_batch) \<and>
     fst ` set (b_exclusion_reasons p) = set (b_excluded_task_ids p)"
  by (rule plan_partitions_tasks) simp

text \<open>
  C10: Isolation. Two different writing tasks of one plan never have the same conflict key,
  so at most one task per branch is put into a batch, whatever the order of the candidates.
\<close>

theorem plan_isolates_writes:
  assumes "0 \<le> m" and "distinct (map fst ts)"
    and "c \<in> set (classify_batch ts)" "c' \<in> set (classify_batch ts)"
    and "c_effective_runner_mode c = WRITE" "c_effective_runner_mode c' = WRITE"
    and "c_task_id c \<in> set (b_task_ids (create_batch_plan b m (classify_batch ts)))"
    and "c_task_id c' \<in> set (b_task_ids (create_batch_plan b m (classify_batch ts)))"
    and "c \<noteq> c'"
  shows "c_conflict_key c \<noteq> c_conflict_key c'"
proof -
  have k: "\<forall>c \<in> set (classify_batch ts). keyed c" by (auto intro: classify_batch_keyed)
  have d: "distinct (map c_task_id (classify_batch ts))"
    using assms(2) by (simp add: classify_batch_ids)
  show ?thesis
    using planned_writes_isolated [OF k assms(1) d assms(3,5,7) assms(4,6,8)] assms(9) by blast
qed

theorem plan_isolates_writes_witness:
  "let cs = classify_batch sample_batch in
     map c_task_id (filter (\<lambda>c. c_effective_runner_mode c = WRITE) cs) = [2, 3, 4] \<and>
     c_conflict_key (cs ! 1) \<noteq> c_conflict_key (cs ! 3)"
proof -
  let ?cs = "classify_batch sample_batch"
  have "c_conflict_key (?cs ! 1) \<noteq> c_conflict_key (?cs ! 3)"
    by (rule plan_isolates_writes [where m = 10 and b = "''b''" and ts = sample_batch]) code_simp+
  moreover have "map c_task_id (filter (\<lambda>c. c_effective_runner_mode c = WRITE) ?cs) = [2, 3, 4]"
    by code_simp
  ultimately show ?thesis by (simp add: Let_def)
qed

text \<open>
  Size and progress. A plan holds at most the limit of read-only and at most the limit
  of writing tasks, hence up to twice the limit, and an isolated-parallel plan is declared
  only when all writing candidates have pairwise different keys. With a positive limit and
  at least one candidate the plan is not empty.
\<close>

theorem plan_bounds:
  assumes "0 < m"
  shows "let cs = classify_batch ts; p = create_batch_plan b m cs in
     int (length (b_task_ids p)) \<le> 2 * m \<and> (b_task_ids p = [] \<longleftrightarrow> ts = []) \<and>
     (b_batch_type p = WRITE_PARALLEL_ISOLATED \<longrightarrow>
        distinct (map c_conflict_key (filter (\<lambda>c. c_effective_runner_mode c = WRITE) cs)))"
proof -
  let ?cs = "classify_batch ts" let ?p = "create_batch_plan b m ?cs"
  have k: "\<forall>c \<in> set ?cs. keyed c" by (auto intro: classify_batch_keyed)
  from assms have m: "0 \<le> m" by simp
  note closed = create_batch_plan_closed [OF k m, of b]
  have "length (b_task_ids ?p) \<le> nat m + nat m" by (simp add: closed(1))
  with m have len: "int (length (b_task_ids ?p)) \<le> 2 * m" by linarith
  have "b_task_ids ?p = [] \<longleftrightarrow> reads_of ?cs = [] \<and> conflict_groups (writes_of ?cs) = []"
    using assms by (auto simp: closed(1))
  also have "\<dots> \<longleftrightarrow> reads_of ?cs = [] \<and> writes_of ?cs = []"
    using conflict_groups_mset [of "writes_of ?cs"] by (auto simp: conflict_groups_def)
  also have "\<dots> \<longleftrightarrow> mset ?cs = {#}" by (simp add: separate_mset [of ?cs, symmetric])
  also have "\<dots> \<longleftrightarrow> ts = []" by (simp add: classify_batch_def)
  finally have ne: "b_task_ids ?p = [] \<longleftrightarrow> ts = []" .
  have w: "filter (\<lambda>c. c_effective_runner_mode c = WRITE) ?cs = writes_of ?cs"
    by (auto simp: writes_of_def separate_def intro!: filter_cong) (metis runner_mode.exhaust)
  have iso: "distinct (map c_conflict_key (writes_of ?cs))"
    if "b_batch_type ?p = WRITE_PARALLEL_ISOLATED"
  proof -
    have "filter str_truthy (map c_conflict_key (writes_of ?cs)) = map c_conflict_key (writes_of ?cs)"
      by (auto simp: filter_id_conv writes_of_def separate_def classify_batch_def str_truthy_iff
          conflict_decision_def Let_def split: if_splits)
    with isolated_batch_type that show ?thesis by (metis closed(4))
  qed
  from len ne iso w show ?thesis by (simp add: Let_def)
qed

theorem plan_bounds_witness:
  "let cs = classify_batch sample_batch; p = create_batch_plan ''b'' 10 cs in
     int (length (b_task_ids p)) \<le> 2 * 10 \<and> (b_task_ids p = [] \<longleftrightarrow> sample_batch = []) \<and>
     (b_batch_type p = WRITE_PARALLEL_ISOLATED \<longrightarrow>
        distinct (map c_conflict_key (filter (\<lambda>c. c_effective_runner_mode c = WRITE) cs)))"
  by (rule plan_bounds) simp

text \<open>The limit is per kind: one read-only and one writing task make a batch of two.\<close>

lemma plan_may_exceed_limit:
  "b_task_ids (create_batch_plan ''b'' 1 (classify_batch sample_batch)) = [1, 2]"
  by code_simp

text \<open>A truthy override that is not \<open>True\<close> writes although its reason says read-only.\<close>

lemma truthy_override_reason:
  "let c = classify 1 1 ''planning'' [(''requires_write_access'', JInt 1)] in
     c_effective_runner_mode c = WRITE \<and> ''final decision: read-only'' \<in> set (c_reason_codes c)"
  by (simp add: classify_def write_decision_def parallel_decision_def conflict_decision_def Let_def
      dict_get_def)

end
