(* ===== verification/Locking.thy ===== *)
theory Locking
  imports Classification
begin

text \<open>
  \<open>orchestrator/locking.py\<close>: the backlog-to-queued transition by conditional updates. An
  operation takes the session, the clock reading \<open>now\<close> and the outcome of the database
  statement, and returns the result with the session it leaves. The committed part of the
  session is what the next transaction, of this worker or another, starts from.
\<close>

section \<open>TaskLocker\<close>

record lock_result =
  lr_success :: bool
  lr_locked_task_ids :: "uuid list"
  lr_failed_task_ids :: "uuid list"
  lr_failure_reasons :: "(uuid \<times> string) list"
  lr_affected_rows :: nat
  lr_expected_rows :: nat

definition lock_values ::
    "datetime \<Rightarrow> string \<Rightarrow> string option \<Rightarrow> task \<Rightarrow> task" where
  "lock_values now worker batch_id t =
     t\<lparr>t_status := TS_QUEUED, t_queued_at := Some now, t_locked_by := Some worker,
       t_batch_id := batch_id, t_updated_at := now\<rparr>"

definition reasons_for :: "uuid list \<Rightarrow> string \<Rightarrow> (uuid \<times> string) list" where
  "reasons_for ids why = map (\<lambda>i. (i, why)) (remdups ids)"

text \<open>
  After a conflict the code looks at every task again: the ones that are in another status
  than backlog failed; the others, missing rows included, are called locked although
  everything was rolled back.
\<close>

definition lost_ids :: "db \<Rightarrow> uuid list \<Rightarrow> uuid list" where
  "lost_ids d ids = filter (\<lambda>i. case get_task d i of
     Some t \<Rightarrow> t_status t \<noteq> TS_BACKLOG | None \<Rightarrow> False) ids"

definition spared_ids :: "db \<Rightarrow> uuid list \<Rightarrow> uuid list" where
  "spared_ids d ids = filter (\<lambda>i. \<not> (case get_task d i of
     Some t \<Rightarrow> t_status t \<noteq> TS_BACKLOG | None \<Rightarrow> False)) ids"

definition lock_tasks ::
    "string \<Rightarrow> db_outcome \<Rightarrow> datetime \<Rightarrow> batch_plan \<Rightarrow> session \<Rightarrow> lock_result \<times> session" where
  "lock_tasks worker out now plan s =
     (let ids = b_task_ids plan; n = length ids in
      if ids = [] then
        (\<lparr>lr_success = True, lr_locked_task_ids = [], lr_failed_task_ids = [],
          lr_failure_reasons = [], lr_affected_rows = 0, lr_expected_rows = 0\<rparr>, s)
      else
        (case out of
           DbError e \<Rightarrow>
             (\<lparr>lr_success = False, lr_locked_task_ids = [], lr_failed_task_ids = ids,
               lr_failure_reasons = reasons_for ids (''Database error: '' @ e),
               lr_affected_rows = 0, lr_expected_rows = n\<rparr>, rollback s)
         | DbOk \<Rightarrow>
             (let p = (\<lambda>t. t_id t \<in> set ids \<and> t_status t = TS_BACKLOG);
                  affected = count_tasks p (working s);
                  s' = modify (update_tasks p (lock_values now worker (Some (b_batch_id plan)))) s
              in if affected \<noteq> n then
                   (let s'' = rollback s'; failed = lost_ids (working s'') ids in
                    (\<lparr>lr_success = False, lr_locked_task_ids = spared_ids (working s'') ids,
                      lr_failed_task_ids = failed,
                      lr_failure_reasons = reasons_for failed ''Already claimed by another worker'',
                      lr_affected_rows = affected, lr_expected_rows = n\<rparr>, s''))
                 else
                   (\<lparr>lr_success = True, lr_locked_task_ids = ids, lr_failed_task_ids = [],
                     lr_failure_reasons = [], lr_affected_rows = affected,
                     lr_expected_rows = n\<rparr>, commit s'))))"

definition lock_single_task ::
    "string \<Rightarrow> db_outcome \<Rightarrow> datetime \<Rightarrow> uuid \<Rightarrow> string option \<Rightarrow> session \<Rightarrow> lock_result \<times> session" where
  "lock_single_task worker out now i batch_id s =
     (case out of
        DbError e \<Rightarrow>
          (\<lparr>lr_success = False, lr_locked_task_ids = [], lr_failed_task_ids = [i],
            lr_failure_reasons = [(i, ''Database error: '' @ e)], lr_affected_rows = 0,
            lr_expected_rows = 1\<rparr>, rollback s)
      | DbOk \<Rightarrow>
          (let p = (\<lambda>t. t_id t = i \<and> t_status t = TS_BACKLOG);
               affected = count_tasks p (working s);
               s' = modify (update_tasks p (lock_values now worker batch_id)) s
           in if affected \<noteq> 1 then
                (let s'' = rollback s';
                     st = (case get_task (working s'') i of
                             Some t \<Rightarrow> task_status_value (t_status t) | None \<Rightarrow> ''not_found'')
                 in (\<lparr>lr_success = False, lr_locked_task_ids = [], lr_failed_task_ids = [i],
                       lr_failure_reasons = [(i, ''Task status was '' @ st)],
                       lr_affected_rows = affected, lr_expected_rows = 1\<rparr>, s''))
              else
                (\<lparr>lr_success = True, lr_locked_task_ids = [i], lr_failed_task_ids = [],
                  lr_failure_reasons = [], lr_affected_rows = 1, lr_expected_rows = 1\<rparr>,
                 commit s')))"

definition release_lock ::
    "db_outcome \<Rightarrow> datetime \<Rightarrow> uuid \<Rightarrow> task_status \<Rightarrow> session \<Rightarrow> bool \<times> session" where
  "release_lock out now i target s =
     (case out of
        DbError e \<Rightarrow> (False, rollback s)
      | DbOk \<Rightarrow>
          (let p = (\<lambda>t. t_id t = i \<and> t_status t = TS_QUEUED) in
           (count_tasks p (working s) = 1,
            commit (modify (update_tasks p (\<lambda>t. t\<lparr>t_status := target, t_queued_at := None,
              t_locked_by := None, t_updated_at := now\<rparr>)) s))))"

section \<open>Lemmas\<close>

definition status_in :: "db \<Rightarrow> uuid \<Rightarrow> task_status option" where
  "status_in d i = map_option t_status (get_task d i)"

lemma lock_values_fields [simp]:
  "t_id (lock_values now w b t) = t_id t" "t_status (lock_values now w b t) = TS_QUEUED"
  "t_locked_by (lock_values now w b t) = Some w" "t_batch_id (lock_values now w b t) = b"
  by (simp_all add: lock_values_def)

lemma status_in_update:
  assumes "\<And>t. t_id (f t) = t_id t"
  shows "status_in (update_tasks p f d) i =
    map_option (\<lambda>t. t_status (if p t then f t else t)) (get_task d i)"
  using get_task_update [of f p d i] assms by (simp add: status_in_def option.map_comp comp_def)

text \<open>As many matching rows as requested ids: the ids are distinct and each one matches.\<close>

lemma full_count:
  assumes d: "distinct (map t_id ts)"
    and n: "length (filter (\<lambda>t. t_id t \<in> set ids \<and> q t) ts) = length ids"
  shows "distinct ids \<and> (\<forall>i \<in> set ids. \<exists>t \<in> set ts. t_id t = i \<and> q t)"
proof -
  let ?hit = "filter (\<lambda>t. t_id t \<in> set ids \<and> q t) ts"
  have sub: "set (map t_id ?hit) \<subseteq> set ids" by auto
  have "distinct (map t_id ?hit)" using d by (rule distinct_map_filter)
  then have "card (set (map t_id ?hit)) = length (map t_id ?hit)" by (rule distinct_card)
  then have c: "card (set (map t_id ?hit)) = length ids" using n by (simp only: length_map)
  then have "length ids \<le> card (set ids)" using card_mono [OF finite_set sub] by simp
  then have di: "card (set ids) = length ids" using card_length [of ids] by (rule le_antisym [rotated])
  then have "set (map t_id ?hit) = set ids" using c
    by (intro card_subset_eq [OF finite_set sub]) simp
  then have "\<exists>t \<in> set ts. t_id t = i \<and> q t" if "i \<in> set ids" for i
  proof -
    have "i \<in> t_id ` set ?hit" using that \<open>set (map t_id ?hit) = set ids\<close> by (simp only: set_map)
    then show ?thesis by auto
  qed
  moreover have "distinct ids" using di by (rule card_distinct)
  ultimately show ?thesis by blast
qed

lemma status_in_mem:
  "wf_db d \<Longrightarrow> t \<in> set (tasks d) \<Longrightarrow> status_in d (t_id t) = Some (t_status t)"
  by (simp add: status_in_def get_task_mem wf_db_ids)

lemma lock_tasks_won:
  assumes ok: "lock_tasks w out now plan s = (r, s')" "lr_success r"
    and wf: "wf_db (working s)" and ne: "b_task_ids plan \<noteq> []"
  shows "out = DbOk" and "distinct (b_task_ids plan)"
    and "\<forall>i \<in> set (b_task_ids plan). status_in (working s) i = Some TS_BACKLOG"
    and "committed s' = update_tasks (\<lambda>t. t_id t \<in> set (b_task_ids plan) \<and> t_status t = TS_BACKLOG)
           (lock_values now w (Some (b_batch_id plan))) (working s)"
    and "lr_locked_task_ids r = b_task_ids plan"
proof -
  let ?ids = "b_task_ids plan"
  show out: "out = DbOk" using ok ne by (auto simp: lock_tasks_def Let_def split: db_outcome.splits)
  have n: "count_tasks (\<lambda>t. t_id t \<in> set ?ids \<and> t_status t = TS_BACKLOG) (working s) = length ?ids"
    using ok ne out by (auto simp: lock_tasks_def Let_def split: if_splits)
  then have f: "distinct ?ids \<and> (\<forall>i \<in> set ?ids. \<exists>t \<in> set (tasks (working s)). t_id t = i \<and> t_status t = TS_BACKLOG)"
    unfolding count_tasks_def by (rule full_count [OF wf_db_ids [OF wf]])
  then show "distinct ?ids" by simp
  from f show "\<forall>i \<in> set ?ids. status_in (working s) i = Some TS_BACKLOG"
    using status_in_mem [OF wf] by metis
  show "committed s' = update_tasks (\<lambda>t. t_id t \<in> set ?ids \<and> t_status t = TS_BACKLOG)
           (lock_values now w (Some (b_batch_id plan))) (working s)"
    and "lr_locked_task_ids r = ?ids"
    using ok ne out n by (auto simp: lock_tasks_def Let_def)
qed

lemma lock_tasks_lost:
  assumes "lock_tasks w out now plan s = (r, s')" "\<not> lr_success r"
  shows "s' = rollback s" and "b_task_ids plan \<noteq> []"
  using assms
  by (auto simp: lock_tasks_def Let_def rollback_def modify_def split: if_splits db_outcome.splits)

lemma wf_db_lock_tasks [inv_intros]:
  assumes "lock_tasks w out now plan s = (r, s')" "wf_db (working s)" "wf_db (committed s)"
  shows "wf_db (committed s')"
proof (cases "lr_success r \<and> b_task_ids plan \<noteq> []")
  case True
  then have "committed s' = update_tasks (\<lambda>t. t_id t \<in> set (b_task_ids plan) \<and> t_status t = TS_BACKLOG)
           (lock_values now w (Some (b_batch_id plan))) (working s)"
    using lock_tasks_won(4) [OF assms(1)] assms(2) by blast
  then show ?thesis using assms(2) by (simp add: wf_db_update_tasks)
next
  case False
  show ?thesis
  proof (cases "b_task_ids plan = []")
    case True
    with assms show ?thesis by (simp add: lock_tasks_def Let_def)
  next
    case ne: False
    with False have "s' = rollback s" by (intro lock_tasks_lost(1) [OF assms(1)]) simp
    with assms show ?thesis by simp
  qed
qed

section \<open>Mutual exclusion\<close>

text \<open>
  A batch lock by a worker, as one attempt on the committed database: it wins when it
  reports success. A single lock is the attempt on one id.
\<close>

definition attempt_batch ::
    "string \<times> db_outcome \<times> datetime \<times> batch_plan \<Rightarrow> db \<Rightarrow> db option" where
  "attempt_batch x d = (case x of (w, out, now, plan) \<Rightarrow>
     (case lock_tasks w out now plan (open_session d) of (r, s') \<Rightarrow>
        if lr_success r then Some (close_session s') else None))"

definition batch_keys :: "string \<times> db_outcome \<times> datetime \<times> batch_plan \<Rightarrow> uuid list" where
  "batch_keys x = (case x of (w, out, now, plan) \<Rightarrow> b_task_ids plan)"

definition attempt_single ::
    "string \<times> db_outcome \<times> datetime \<times> uuid \<times> string option \<Rightarrow> db \<Rightarrow> db option" where
  "attempt_single x d = (case x of (w, out, now, i, b) \<Rightarrow>
     (case lock_single_task w out now i b (open_session d) of (r, s') \<Rightarrow>
        if lr_success r then Some (close_session s') else None))"

definition single_key :: "string \<times> db_outcome \<times> datetime \<times> uuid \<times> string option \<Rightarrow> uuid list" where
  "single_key x = (case x of (w, out, now, i, b) \<Rightarrow> [i])"

lemma attempt_batch_Some:
  assumes "wf_db d" "attempt_batch (w, out, now, plan) d = Some d'"
  shows "d' = update_tasks (\<lambda>t. t_id t \<in> set (b_task_ids plan) \<and> t_status t = TS_BACKLOG)
           (lock_values now w (Some (b_batch_id plan))) d"
    and "distinct (b_task_ids plan)"
    and "\<forall>i \<in> set (b_task_ids plan). status_in d i = Some TS_BACKLOG"
proof -
  obtain r s' where l: "lock_tasks w out now plan (open_session d) = (r, s')" "lr_success r"
    and d': "d' = committed s'"
    using assms(2) by (auto simp: attempt_batch_def split: prod.splits if_splits)
  have all: "d' = update_tasks (\<lambda>t. t_id t \<in> set (b_task_ids plan) \<and> t_status t = TS_BACKLOG)
           (lock_values now w (Some (b_batch_id plan))) d \<and> distinct (b_task_ids plan) \<and>
    (\<forall>i \<in> set (b_task_ids plan). status_in d i = Some TS_BACKLOG)"
  proof (cases "b_task_ids plan = []")
    case True
    then have "d' = d" using l d' by (auto simp: lock_tasks_def Let_def)
    moreover from True have "update_tasks (\<lambda>t. t_id t \<in> set (b_task_ids plan) \<and> t_status t = TS_BACKLOG)
        (lock_values now w (Some (b_batch_id plan))) d = d"
      by (simp add: update_tasks_def)
    ultimately show ?thesis using True by simp
  next
    case False
    then show ?thesis using lock_tasks_won [OF l] assms(1) d' by simp
  qed
  then show "d' = update_tasks (\<lambda>t. t_id t \<in> set (b_task_ids plan) \<and> t_status t = TS_BACKLOG)
           (lock_values now w (Some (b_batch_id plan))) d"
    and "distinct (b_task_ids plan)"
    and "\<forall>i \<in> set (b_task_ids plan). status_in d i = Some TS_BACKLOG" by simp_all
qed

lemma lock_update_status:
  "status_in (update_tasks (\<lambda>t. t_id t \<in> A \<and> t_status t = TS_BACKLOG) (lock_values now w b) d) i =
     (if i \<in> A \<and> status_in d i = Some TS_BACKLOG then Some TS_QUEUED else status_in d i)"
proof -
  have "status_in (update_tasks (\<lambda>t. t_id t \<in> A \<and> t_status t = TS_BACKLOG) (lock_values now w b) d) i =
    map_option (\<lambda>t. t_status (if t_id t \<in> A \<and> t_status t = TS_BACKLOG then lock_values now w b t else t))
      (get_task d i)"
    by (rule status_in_update) simp
  then show ?thesis by (cases "get_task d i") (auto simp: status_in_def dest: get_task_Some)
qed

interpretation batch_lock: guarded_update attempt_batch batch_keys status_in wf_db TS_BACKLOG TS_QUEUED
proof
  fix d x d' k j
  assume wf: "wf_db d" and a: "attempt_batch x d = Some d'"
  obtain w out now plan where x: "x = (w, out, now, plan)" by (cases x)
  note d' = attempt_batch_Some [OF wf a [unfolded x]]
  show "wf_db d'" unfolding d'(1) by (rule wf_db_update_tasks [OF wf]) simp
  show "distinct (batch_keys x)" using d'(2) by (simp add: x batch_keys_def)
  show "status_in d k = Some TS_BACKLOG" if "k \<in> set (batch_keys x)"
    using d'(3) that by (simp add: x batch_keys_def)
  show "status_in d' k = Some TS_QUEUED" if "k \<in> set (batch_keys x)"
    using d'(3) that by (simp add: d'(1) lock_update_status x batch_keys_def)
  show "status_in d' j = status_in d j" if "j \<notin> set (batch_keys x)"
    using that by (simp add: d'(1) lock_update_status x batch_keys_def)
qed simp

text \<open>The single lock is the batch lock of a one-task plan, as far as it wins.\<close>

lemma lock_single_won:
  assumes "lock_single_task w out now i b s = (r, s')"
  shows "lr_success r \<longleftrightarrow> out = DbOk \<and>
      count_tasks (\<lambda>t. t_id t = i \<and> t_status t = TS_BACKLOG) (working s) = 1"
    and "lr_success r \<Longrightarrow> committed s' =
      update_tasks (\<lambda>t. t_id t \<in> {i} \<and> t_status t = TS_BACKLOG) (lock_values now w b) (working s)"
    and "\<not> lr_success r \<Longrightarrow> s' = rollback s \<and> lr_failed_task_ids r = [i]"
  using assms
  by (auto simp: lock_single_task_def Let_def rollback_def modify_def commit_def
      split: if_splits db_outcome.splits)

interpretation single_lock: guarded_update attempt_single single_key status_in wf_db TS_BACKLOG TS_QUEUED
proof
  fix d x d' k j
  assume wf: "wf_db d" and a: "attempt_single x d = Some d'"
  obtain w out now i b where x: "x = (w, out, now, i, b)" by (cases x)
  obtain r s' where l: "lock_single_task w out now i b (open_session d) = (r, s')" "lr_success r"
    and d': "d' = committed s'"
    using a by (auto simp: x attempt_single_def split: prod.splits if_splits)
  have d'': "d' = update_tasks (\<lambda>t. t_id t \<in> {i} \<and> t_status t = TS_BACKLOG) (lock_values now w b) d"
    using lock_single_won(2) [OF l(1)] l(2) d' by simp
  have "length (filter (\<lambda>t. t_id t \<in> set [i] \<and> t_status t = TS_BACKLOG) (tasks d)) = length [i]"
    using lock_single_won(1) [OF l(1)] l(2) by (simp add: count_tasks_def)
  from full_count [OF wf_db_ids [OF wf] this]
  have "\<exists>t \<in> set (tasks d). t_id t = i \<and> t_status t = TS_BACKLOG" by simp
  then have g: "status_in d i = Some TS_BACKLOG" using status_in_mem [OF wf] by metis
  have upd: "status_in d' j = (if j = i \<and> status_in d j = Some TS_BACKLOG then Some TS_QUEUED
      else status_in d j)" for j
    unfolding d'' lock_update_status by simp
  show "wf_db d'" unfolding d'' by (rule wf_db_update_tasks [OF wf]) simp
  show "distinct (single_key x)" by (simp add: x single_key_def)
  show "status_in d k = Some TS_BACKLOG" if "k \<in> set (single_key x)"
    using g that by (simp add: x single_key_def)
  show "status_in d' k = Some TS_QUEUED" if "k \<in> set (single_key x)"
    using g that by (simp add: upd x single_key_def)
  show "status_in d' j = status_in d j" if "j \<notin> set (single_key x)"
    using that by (simp add: upd x single_key_def)
qed simp

section \<open>Properties\<close>

text \<open>Batch locks executed one after another, in the order in which they reach the database.\<close>

fun run_locks ::
    "(string \<times> db_outcome \<times> datetime \<times> batch_plan) list \<Rightarrow> db \<Rightarrow>
     (string \<times> db_outcome \<times> datetime \<times> batch_plan) list \<times> db" where
  "run_locks [] d = ([], d)"
| "run_locks (x # xs) d =
     (case attempt_batch x d of
        None \<Rightarrow> run_locks xs d
      | Some d' \<Rightarrow> (case run_locks xs d' of (won, e) \<Rightarrow> (x # won, e)))"

lemma run_locks_run_attempts: "run_locks xs d = batch_lock.run_attempts xs d"
  by (induction xs arbitrary: d) (simp_all split: option.split prod.split)

definition sample_task :: "uuid \<Rightarrow> int \<Rightarrow> task_status \<Rightarrow> task" where
  "sample_task i n st =
     \<lparr>t_id = i, t_task_number = n, t_title = ''t'', t_prompt = ''p'', t_type = ''execution'',
      t_status = st, t_execution_order = None, t_retry_count = 0, t_max_retries = 3,
      t_session_id = None, t_created_by_type = ''user'', t_created_by_ref = ''u'',
      t_project_id = None, t_requirement_id = None, t_idempotency_key = None, t_details = [],
      t_queued_at = None, t_locked_by = None, t_preparation_attempt_count = 0,
      t_last_preparation_error = None, t_branch_name = None, t_worktree_path = None,
      t_commit_sha_before = None, t_prepared_context_version = None, t_batch_id = None,
      t_allow_parallel_execution = False, t_created_at = n, t_updated_at = n\<rparr>"

definition sample_db :: db where
  "sample_db = \<lparr>tasks = [sample_task 1 1 TS_BACKLOG, sample_task 2 2 TS_BACKLOG,
       sample_task 3 3 TS_QUEUED], requirements = [], executions = [], events = []\<rparr>"

lemma sample_db_wf: "wf_db sample_db"
  by (simp add: wf_db_def sample_db_def sample_task_def unique_active_def active_for_def events_unique_def)

definition sample_plan :: "uuid list \<Rightarrow> batch_plan" where
  "sample_plan ids = \<lparr>b_batch_id = ''b'', b_batch_type = WRITE_SEQUENTIAL, b_task_ids = ids,
     b_excluded_task_ids = [], b_exclusion_reasons = []\<rparr>"

text \<open>
  C5: Two workers never lock the same task. However the batch locks of any number of workers
  are ordered, the successful ones have pairwise disjoint, duplicate-free task lists; every
  task of a successful lock was backlog in the beginning and is queued in the end; every
  other task keeps its status.
\<close>

theorem locks_are_exclusive:
  assumes "wf_db d" and "run_locks xs d = (won, d')"
  shows "distinct (concat (map batch_keys won)) \<and>
    (\<forall>i. if i \<in> set (concat (map batch_keys won))
         then status_in d i = Some TS_BACKLOG \<and> status_in d' i = Some TS_QUEUED
         else status_in d' i = status_in d i)"
  using batch_lock.at_most_one_winner [OF assms(1), of xs won d']
    batch_lock.run_attempts_wins [OF assms(1), of xs won d']
    batch_lock.run_attempts_frame [OF assms(1), of xs won d'] assms(2)
  by (simp only: run_locks_run_attempts simp_thms if_split split: if_split) blast

theorem locks_are_exclusive_witness:
  "let xs = [(''w1'', DbOk, 10, sample_plan [1]), (''w2'', DbOk, 11, sample_plan [2, 1]),
             (''w3'', DbOk, 12, sample_plan [2])];
       r = run_locks xs sample_db in
     map fst (fst r) = [''w1'', ''w3''] \<and> distinct (concat (map batch_keys (fst r)))"
proof -
  let ?xs = "[(''w1'', DbOk, 10, sample_plan [1]), (''w2'', DbOk, 11, sample_plan [2, 1]),
             (''w3'', DbOk, 12, sample_plan [2])]"
  have "distinct (concat (map batch_keys (fst (run_locks ?xs sample_db))))"
    using locks_are_exclusive [OF sample_db_wf, of ?xs] by (metis prod.collapse)
  moreover have "map fst (fst (run_locks ?xs sample_db)) = [''w1'', ''w3'']" by code_simp
  ultimately show ?thesis by (simp add: Let_def)
qed

text \<open>
  C23: A batch lock is all or nothing. If it reports success, every requested task was
  backlog, is now committed as queued for this worker and batch, and no other row changed;
  otherwise, conflicts and database errors alike, the committed database is the old one.
\<close>

theorem lock_tasks_all_or_nothing:
  assumes "wf_db (working s)" and "lock_tasks w out now plan s = (r, s')"
  shows "if lr_success r
    then \<forall>i. get_task (committed s') i =
       (if b_task_ids plan = [] then get_task (committed s) i
        else if i \<in> set (b_task_ids plan)
          then map_option (lock_values now w (Some (b_batch_id plan))) (get_task (working s) i)
        else get_task (working s) i) \<and>
      (i \<in> set (b_task_ids plan) \<longrightarrow> status_in (working s) i = Some TS_BACKLOG)
    else committed s' = committed s \<and> working s' = committed s"
proof (cases "lr_success r \<and> b_task_ids plan \<noteq> []")
  case True
  then have ok: "lr_success r" and ne: "b_task_ids plan \<noteq> []" by simp_all
  note won = lock_tasks_won [OF assms(2) ok assms(1) ne]
  have "get_task (committed s') i = (if i \<in> set (b_task_ids plan)
        then map_option (lock_values now w (Some (b_batch_id plan))) (get_task (working s) i)
        else get_task (working s) i)" for i
  proof -
    have "get_task (committed s') i = map_option (\<lambda>t. if t_id t \<in> set (b_task_ids plan) \<and>
        t_status t = TS_BACKLOG then lock_values now w (Some (b_batch_id plan)) t else t) (get_task (working s) i)"
      unfolding won(4) by (rule get_task_update) simp
    then show ?thesis using won(3) get_task_Some [of "working s" i]
      by (cases "get_task (working s) i") (auto simp: status_in_def)
  qed
  with ok ne won(3) show ?thesis by simp
next
  case False
  show ?thesis
  proof (cases "b_task_ids plan = []")
    case True
    with assms(2) show ?thesis by (auto simp: lock_tasks_def Let_def)
  next
    case ne: False
    with False have "\<not> lr_success r" by simp
    with lock_tasks_lost(1) [OF assms(2)] show ?thesis by simp
  qed
qed

theorem lock_tasks_all_or_nothing_witness:
  "let (r, s') = lock_tasks ''w'' DbOk 5 (sample_plan [2, 1]) (open_session sample_db) in
     lr_success r \<and> get_task (committed s') 1 =
       Some (lock_values 5 ''w'' (Some ''b'') (sample_task 1 1 TS_BACKLOG))"
proof -
  obtain r s' where l: "lock_tasks ''w'' DbOk 5 (sample_plan [2, 1]) (open_session sample_db) = (r, s')"
    by (cases "lock_tasks ''w'' DbOk 5 (sample_plan [2, 1]) (open_session sample_db)")
  have "lr_success (fst (lock_tasks ''w'' DbOk 5 (sample_plan [2, 1]) (open_session sample_db)))"
    by code_simp
  with l have ok: "lr_success r" by simp
  have "wf_db (working (open_session sample_db))" by (simp add: sample_db_wf)
  from lock_tasks_all_or_nothing [OF this l] ok
  have "get_task (committed s') 1 =
      map_option (lock_values 5 ''w'' (Some ''b'')) (get_task sample_db 1)"
    by (simp add: sample_plan_def)
  also have "get_task sample_db 1 = Some (sample_task 1 1 TS_BACKLOG)" by code_simp
  finally show ?thesis using ok l by simp
qed

text \<open>
  After a conflict the tasks that stayed in the backlog are reported as locked although the
  rollback has released them: the caller may go on with tasks it does not own.
\<close>

lemma conflict_reports_unlocked_tasks:
  "let (r, s') = lock_tasks ''w'' DbOk 5 (sample_plan [1, 3]) (open_session sample_db) in
     \<not> lr_success r \<and> lr_locked_task_ids r = [1] \<and> status_in (committed s') 1 = Some TS_BACKLOG \<and>
     map_option t_locked_by (get_task (committed s') 1) = Some None"
  by code_simp

text \<open>
  Releasing a lock. It changes only a queued task, sets exactly the target status and
  clears the lock fields, and reports success exactly when one queued row was there; a
  database error leaves the committed state.
\<close>

theorem release_lock_effect:
  assumes "wf_db (working s)" and "release_lock out now i target s = (ok, s')"
  shows "if out = DbOk
    then (ok \<longleftrightarrow> status_in (working s) i = Some TS_QUEUED) \<and>
      (\<forall>j. get_task (committed s') j =
        (if ok \<and> i = j then map_option (\<lambda>t. t\<lparr>t_status := target, t_queued_at := None,
              t_locked_by := None, t_updated_at := now\<rparr>) (get_task (working s) j)
         else get_task (working s) j))
    else \<not> ok \<and> committed s' = committed s"
proof (cases out)
  case DbOk
  let ?p = "\<lambda>t. t_id t = i \<and> t_status t = TS_QUEUED"
  let ?f = "\<lambda>t. t\<lparr>t_status := target, t_queued_at := None, t_locked_by := None, t_updated_at := now\<rparr>"
  have c: "count_tasks ?p (working s) = 1 \<longleftrightarrow> status_in (working s) i = Some TS_QUEUED"
  proof
    assume "count_tasks ?p (working s) = 1"
    then have "length (filter (\<lambda>t. t_id t \<in> set [i] \<and> t_status t = TS_QUEUED) (tasks (working s))) = length [i]"
      by (simp add: count_tasks_def)
    from full_count [OF wf_db_ids [OF assms(1)] this] status_in_mem [OF assms(1)]
    show "status_in (working s) i = Some TS_QUEUED" by force
  next
    assume q: "status_in (working s) i = Some TS_QUEUED"
    then obtain t where t: "t \<in> set (tasks (working s))" "t_id t = i" "t_status t = TS_QUEUED"
      by (auto simp: status_in_def dest: get_task_Some)
    have "filter ?p ts = [t]" if "distinct (map t_id ts)" "t \<in> set ts" for ts
      using that t(2,3)
    proof (induction ts)
      case (Cons a ts)
      show ?case
      proof (cases "a = t")
        case True
        with Cons.prems have "\<forall>x \<in> set ts. \<not> ?p x" by (auto simp: image_iff)
        with True Cons.prems show ?thesis by (simp add: filter_empty_conv)
      next
        case False
        with Cons.prems have "t \<in> set ts" by simp
        with Cons.prems have "t_id a \<noteq> i" by (auto simp: image_iff)
        with Cons \<open>t \<in> set ts\<close> show ?thesis by simp
      qed
    qed simp
    from this [OF wf_db_ids [OF assms(1)] t(1)] show "count_tasks ?p (working s) = 1"
      by (simp add: count_tasks_def)
  qed
  have r: "ok = (count_tasks ?p (working s) = 1)" "committed s' = update_tasks ?p ?f (working s)"
    using assms(2) DbOk by (auto simp: release_lock_def Let_def)
  have "get_task (committed s') j = map_option (\<lambda>t. if ?p t then ?f t else t) (get_task (working s) j)" for j
    unfolding r(2) by (rule get_task_update) simp
  then have "get_task (committed s') j = (if ok \<and> i = j then map_option ?f (get_task (working s) j)
      else get_task (working s) j)" for j
    using get_task_Some [of "working s" j] unfolding r(1) c status_in_def
    by (cases "get_task (working s) j") auto
  with DbOk r(1) c show ?thesis by simp
next
  case (DbError e)
  with assms(2) show ?thesis by (auto simp: release_lock_def)
qed

theorem release_lock_effect_witness:
  "let (ok, s') = release_lock DbOk 9 3 TS_BACKLOG (open_session sample_db) in
     ok \<and> status_in (committed s') 3 = Some TS_BACKLOG"
proof -
  obtain ok s' where r: "release_lock DbOk 9 3 TS_BACKLOG (open_session sample_db) = (ok, s')"
    by (cases "release_lock DbOk 9 3 TS_BACKLOG (open_session sample_db)")
  have wf: "wf_db (working (open_session sample_db))" by (simp add: sample_db_wf)
  have st: "status_in sample_db 3 = Some TS_QUEUED" by code_simp
  have "ok" using release_lock_effect [OF wf r] st by simp
  moreover have "get_task (committed s') 3 =
      map_option (\<lambda>t. t\<lparr>t_status := TS_BACKLOG, t_queued_at := None, t_locked_by := None,
        t_updated_at := 9\<rparr>) (get_task sample_db 3)"
    using release_lock_effect [OF wf r] st \<open>ok\<close> by simp
  ultimately show ?thesis using st r
    by (cases "get_task sample_db 3") (auto simp: status_in_def)
qed

end
