(* ===== verification/Candidate_Discovery.thy ===== *)
theory Candidate_Discovery
  imports Locking "HOL-Library.Product_Lexorder"
begin

text \<open>
  \<open>orchestrator/candidate_discovery.py\<close>: the query that selects the executable backlog tasks,
  its deterministic order (execution order with nulls last, creation time, task number) and
  its limit. A negative \<open>LIMIT\<close> is refused by the database.
\<close>

definition default_supported_types :: "string list" where
  "default_supported_types = [''planning'', ''execution'', ''analysis'']"

definition supported :: "string list option \<Rightarrow> string list" where
  "supported st = (case st of None \<Rightarrow> default_supported_types
     | Some ts \<Rightarrow> if ts = [] then default_supported_types else ts)"

type_synonym order_key = "(bool \<times> int) \<times> int \<times> int"

definition candidate_key :: "task \<Rightarrow> order_key" where
  "candidate_key t =
     ((case t_execution_order t of None \<Rightarrow> (True, 0) | Some n \<Rightarrow> (False, n)),
      t_created_at t, t_task_number t)"

definition eligible :: "string list option \<Rightarrow> uuid list \<Rightarrow> task \<Rightarrow> bool" where
  "eligible st excl t = (t_status t = TS_BACKLOG \<and> t_type t \<in> set (supported st) \<and>
     t_id t \<notin> set excl)"

definition find_candidates ::
    "int \<Rightarrow> string list option \<Rightarrow> uuid list \<Rightarrow> db \<Rightarrow> exn + task list" where
  "find_candidates max_batch_size st excl d =
     (if max_batch_size < 0 then Inl (SQLAlchemyError ''LIMIT must not be negative'')
      else Inr (take (nat max_batch_size)
        (sort_key candidate_key (filter (eligible st excl) (tasks d)))))"

definition count_pending :: "db \<Rightarrow> int" where
  "count_pending d = (if \<exists>t \<in> set (tasks d). t_status t = TS_BACKLOG then 1 else 0)"

section \<open>Lemmas\<close>

lemma candidate_key_number: "candidate_key t = candidate_key u \<Longrightarrow> t_task_number t = t_task_number u"
  by (simp add: candidate_key_def)

lemma find_candidates_Inr:
  assumes "find_candidates m st excl d = Inr cs"
  shows "cs = take (nat m) (sort_key candidate_key (filter (eligible st excl) (tasks d)))" "0 \<le> m"
  using assms by (auto simp: find_candidates_def split: if_splits)

lemma find_candidates_subset:
  "find_candidates m st excl d = Inr cs \<Longrightarrow> t \<in> set cs \<Longrightarrow> t \<in> set (tasks d) \<and> eligible st excl t"
  by (auto dest!: find_candidates_Inr(1) in_set_takeD)

lemma find_candidates_distinct:
  assumes "wf_db d" "find_candidates m st excl d = Inr cs"
  shows "distinct (map t_id cs)"
proof -
  have "distinct (map t_id (filter (eligible st excl) (tasks d)))"
    by (rule distinct_map_filter) (rule wf_db_ids [OF assms(1)])
  then have "distinct (map t_id (sort_key candidate_key (filter (eligible st excl) (tasks d))))"
    by (simp add: distinct_map)
  then show ?thesis using find_candidates_Inr(1) [OF assms(2)]
    by (metis distinct_take take_map)
qed

lemma sort_key_permutation:
  assumes "mset xs = mset ys" "inj_on f (set xs)"
  shows "sort_key f xs = sort_key f ys"
proof -
  have "set xs = set ys" using assms(1) by (rule mset_eq_setD)
  have "sort_key f ys = sort_key f xs"
  proof (rule properties_for_sort_key)
    show "mset (sort_key f xs) = mset ys" using assms(1) by simp
    show "filter (\<lambda>x. f k = f x) (sort_key f xs) = filter (\<lambda>x. f k = f x) ys" if "k \<in> set (sort_key f xs)" for k
    proof -
      have k: "k \<in> set xs" using that by simp
      have eq: "filter (\<lambda>x. f k = f x) zs = filter (\<lambda>x. x = k) zs" if "set zs \<subseteq> set xs" for zs
        using that k assms(2) by (auto intro!: filter_cong simp: inj_on_def)
      have rep: "filter (\<lambda>x. x = k) zs = replicate (count (mset zs) k) k" for zs
        by (induction zs) auto
      show ?thesis using assms(1) \<open>set xs = set ys\<close> by (simp add: eq rep)
    qed
    show "sorted (map f (sort_key f xs))" by simp
  qed
  then show ?thesis by simp
qed

section \<open>Properties\<close>

text \<open>
  C37: Candidates. The result holds only backlog tasks of a supported type that are not
  excluded, at most the limit, in non-decreasing key order and without repetition; it is
  complete: an eligible task that is missing comes no earlier than every returned one, and
  is missing only when the limit is reached.
\<close>

theorem candidates_sound_and_complete:
  assumes "wf_db d" and "find_candidates m st excl d = Inr cs"
  shows "int (length cs) \<le> m \<and> distinct (map t_id cs) \<and> sorted (map candidate_key cs) \<and>
    (\<forall>t \<in> set cs. t \<in> set (tasks d) \<and> t_status t = TS_BACKLOG \<and>
        t_type t \<in> set (supported st) \<and> t_id t \<notin> set excl) \<and>
    (\<forall>t \<in> set (tasks d). eligible st excl t \<and> t \<notin> set cs \<longrightarrow>
        int (length cs) = m \<and> (\<forall>u \<in> set cs. candidate_key u \<le> candidate_key t))"
proof -
  let ?all = "sort_key candidate_key (filter (eligible st excl) (tasks d))"
  note cs = find_candidates_Inr [OF assms(2)]
  have srt: "sorted (map candidate_key ?all)" by simp
  then have s: "sorted (map candidate_key cs)"
    unfolding cs(1) take_map [symmetric] by (rule sorted_wrt_take)
  have len: "int (length cs) \<le> m" using cs by simp
  have mem: "\<forall>t \<in> set cs. t \<in> set (tasks d) \<and> t_status t = TS_BACKLOG \<and>
        t_type t \<in> set (supported st) \<and> t_id t \<notin> set excl"
    using find_candidates_subset [OF assms(2)] by (auto simp: eligible_def)
  have compl: "int (length cs) = m \<and> (\<forall>u \<in> set cs. candidate_key u \<le> candidate_key t)"
    if t: "t \<in> set (tasks d)" "eligible st excl t" "t \<notin> set cs" for t
  proof -
    have "t \<in> set ?all" using t by simp
    then have "t \<in> set (take (nat m) ?all @ drop (nat m) ?all)" by (simp only: append_take_drop_id)
    with t(3) have dr: "t \<in> set (drop (nat m) ?all)" unfolding cs(1) set_append by blast
    then have "nat m < length ?all" by (metis drop_all empty_iff list.set(1) not_le)
    then have "int (length cs) = m" using cs by simp
    moreover have "candidate_key u \<le> candidate_key t" if "u \<in> set cs" for u
    proof -
      have "sorted (map candidate_key (take (nat m) ?all) @ map candidate_key (drop (nat m) ?all))"
        using srt by (simp only: map_append [symmetric] append_take_drop_id)
      with that dr show ?thesis unfolding cs(1) sorted_append by auto
    qed
    ultimately show ?thesis by blast
  qed
  show ?thesis using len find_candidates_distinct [OF assms] s mem compl by blast
qed

theorem candidates_sound_and_complete_witness:
  "\<exists>cs. find_candidates 1 None [] sample_db = Inr cs \<and> map t_task_number cs = [1] \<and>
     sorted (map candidate_key cs)"
proof -
  obtain cs where cs: "find_candidates 1 None [] sample_db = Inr cs"
    by (simp add: find_candidates_def)
  have "map t_task_number (projr (find_candidates 1 None [] sample_db)) = [1]" by code_simp
  then show ?thesis using candidates_sound_and_complete [OF sample_db_wf cs] cs by auto
qed

text \<open>
  Determinism. Task numbers being unique, two databases with the same tasks give the
  same candidates in the same order, whatever order the database stores the rows in.
\<close>

theorem candidates_deterministic:
  assumes "mset (tasks d) = mset (tasks d')" and "distinct (map t_task_number (tasks d))"
  shows "find_candidates m st excl d = find_candidates m st excl d'"
proof -
  let ?f = "filter (eligible st excl)"
  have "mset (?f (tasks d)) = mset (?f (tasks d'))" using assms(1) by (simp add: mset_filter)
  moreover have "inj_on candidate_key (set (?f (tasks d)))"
  proof (rule inj_onI)
    fix t u assume "t \<in> set (?f (tasks d))" "u \<in> set (?f (tasks d))" "candidate_key t = candidate_key u"
    with assms(2) show "t = u" by (auto simp: distinct_map inj_on_def dest: candidate_key_number)
  qed
  ultimately have "sort_key candidate_key (?f (tasks d)) = sort_key candidate_key (?f (tasks d'))"
    by (rule sort_key_permutation)
  then show ?thesis by (simp only: find_candidates_def)
qed

theorem candidates_deterministic_witness:
  "find_candidates 5 None [] sample_db =
   find_candidates 5 None [] (sample_db\<lparr>tasks := rev (tasks sample_db)\<rparr>)"
  by (rule candidates_deterministic) (simp_all add: sample_db_def sample_task_def)

text \<open>The count of pending tasks is only an emptiness test, whatever the backlog holds.\<close>

lemma count_pending_at_most_one: "count_pending sample_db = 1 \<and>
   length (filter (\<lambda>t. t_status t = TS_BACKLOG) (tasks sample_db)) = 2"
  by code_simp

text \<open>Requirement tasks are never candidates of the default configuration.\<close>

lemma requirement_not_candidate: "t_type t = ''requirement'' \<Longrightarrow> \<not> eligible None excl t"
  by (simp add: eligible_def supported_def default_supported_types_def)

end
