(* ===== verification/Orchestrator_Recovery.thy ===== *)
theory Orchestrator_Recovery
  imports Locking
begin

text \<open>
  \<open>orchestrator/recovery.py\<close> with the error types of \<open>orchestrator/models.py\<close>: the keyword
  classification of preparation errors and the recovery of tasks that stay in \<open>queued\<close> too
  long. The clock reading is an argument.
\<close>

section \<open>PreparationErrorClassifier\<close>

datatype preparation_error_type = RECOVERABLE | CONFLICT | NON_RECOVERABLE

fun preparation_error_type_value :: "preparation_error_type \<Rightarrow> string" where
  "preparation_error_type_value RECOVERABLE = ''recoverable''"
| "preparation_error_type_value CONFLICT = ''conflict''"
| "preparation_error_type_value NON_RECOVERABLE = ''non_recoverable''"

definition RECOVERABLE_PATTERNS :: "string list" where
  "RECOVERABLE_PATTERNS = [''timeout'', ''temporary'', ''connection'', ''network'', ''lock'',
     ''resource temporarily unavailable'']"

definition CONFLICT_PATTERNS :: "string list" where
  "CONFLICT_PATTERNS = [''branch already exists'', ''worktree already exists'', ''dirty'',
     ''conflict'', ''blocked'']"

definition NON_RECOVERABLE_PATTERNS :: "string list" where
  "NON_RECOVERABLE_PATTERNS = [''invalid'', ''not found'', ''permission denied'', ''security'',
     ''validation failed'', ''malformed'']"

definition classify_preparation_error :: "string \<Rightarrow> preparation_error_type" where
  "classify_preparation_error msg =
     (let m = lower msg in
      if any_in NON_RECOVERABLE_PATTERNS m then NON_RECOVERABLE
      else if any_in CONFLICT_PATTERNS m then CONFLICT
      else if any_in RECOVERABLE_PATTERNS m then RECOVERABLE
      else RECOVERABLE)"

interpretation prep_errors: keyword_classifier classify_preparation_error
  "[(NON_RECOVERABLE_PATTERNS, NON_RECOVERABLE), (CONFLICT_PATTERNS, CONFLICT),
    (RECOVERABLE_PATTERNS, RECOVERABLE)]" RECOVERABLE
  by unfold_locales (simp add: classify_preparation_error_def Let_def)

section \<open>StaleQueuedRecovery\<close>

text \<open>\<open>Task.queued_at <= threshold\<close> is not true for NULL.\<close>

definition is_stale_queued :: "datetime \<Rightarrow> int \<Rightarrow> string option \<Rightarrow> task \<Rightarrow> bool" where
  "is_stale_queued now timeout_minutes worker t =
     (t_status t = TS_QUEUED \<and>
      (case t_queued_at t of None \<Rightarrow> False
        | Some q \<Rightarrow> q \<le> now - microseconds (timeout_minutes * 60)) \<and>
      (str_truthy worker \<longrightarrow> t_locked_by t = worker))"

definition find_stale_tasks :: "datetime \<Rightarrow> int \<Rightarrow> string option \<Rightarrow> db \<Rightarrow> task list" where
  "find_stale_tasks now timeout_minutes worker d =
     filter (is_stale_queued now timeout_minutes worker) (tasks d)"

definition recover_task :: "int \<Rightarrow> task \<Rightarrow> string option \<Rightarrow> task_status \<times> string" where
  "recover_task max_attempts t last_error =
     (let ety = (if str_truthy last_error then classify_preparation_error (the last_error)
                 else RECOVERABLE)
      in if t_preparation_attempt_count t \<ge> max_attempts then (TS_FAILED, ''Retry exhaustion'')
         else if ety = NON_RECOVERABLE then (TS_FAILED, ''Non-recoverable error'')
         else if ety = CONFLICT then (TS_BACKLOG, ''Conflict - retry allowed'')
         else (TS_BACKLOG, ''Recoverable error''))"

definition apply_recovery :: "datetime \<Rightarrow> task_status \<Rightarrow> task \<Rightarrow> task" where
  "apply_recovery now st t =
     (let t' = t\<lparr>t_status := st, t_queued_at := None, t_locked_by := None\<rparr>;
          t'' = (if st = TS_BACKLOG
                 then t'\<lparr>t_preparation_attempt_count := 0, t_last_preparation_error := None\<rparr> else t')
      in t''\<lparr>t_updated_at := now\<rparr>)"

definition recover_step ::
    "datetime \<Rightarrow> int \<Rightarrow> task \<Rightarrow> session \<times> (uuid \<times> task_status \<times> string) list \<Rightarrow>
     session \<times> (uuid \<times> task_status \<times> string) list" where
  "recover_step now max_attempts t acc =
     (case acc of (s, rs) \<Rightarrow>
       (case recover_task max_attempts t (t_last_preparation_error t) of (st, why) \<Rightarrow>
         (modify (put_task (t_id t) (apply_recovery now st)) s, rs @ [(t_id t, st, why)])))"

definition run_recovery_cycle ::
    "int \<Rightarrow> int \<Rightarrow> datetime \<Rightarrow> string option \<Rightarrow> session \<Rightarrow>
     (uuid \<times> task_status \<times> string) list \<times> session" where
  "run_recovery_cycle timeout_minutes max_attempts now worker s =
     (case fold (recover_step now max_attempts)
             (find_stale_tasks now timeout_minutes worker (working s)) (s, []) of
        (s', rs) \<Rightarrow> (rs, commit s'))"

section \<open>Lemmas\<close>

lemma recover_task_status: "fst (recover_task m t e) \<in> {TS_FAILED, TS_BACKLOG}"
  by (simp add: recover_task_def Let_def)

lemma apply_recovery_fields [simp]:
  "t_id (apply_recovery now st t) = t_id t" "t_status (apply_recovery now st t) = st"
  "t_locked_by (apply_recovery now st t) = None" "t_queued_at (apply_recovery now st t) = None"
  by (simp_all add: apply_recovery_def Let_def)

lemma recover_step_eq:
  "recover_step now m t (s, rs) =
    (modify (put_task (t_id t) (apply_recovery now (fst (recover_task m t (t_last_preparation_error t))))) s,
     rs @ [(t_id t, recover_task m t (t_last_preparation_error t))])"
  by (simp add: recover_step_def split: prod.splits)

text \<open>The recovered row, a function of the row the cycle found.\<close>

definition recovered :: "datetime \<Rightarrow> int \<Rightarrow> task \<Rightarrow> task" where
  "recovered now m t = apply_recovery now (fst (recover_task m t (t_last_preparation_error t))) t"

lemma fold_recover_step:
  assumes "distinct (map t_id ts)"
  shows "get_task (working (fst (fold (recover_step now m) ts (s, rs)))) i =
     (case find (\<lambda>t. t_id t = i) ts of
        Some t \<Rightarrow> map_option (apply_recovery now (fst (recover_task m t (t_last_preparation_error t))))
          (get_task (working s) i)
      | None \<Rightarrow> get_task (working s) i) \<and>
   snd (fold (recover_step now m) ts (s, rs)) =
     rs @ map (\<lambda>t. (t_id t, recover_task m t (t_last_preparation_error t))) ts"
  using assms
proof (induction ts arbitrary: s rs)
  case (Cons t ts)
  have nf: "find (\<lambda>u. t_id u = t_id t) ts = None"
  proof -
    have "t_id t \<notin> t_id ` set ts" using Cons.prems by simp
    then show ?thesis unfolding find_None_iff by (metis image_eqI)
  qed
  have put: "get_task (put_task (t_id t) (apply_recovery now st) d) j =
      (if t_id t = j then map_option (apply_recovery now st) (get_task d j) else get_task d j)" for st d j
    by (rule get_task_put) simp
  show ?case using Cons nf by (auto simp: recover_step_eq put split: option.splits)
qed simp

lemma find_filter_unique:
  "distinct (map f xs) \<Longrightarrow> find (\<lambda>x. f x = i) (filter P xs) =
     (case find (\<lambda>x. f x = i) xs of Some x \<Rightarrow> if P x then Some x else None | None \<Rightarrow> None)"
proof (induction xs)
  case (Cons x xs)
  show ?case
  proof (cases "f x = i")
    case True
    with Cons.prems have "\<forall>y \<in> set xs. f y \<noteq> i" by (auto simp: image_iff)
    then have "find (\<lambda>y. f y = i) (filter P xs) = None" by (simp add: find_None_iff)
    with True show ?thesis by simp
  next
    case False
    with Cons show ?thesis by simp
  qed
qed simp

lemma run_recovery_cycle_rows:
  assumes "wf_db (working s)" "run_recovery_cycle tm m now w s = (rs, s')"
  shows "get_task (committed s') i =
      map_option (\<lambda>t. if is_stale_queued now tm w t then recovered now m t else t) (get_task (working s) i)"
    and "rs = map (\<lambda>t. (t_id t, recover_task m t (t_last_preparation_error t)))
      (find_stale_tasks now tm w (working s))"
proof -
  let ?ts = "find_stale_tasks now tm w (working s)"
  have d: "distinct (map t_id ?ts)"
    unfolding find_stale_tasks_def by (rule distinct_map_filter) (rule wf_db_ids [OF assms(1)])
  have f: "find (\<lambda>t. t_id t = i) ?ts = (case get_task (working s) i of
      Some t \<Rightarrow> if is_stale_queued now tm w t then Some t else None | None \<Rightarrow> None)"
    unfolding find_stale_tasks_def get_task_def
    by (rule find_filter_unique) (rule wf_db_ids [OF assms(1)])
  have r: "committed s' = working (fst (fold (recover_step now m) ?ts (s, [])))"
    "rs = snd (fold (recover_step now m) ?ts (s, []))"
    using assms(2) by (auto simp: run_recovery_cycle_def split: prod.splits)
  show "get_task (committed s') i =
      map_option (\<lambda>t. if is_stale_queued now tm w t then recovered now m t else t) (get_task (working s) i)"
    using fold_recover_step [OF d, of now m s "[]" i] f
    by (cases "get_task (working s) i") (auto simp: r recovered_def split: if_splits)
  show "rs = map (\<lambda>t. (t_id t, recover_task m t (t_last_preparation_error t))) ?ts"
    using fold_recover_step [OF d, of now m s "[]"] by (simp add: r)
qed

lemma wf_db_recovery_cycle [inv_intros]:
  assumes "wf_db (working s)" "run_recovery_cycle tm m now w s = (rs, s')"
  shows "wf_db (committed s')"
proof -
  have "wf_db (working (fst (fold (recover_step now m) ts (s, rs))))" if "wf_db (working s)" for ts s rs
    using that
  proof (induction ts arbitrary: s rs)
    case (Cons t ts)
    then show ?case by (simp add: recover_step_eq wf_db_put_task)
  qed simp
  then show ?thesis using assms by (auto simp: run_recovery_cycle_def split: prod.splits) (metis fst_conv)
qed

section \<open>Properties\<close>

text \<open>
  Preparation errors. Classification does not depend on letter case; a non-recoverable
  keyword outranks a conflict keyword, which outranks the rest, and a message with no
  keyword is recoverable: the type is never worse than its keywords say.
\<close>

theorem preparation_error_priority:
  "(classify_preparation_error msg = NON_RECOVERABLE \<longleftrightarrow>
      any_in NON_RECOVERABLE_PATTERNS (lower msg)) \<and>
   (classify_preparation_error msg = CONFLICT \<longleftrightarrow>
      \<not> any_in NON_RECOVERABLE_PATTERNS (lower msg) \<and> any_in CONFLICT_PATTERNS (lower msg)) \<and>
   (lower msg = lower msg' \<longrightarrow> classify_preparation_error msg = classify_preparation_error msg')"
  using prep_errors.classify_case_insensitive [of msg msg']
  by (auto simp: classify_preparation_error_def Let_def)

text \<open>The sentence with a typical lock error is a conflict only by its other keywords.\<close>

theorem preparation_error_priority_witness:
  "classify_preparation_error ''Branch BLOCKED'' = classify_preparation_error ''branch blocked''"
proof -
  have l: "lower ''Branch BLOCKED'' = lower ''branch blocked''" by code_simp
  from preparation_error_priority [of "''Branch BLOCKED''" "''branch blocked''"]
  show ?thesis using l by blast
qed

text \<open>
  C30: Stale recovery. One cycle commits, for every task queued for longer than the timeout
  (of the named worker if one is given), the transition to failed when its attempts are
  exhausted or its last error is non-recoverable and to backlog otherwise, with the lock
  cleared; it changes no other row, and it leaves nothing stale.
\<close>

theorem stale_recovery_cycle:
  assumes "wf_db (working s)" and "run_recovery_cycle tm m now w s = (rs, s')"
  shows "(\<forall>i. case get_task (working s) i of
      None \<Rightarrow> get_task (committed s') i = None
    | Some t \<Rightarrow>
        if is_stale_queued now tm w t
        then (\<exists>t'. get_task (committed s') i = Some t' \<and> t_locked_by t' = None \<and>
          t_status t' =
            (if t_preparation_attempt_count t \<ge> m then TS_FAILED
             else if str_truthy (t_last_preparation_error t) \<and>
               classify_preparation_error (the (t_last_preparation_error t)) = NON_RECOVERABLE
               then TS_FAILED
             else TS_BACKLOG))
        else get_task (committed s') i = Some t) \<and>
    find_stale_tasks now tm w (committed s') = []"
proof -
  note rows = run_recovery_cycle_rows(1) [OF assms]
  have wf: "wf_db (committed s')" by (rule wf_db_recovery_cycle [OF assms])
  have "\<not> is_stale_queued now tm w t'" if "t' \<in> set (tasks (committed s'))" for t'
  proof -
    have "get_task (committed s') (t_id t') = Some t'" by (rule get_task_mem [OF wf_db_ids [OF wf] that])
    then obtain t where "t' = (if is_stale_queued now tm w t then recovered now m t else t)"
      using rows [of "t_id t'"] by auto
    then show ?thesis using recover_task_status [of m t "t_last_preparation_error t"]
      by (auto simp: is_stale_queued_def recovered_def)
  qed
  then have n: "find_stale_tasks now tm w (committed s') = []"
    by (simp add: find_stale_tasks_def filter_empty_conv)
  have "t_status (recovered now m t) = (if t_preparation_attempt_count t \<ge> m then TS_FAILED
             else if str_truthy (t_last_preparation_error t) \<and>
               classify_preparation_error (the (t_last_preparation_error t)) = NON_RECOVERABLE
               then TS_FAILED
             else TS_BACKLOG)" "t_locked_by (recovered now m t) = None" for t
    by (simp_all add: recovered_def recover_task_def Let_def)
  then show ?thesis using n by (auto simp: rows split: option.split)
qed

theorem stale_recovery_cycle_witness:
  "let d = sample_db\<lparr>tasks := [(sample_task 3 3 TS_QUEUED)\<lparr>t_queued_at := Some 0\<rparr>]\<rparr>;
       (rs, s') = run_recovery_cycle 30 3 (microseconds 1800) None (open_session d) in
     rs = [(3, TS_BACKLOG, ''Recoverable error'')] \<and>
     find_stale_tasks (microseconds 1800) 30 None (committed s') = []"
proof -
  let ?d = "sample_db\<lparr>tasks := [(sample_task 3 3 TS_QUEUED)\<lparr>t_queued_at := Some 0\<rparr>]\<rparr>"
  let ?r = "run_recovery_cycle 30 3 (microseconds 1800) None (open_session ?d)"
  have "wf_db (working (open_session ?d))"
    by (simp add: wf_db_def sample_db_def unique_active_def active_for_def events_unique_def)
  from stale_recovery_cycle [OF this, of 30 3 "microseconds 1800" None "fst ?r" "snd ?r"]
  have "find_stale_tasks (microseconds 1800) 30 None (committed (snd ?r)) = []" by simp
  moreover have "fst ?r = [(3, TS_BACKLOG, ''Recoverable error'')]" by code_simp
  ultimately show ?thesis by (simp add: split_beta Let_def)
qed

end
