(* ===== verification/Context_Contract.thy ===== *)
theory Context_Contract
  imports Orchestrator_Recovery
begin

text \<open>
  \<open>orchestrator/context_contract.py\<close> with the DTOs \<open>PreparedExecutionContext\<close> and
  \<open>PreparationError\<close> of \<open>orchestrator/models.py\<close>: the versioned context that the
  preparation hands to a runner, its construction, validation and serialisation. The
  rendering of a time stamp (\<open>isoformat\<close>) is an argument of the serialisation.
\<close>

section \<open>Data\<close>

record preparation_error =
  pe_type :: preparation_error_type
  pe_message :: string
  pe_task_id :: uuid

definition pe_is_recoverable :: "preparation_error \<Rightarrow> bool" where
  "pe_is_recoverable e = (pe_type e = RECOVERABLE)"

definition pe_is_conflict :: "preparation_error \<Rightarrow> bool" where
  "pe_is_conflict e = (pe_type e = CONFLICT)"

definition pe_is_non_recoverable :: "preparation_error \<Rightarrow> bool" where
  "pe_is_non_recoverable e = (pe_type e = NON_RECOVERABLE)"

text \<open>What a preparation step raises: a \<open>PreparationError\<close> or any other exception.\<close>

datatype prep_exn = PrepErr preparation_error | OtherExc string

record prepared_context =
  x_version :: string
  x_task_id :: "uuid option"
  x_task_number :: "int option"
  x_task_type :: "string option"
  x_requires_write_access :: bool
  x_parallelization_mode :: json
  x_runner_mode :: runner_mode
  x_base_repo_path :: "string option"
  x_branch_name :: "string option"
  x_worktree_path :: "string option"
  x_commit_sha_before :: "string option"
  x_correlation_id :: "string option"
  x_batch_id :: "string option"
  x_prepared_at :: datetime

definition json_opt :: "string option \<Rightarrow> json" where
  "json_opt x = (case x of None \<Rightarrow> JNull | Some s \<Rightarrow> JStr s)"

definition context_to_dict :: "(datetime \<Rightarrow> string) \<Rightarrow> prepared_context \<Rightarrow> (string \<times> json) list" where
  "context_to_dict isofmt x =
     [(''version'', JStr (x_version x)),
      (''task_id'', case x_task_id x of None \<Rightarrow> JNull | Some i \<Rightarrow> JStr (uuid_str i)),
      (''task_number'', case x_task_number x of None \<Rightarrow> JNull | Some n \<Rightarrow> JInt n),
      (''task_type'', json_opt (x_task_type x)),
      (''requires_write_access'', JBool (x_requires_write_access x)),
      (''parallelization_mode'', x_parallelization_mode x),
      (''runner_mode'', JStr (runner_mode_value (x_runner_mode x))),
      (''base_repo_path'', json_opt (x_base_repo_path x)),
      (''branch_name'', json_opt (x_branch_name x)),
      (''worktree_path'', json_opt (x_worktree_path x)),
      (''commit_sha_before'', json_opt (x_commit_sha_before x)),
      (''correlation_id'', json_opt (x_correlation_id x)),
      (''batch_id'', json_opt (x_batch_id x)),
      (''prepared_at'', JStr (isofmt (x_prepared_at x)))]"

definition write_mode_errors :: "prepared_context \<Rightarrow> string list" where
  "write_mode_errors x =
     (if x_runner_mode x = WRITE then
        (if \<not> str_truthy (x_branch_name x) then [''WRITE mode requires branch_name''] else []) @
        (if \<not> str_truthy (x_worktree_path x) then [''WRITE mode requires worktree_path''] else []) @
        (if \<not> str_truthy (x_commit_sha_before x) then [''WRITE mode requires commit_sha_before''] else [])
      else [])"

text \<open>\<open>PreparedExecutionContext.validate\<close>.\<close>

definition context_self_errors :: "prepared_context \<Rightarrow> string list" where
  "context_self_errors x = write_mode_errors x @
     (if \<not> str_truthy (x_base_repo_path x) then [''base_repo_path is required''] else [])"

section \<open>PreparedContextBuilder\<close>

definition CONTEXT_VERSION :: string where
  "CONTEXT_VERSION = ''v1''"

definition SECRET_FIELDS :: "string list" where
  "SECRET_FIELDS = [''api_key'', ''secret'', ''token'', ''password'', ''credential'', ''private_key'']"

definition sanitize_details :: "(string \<times> json) list option \<Rightarrow> (string \<times> json) list" where
  "sanitize_details details = (case details of None \<Rightarrow> []
     | Some d \<Rightarrow> filter (\<lambda>(k, v). \<not> any_in SECRET_FIELDS (lower k)) d)"

definition mode_of :: "(string \<times> json) list \<Rightarrow> string \<Rightarrow> json" where
  "mode_of details dflt =
     (if details = [] then JStr dflt else dict_get details ''parallelization_mode'' (JStr dflt))"

definition build_read_only_context ::
    "string \<Rightarrow> datetime \<Rightarrow> uuid \<Rightarrow> int \<Rightarrow> string \<Rightarrow> string option \<Rightarrow> string option \<Rightarrow>
     (string \<times> json) list \<Rightarrow> prepared_context" where
  "build_read_only_context base now i n ty batch corr details =
     \<lparr>x_version = CONTEXT_VERSION, x_task_id = Some i, x_task_number = Some n,
      x_task_type = Some ty, x_requires_write_access = False,
      x_parallelization_mode = mode_of details ''parallel'', x_runner_mode = READ_ONLY,
      x_base_repo_path = Some base, x_branch_name = None, x_worktree_path = None,
      x_commit_sha_before = None, x_correlation_id = corr, x_batch_id = batch,
      x_prepared_at = now\<rparr>"

definition build_write_context ::
    "string \<Rightarrow> datetime \<Rightarrow> uuid \<Rightarrow> int \<Rightarrow> string \<Rightarrow> string \<Rightarrow> string \<Rightarrow> string \<Rightarrow> string option \<Rightarrow>
     string option \<Rightarrow> (string \<times> json) list \<Rightarrow> prepared_context" where
  "build_write_context base now i n ty branch worktree sha batch corr details =
     \<lparr>x_version = CONTEXT_VERSION, x_task_id = Some i, x_task_number = Some n,
      x_task_type = Some ty, x_requires_write_access = True,
      x_parallelization_mode = mode_of details ''sequential'', x_runner_mode = WRITE,
      x_base_repo_path = Some base, x_branch_name = Some branch, x_worktree_path = Some worktree,
      x_commit_sha_before = Some sha, x_correlation_id = corr, x_batch_id = batch,
      x_prepared_at = now\<rparr>"

text \<open>The scan for secrets only logs, so it does not contribute to the result.\<close>

definition validate_context :: "prepared_context \<Rightarrow> string list" where
  "validate_context x =
     (if x_version x \<noteq> CONTEXT_VERSION
        then [''Unsupported context version: '' @ x_version x] else []) @
     (if x_task_id x = None then [''task_id is required''] else []) @
     (if x_task_number x \<in> {None, Some 0} then [''task_number is required''] else []) @
     (if \<not> str_truthy (x_task_type x) then [''task_type is required''] else []) @
     (if \<not> str_truthy (x_base_repo_path x) then [''base_repo_path is required''] else []) @
     write_mode_errors x"

definition build_context ::
    "string \<Rightarrow> datetime \<Rightarrow> uuid \<Rightarrow> int \<Rightarrow> string \<Rightarrow> json \<Rightarrow> string option \<Rightarrow> string option \<Rightarrow>
     string option \<Rightarrow> string option \<Rightarrow> string option \<Rightarrow> (string \<times> json) list \<Rightarrow>
     prep_exn + prepared_context" where
  "build_context base now i n ty requires_write branch worktree sha batch corr details =
     (if truthy requires_write then
        (if \<not> str_truthy branch \<or> \<not> str_truthy worktree \<or> \<not> str_truthy sha
         then Inl (PrepErr \<lparr>pe_type = NON_RECOVERABLE,
           pe_message = ''WRITE mode requires branch_name, worktree_path, and commit_sha_before'',
           pe_task_id = i\<rparr>)
         else Inr (build_write_context base now i n ty (the branch) (the worktree) (the sha)
           batch corr details))
      else Inr (build_read_only_context base now i n ty batch corr details))"

section \<open>Properties\<close>

text \<open>
  Context contract. Building fails, non-recoverably and for this task, exactly when
  write access is required and a git datum is missing or empty; a context that is built is
  in write mode exactly when write access is required, carries the git data only then, and
  passes validation exactly when task number, type and repository path are non-empty.
\<close>

theorem build_context_contract:
  "case build_context base now i n ty rw branch worktree sha batch corr details of
     Inl e \<Rightarrow> truthy rw \<and> (\<not> str_truthy branch \<or> \<not> str_truthy worktree \<or> \<not> str_truthy sha) \<and>
       (\<exists>m. e = PrepErr \<lparr>pe_type = NON_RECOVERABLE, pe_message = m, pe_task_id = i\<rparr>)
   | Inr x \<Rightarrow> (x_runner_mode x = WRITE) = truthy rw \<and>
       (if truthy rw
        then x_branch_name x = branch \<and> x_worktree_path x = worktree \<and> x_commit_sha_before x = sha
        else x_branch_name x = None \<and> x_worktree_path x = None \<and> x_commit_sha_before x = None) \<and>
       (validate_context x = [] \<longleftrightarrow> n \<noteq> 0 \<and> ty \<noteq> [] \<and> base \<noteq> []) \<and>
       (context_self_errors x = [] \<longleftrightarrow> base \<noteq> [])"
  by (auto simp: build_context_def build_write_context_def build_read_only_context_def
      validate_context_def write_mode_errors_def context_self_errors_def str_truthy_iff
      split: if_splits)

theorem build_context_contract_witness:
  "case build_context ''/r'' 0 1 7 ''execution'' (JBool True) (Some ''b'') (Some ''/w'') (Some ''c'') None None [] of
     Inl e \<Rightarrow> False
   | Inr x \<Rightarrow> x_runner_mode x = WRITE \<and> x_branch_name x = Some ''b'' \<and> validate_context x = []"
  using build_context_contract [where base = "''/r''" and now = 0 and i = 1 and n = 7 and ty = "''execution''"
      and rw = "JBool True" and branch = "Some ''b''" and worktree = "Some ''/w''" and sha = "Some ''c''"
      and batch = None and corr = None and details = "[]"]
  by (simp split: sum.splits)

text \<open>
  Sanitised details. What remains are the entries of the details, in order, whose key
  has none of the secret words in any letter case; nothing else is dropped, and sanitising
  twice is sanitising once.
\<close>

theorem sanitize_details_spec:
  "set (sanitize_details (Some d)) = {(k, v) \<in> set d. \<forall>w \<in> set SECRET_FIELDS. \<not> str_in w (lower k)} \<and>
   subseq (sanitize_details (Some d)) d \<and>
   sanitize_details (Some (sanitize_details (Some d))) = sanitize_details (Some d)"
  by (auto simp: sanitize_details_def any_in_def subseq_filter_left)

theorem sanitize_details_spec_witness:
  "sanitize_details (Some [(''Api_Key'', JStr ''x''), (''branch'', JStr ''y'')]) = [(''branch'', JStr ''y'')]
   \<and> subseq (sanitize_details (Some [(''Api_Key'', JStr ''x''), (''branch'', JStr ''y'')]))
       [(''Api_Key'', JStr ''x''), (''branch'', JStr ''y'')]"
proof -
  let ?d = "[(''Api_Key'', JStr ''x''), (''branch'', JStr ''y'')]"
  have "sanitize_details (Some ?d) = [(''branch'', JStr ''y'')]" by code_simp
  then show ?thesis using sanitize_details_spec [of ?d] by blast
qed

text \<open>
  The value of \<open>parallelization_mode\<close> is copied into the context unchecked, although the
  classifier treats an unknown one as sequential.
\<close>

lemma context_keeps_unknown_mode:
  "mode_of [(''parallelization_mode'', JStr ''x'')] ''parallel'' = JStr ''x'' \<and>
   fst (parallel_decision [(''parallelization_mode'', JStr ''x'')]) = ''sequential''"
  by (simp add: mode_of_def dict_get_def parallel_decision_def Let_def)

end
