(* ===== verification/Git_Context.thy ===== *)
theory Git_Context
  imports Context_Contract
begin

text \<open>
  \<open>orchestrator/git_context.py\<close>: branch and worktree preparation for write tasks. Git, the
  file system and path resolution are not part of the program: they are the fields of
  \<open>git_env\<close>, functions of an arbitrary world that a command may change. Nothing is assumed
  about them except where a lemma says so.
\<close>

section \<open>The environment\<close>

text \<open>
  A command exits with status 0 and its output, exits with another status, runs into the
  timeout, or cannot be started (for instance because git is not installed).
\<close>

datatype git_result = GitOk string | GitExit int string string | GitTimeout | GitRaise string

record 'g git_env =
  ge_run :: "string list \<Rightarrow> string \<Rightarrow> 'g \<Rightarrow> git_result \<times> 'g"
  ge_exists :: "string \<Rightarrow> 'g \<Rightarrow> bool"
  ge_resolve :: "string \<Rightarrow> 'g \<Rightarrow> string option"

record git_config =
  gc_worktree_root :: string
  gc_base_repo_path :: string

record git_context =
  gx_branch_name :: string
  gx_worktree_path :: string
  gx_commit_sha_before :: string
  gx_created :: bool

type_synonym ('a, 'g) git_step = "(prep_exn + 'a) \<times> 'g"

text \<open>Sequencing: an exception skips the rest. \<open>on_prep_error\<close> is \<open>except PreparationError\<close>.\<close>

definition git_then :: "('a, 'g) git_step \<Rightarrow> ('a \<Rightarrow> 'g \<Rightarrow> ('b, 'g) git_step) \<Rightarrow> ('b, 'g) git_step" where
  "git_then m k = (case m of (Inl e, g) \<Rightarrow> (Inl e, g) | (Inr a, g) \<Rightarrow> k a g)"

definition on_prep_error ::
    "('a, 'g) git_step \<Rightarrow> (preparation_error \<Rightarrow> 'g \<Rightarrow> ('a, 'g) git_step) \<Rightarrow> ('a, 'g) git_step" where
  "on_prep_error m h = (case m of (Inl (PrepErr e), g) \<Rightarrow> h e g | _ \<Rightarrow> m)"

lemma git_then_simps [simp]:
  "git_then (Inl e, g) k = (Inl e, g)" "git_then (Inr a, g) k = k a g"
  by (simp_all add: git_then_def)

lemma on_prep_error_simps [simp]:
  "on_prep_error (Inr a, g) h = (Inr a, g)" "on_prep_error (Inl (PrepErr e), g) h = h e g"
  "on_prep_error (Inl (OtherExc s), g) h = (Inl (OtherExc s), g)"
  by (simp_all add: on_prep_error_def)

section \<open>GitContextPreparer\<close>

definition run_git_command ::
    "'g git_env \<Rightarrow> string list \<Rightarrow> string \<Rightarrow> bool \<Rightarrow> 'g \<Rightarrow> (string, 'g) git_step" where
  "run_git_command E args cwd check g =
     (let cmd = join_with '' '' (''git'' # args) in
      case ge_run E args cwd g of
        (GitOk out, g') \<Rightarrow> (Inr out, g')
      | (GitExit rc out err, g') \<Rightarrow>
          (if check then (Inl (PrepErr \<lparr>pe_type = NON_RECOVERABLE,
             pe_message = ''Git command failed: '' @ cmd, pe_task_id = 0\<rparr>), g')
           else (Inr out, g'))
      | (GitTimeout, g') \<Rightarrow> (Inl (PrepErr \<lparr>pe_type = RECOVERABLE,
             pe_message = ''Git command timed out: '' @ cmd, pe_task_id = 0\<rparr>), g')
      | (GitRaise e, g') \<Rightarrow> (Inl (OtherExc e), g'))"

text \<open>\<open>re.match('^[a-zA-Z0-9_\<setminus>-/]+$', name)\<close>: the dollar also matches before a final newline.\<close>

definition ref_char :: "char \<Rightarrow> bool" where
  "ref_char c = (let n = (of_char c :: nat) in
     (97 \<le> n \<and> n \<le> 122) \<or> (65 \<le> n \<and> n \<le> 90) \<or> (48 \<le> n \<and> n \<le> 57) \<or>
     c = CHR ''_'' \<or> c = CHR ''-'' \<or> c = CHR ''/'')"

definition valid_ref_pattern :: "string \<Rightarrow> bool" where
  "valid_ref_pattern s =
     (let b = (if s \<noteq> [] \<and> last s = CHR 0x0A then butlast s else s)
      in b \<noteq> [] \<and> list_all ref_char b)"

definition validate_ref_name :: "string \<Rightarrow> bool" where
  "validate_ref_name name =
     (if name = [] \<or> length name > 255 then False
      else if \<not> valid_ref_pattern name then False
      else if hd name = CHR ''/'' \<or> last name = CHR ''/'' then False
      else if str_in ''..'' name then False
      else True)"

definition validate_path_within_root :: "'g git_env \<Rightarrow> git_config \<Rightarrow> string \<Rightarrow> 'g \<Rightarrow> bool" where
  "validate_path_within_root E cfg path g =
     (case ge_resolve E path g of None \<Rightarrow> False | Some r \<Rightarrow> prefix (gc_worktree_root cfg) r)"

definition BRANCH_PREFIX :: string where
  "BRANCH_PREFIX = ''execqueue/task''"

definition generate_branch_name :: "int \<Rightarrow> uuid \<Rightarrow> string" where
  "generate_branch_name n i =
     (let b = BRANCH_PREFIX @ ''-'' @ int_str n @ ''-'' @ take 8 (uuid_hex i) in
      if \<not> validate_ref_name b then BRANCH_PREFIX @ ''-'' @ int_str n else b)"

definition get_current_commit :: "'g git_env \<Rightarrow> git_config \<Rightarrow> 'g \<Rightarrow> (string, 'g) git_step" where
  "get_current_commit E cfg g =
     git_then (run_git_command E [''rev-parse'', ''HEAD''] (gc_base_repo_path cfg) True g)
       (\<lambda>out g. (Inr (strip out), g))"

definition branch_exists :: "'g git_env \<Rightarrow> git_config \<Rightarrow> string \<Rightarrow> 'g \<Rightarrow> (bool, 'g) git_step" where
  "branch_exists E cfg b g =
     on_prep_error
       (git_then (run_git_command E [''rev-parse'', ''--verify'', b] (gc_base_repo_path cfg) True g)
          (\<lambda>out g. (Inr True, g)))
       (\<lambda>e g. (Inr False, g))"

definition is_worktree_clean :: "'g git_env \<Rightarrow> string \<Rightarrow> 'g \<Rightarrow> (bool, 'g) git_step" where
  "is_worktree_clean E path g =
     on_prep_error
       (git_then (run_git_command E [''status'', ''--porcelain''] path False g)
          (\<lambda>out g. (Inr (strip out = []), g)))
       (\<lambda>e g. (Inr False, g))"

definition path_join :: "string \<Rightarrow> string \<Rightarrow> string" where
  "path_join r name = (if r \<noteq> [] \<and> last r = CHR ''/'' then r @ name else r @ ''/'' @ name)"

definition worktree_path_for :: "git_config \<Rightarrow> int \<Rightarrow> uuid \<Rightarrow> string" where
  "worktree_path_for cfg n i =
     path_join (gc_worktree_root cfg) (''task-'' @ int_str n @ ''-'' @ take 8 (uuid_hex i))"

text \<open>The steps of \<open>prepare_context\<close>, in the order of the code.\<close>

definition choose_branch :: "uuid \<Rightarrow> int \<Rightarrow> string option \<Rightarrow> prep_exn + string" where
  "choose_branch i n explicit_branch =
     (if str_truthy explicit_branch then
        (let b = the explicit_branch in
         if \<not> validate_ref_name b
         then Inl (PrepErr \<lparr>pe_type = NON_RECOVERABLE, pe_message = ''Invalid branch name: '' @ b,
                pe_task_id = i\<rparr>)
         else Inr b)
      else Inr (generate_branch_name n i))"

definition ensure_branch ::
    "'g git_env \<Rightarrow> git_config \<Rightarrow> uuid \<Rightarrow> string \<Rightarrow> 'g \<Rightarrow> (unit, 'g) git_step" where
  "ensure_branch E cfg i b g =
     git_then (branch_exists E cfg b g) (\<lambda>ex g.
       if ex then (Inr (), g)
       else on_prep_error
         (git_then (run_git_command E [''checkout'', ''-b'', b] (gc_base_repo_path cfg) True g)
            (\<lambda>_ g. (Inr (), g)))
         (\<lambda>_ g. on_prep_error
           (git_then (run_git_command E [''checkout'', b] (gc_base_repo_path cfg) True g)
              (\<lambda>_ g. (Inr (), g)))
           (\<lambda>_ g. (Inl (PrepErr \<lparr>pe_type = CONFLICT,
              pe_message = ''Cannot create or checkout branch '' @ b, pe_task_id = i\<rparr>), g))))"

definition reuse_worktree ::
    "'g git_env \<Rightarrow> uuid \<Rightarrow> string \<Rightarrow> bool \<Rightarrow> 'g \<Rightarrow> (bool, 'g) git_step" where
  "reuse_worktree E i path reuse_existing g =
     (if ge_exists E path g \<and> reuse_existing then
        git_then (is_worktree_clean E path g) (\<lambda>clean g.
          if clean then (Inr False, g)
          else (Inl (PrepErr \<lparr>pe_type = CONFLICT,
            pe_message = ''Worktree '' @ path @ '' exists but is dirty'', pe_task_id = i\<rparr>), g))
      else (Inr True, g))"

definition add_worktree ::
    "'g git_env \<Rightarrow> git_config \<Rightarrow> string \<Rightarrow> string \<Rightarrow> bool \<Rightarrow> 'g \<Rightarrow> (unit, 'g) git_step" where
  "add_worktree E cfg b path created g =
     (if created \<or> \<not> ge_exists E path g then
        on_prep_error
          (git_then (run_git_command E [''worktree'', ''add'', path, b] (gc_base_repo_path cfg) True g)
             (\<lambda>_ g. (Inr (), g)))
          (\<lambda>e g. if ge_exists E path g then (Inr (), g) else (Inl (PrepErr e), g))
      else (Inr (), g))"

definition prepare_git_context ::
    "'g git_env \<Rightarrow> git_config \<Rightarrow> uuid \<Rightarrow> int \<Rightarrow> string option \<Rightarrow> bool \<Rightarrow> 'g \<Rightarrow> (git_context, 'g) git_step" where
  "prepare_git_context E cfg i n explicit_branch reuse_existing g =
     git_then (choose_branch i n explicit_branch, g) (\<lambda>b g.
     git_then (ensure_branch E cfg i b g) (\<lambda>_ g.
     git_then (get_current_commit E cfg g) (\<lambda>sha g.
       (let path = worktree_path_for cfg n i in
        git_then (reuse_worktree E i path reuse_existing g) (\<lambda>created g.
        git_then (add_worktree E cfg b path created g) (\<lambda>_ g.
          if \<not> validate_path_within_root E cfg path g
          then (Inl (PrepErr \<lparr>pe_type = NON_RECOVERABLE,
             pe_message = ''Worktree path '' @ path @ '' is outside root '' @ gc_worktree_root cfg,
             pe_task_id = i\<rparr>), g)
          else (Inr \<lparr>gx_branch_name = b, gx_worktree_path = path, gx_commit_sha_before = sha,
             gx_created = created\<rparr>, g)))))))"

definition cleanup_worktree :: "'g git_env \<Rightarrow> git_config \<Rightarrow> string \<Rightarrow> 'g \<Rightarrow> (bool, 'g) git_step" where
  "cleanup_worktree E cfg path g =
     (if \<not> ge_exists E path g then (Inr True, g)
      else on_prep_error
        (git_then (run_git_command E [''worktree'', ''remove'', ''--force'', path]
             (gc_base_repo_path cfg) False g) (\<lambda>_ g. (Inr True, g)))
        (\<lambda>e g. (Inr False, g)))"

section \<open>Lemmas: names\<close>

lemma ref_char_digit: "is_digit c \<Longrightarrow> ref_char c"
  by (simp add: is_digit_def ref_char_def Let_def)

lemma ref_char_int_str: "list_all ref_char (int_str n)"
proof -
  have "list_all ref_char (nat_str m)" for m
    unfolding list_all_iff using ref_char_digit nat_str_digits by blast
  moreover have "ref_char (CHR ''-'')" by code_simp
  ultimately show ?thesis by (simp add: int_str_def)
qed

lemma ref_char_hex: "list_all ref_char (hex_str k m)"
proof (induction k arbitrary: m)
  case (Suc k)
  have "ref_char (digit_char (m mod 16))"
  proof (cases "m mod 16 < 10")
    case True
    then show ?thesis by (intro ref_char_digit is_digit_digit_char)
  next
    case False
    then have "97 \<le> 87 + m mod 16 \<and> 87 + m mod 16 \<le> 102" by simp
    then show ?thesis using False by (simp add: ref_char_def digit_char_def Let_def)
  qed
  with Suc show ?case by simp
qed simp

lemma ref_chars_no_dots: "list_all ref_char s \<Longrightarrow> \<not> str_in ''..'' s"
proof
  assume "list_all ref_char s" "str_in ''..'' s"
  then have "ref_char (CHR ''.'')" by (auto simp: str_in_iff)
  moreover have "\<not> ref_char (CHR ''.'')" by code_simp
  ultimately show False by simp
qed

lemma length_uuid_hex [simp]: "length (uuid_hex i) = 32"
  by (simp add: uuid_hex_def)

lemma ref_chars_take_hex: "list_all ref_char (take 8 (uuid_hex i))"
  using ref_char_hex [of 32 "unat i"] by (auto simp: uuid_hex_def list_all_iff dest: in_set_takeD)

lemma BRANCH_PREFIX_chars: "list_all ref_char (BRANCH_PREFIX @ ''-'')" "length BRANCH_PREFIX = 14"
  "hd BRANCH_PREFIX = CHR ''e''"
  by (code_simp | simp add: BRANCH_PREFIX_def)+

lemma valid_generated:
  assumes "length (int_str n) \<le> 231"
  shows "validate_ref_name (BRANCH_PREFIX @ ''-'' @ int_str n @ ''-'' @ take 8 (uuid_hex i))"
proof -
  let ?h = "take 8 (uuid_hex i)" let ?b = "BRANCH_PREFIX @ ''-'' @ int_str n @ ''-'' @ ?h"
  have m: "ref_char (CHR ''-'')" by code_simp
  then have chars: "list_all ref_char ?b"
    using BRANCH_PREFIX_chars(1) ref_char_int_str [of n] ref_chars_take_hex [of i] by simp
  have len: "length ?b \<le> 255" using assms BRANCH_PREFIX_chars(2) by simp
  have h: "?h \<noteq> []" by (metis length_uuid_hex list.size(3) take_eq_Nil zero_neq_numeral)
  then have l: "last ?b = last ?h" by simp
  have lh: "last ?h \<in> set ?h" using h by simp
  then obtain m where "last ?h \<in> set (hex_str 32 m)" by (auto simp: uuid_hex_def dest: in_set_takeD)
  moreover have "c \<notin> {CHR ''/'', CHR 0x0A}" if "c \<in> set (hex_str k m)" for c k m
    using that
  proof (induction k arbitrary: m)
    case (Suc k)
    have "list_all (\<lambda>d. digit_char d \<notin> {CHR ''/'', CHR 0x0A}) [0..<16]" by code_simp
    moreover have "m mod 16 \<in> set [0..<16]" by simp
    ultimately have "digit_char (m mod 16) \<notin> {CHR ''/'', CHR 0x0A}"
      unfolding list_all_iff by (rule bspec)
    with Suc show ?case by auto
  qed simp
  ultimately have nl: "last ?b \<noteq> CHR ''/''" "last ?b \<noteq> CHR 0x0A" using l by auto
  have "hd ?b \<noteq> CHR ''/''" by (simp add: BRANCH_PREFIX_def)
  then show ?thesis
    using chars len nl ref_chars_no_dots [OF chars]
    by (simp add: validate_ref_name_def valid_ref_pattern_def Let_def)
qed

section \<open>Lemmas: what a successful preparation means\<close>

lemma git_then_Inr:
  "git_then m k = (Inr c, h) \<Longrightarrow> \<exists>a g. m = (Inr a, g) \<and> k a g = (Inr c, h)"
  by (cases m; cases "fst m") (auto simp: git_then_def split: sum.splits)

lemma prepare_git_context_Inr:
  assumes "prepare_git_context E cfg i n xb reuse g = (Inr x, g')"
  shows "choose_branch i n xb = Inr (gx_branch_name x)"
    and "gx_worktree_path x = worktree_path_for cfg n i"
    and "validate_path_within_root E cfg (gx_worktree_path x) g'"
  using assms unfolding prepare_git_context_def
  by (auto dest!: git_then_Inr simp: Let_def split: if_splits)

lemma choose_branch_valid:
  assumes "choose_branch i n xb = Inr b" and "length (int_str n) \<le> 231"
  shows "validate_ref_name b"
    and "\<not> str_truthy xb \<Longrightarrow> b = BRANCH_PREFIX @ ''-'' @ int_str n @ ''-'' @ take 8 (uuid_hex i)"
  using assms valid_generated [of n i]
  by (auto simp: choose_branch_def generate_branch_name_def Let_def split: if_splits)

text \<open>Whatever the harmless commands preserve, the preparation preserves.\<close>

definition harmless :: "string list \<Rightarrow> bool" where
  "harmless args = ((\<exists>x. args = [''rev-parse'', x]) \<or> (\<exists>x. args = [''rev-parse'', ''--verify'', x]) \<or>
     (\<exists>b. args = [''checkout'', ''-b'', b]) \<or> (\<exists>b. args = [''checkout'', b]) \<or>
     args = [''status'', ''--porcelain''] \<or> (\<exists>p b. args = [''worktree'', ''add'', p, b]))"

definition preserved :: "'g git_env \<Rightarrow> ('g \<Rightarrow> bool) \<Rightarrow> bool" where
  "preserved E I = (\<forall>args cwd g. harmless args \<longrightarrow> I g \<longrightarrow> I (snd (ge_run E args cwd g)))"

lemma preserved_run:
  "preserved E I \<Longrightarrow> harmless args \<Longrightarrow> I g \<Longrightarrow> I (snd (run_git_command E args cwd check g))"
  by (auto simp: preserved_def run_git_command_def Let_def split: prod.splits git_result.splits)
     (metis snd_conv)+

lemma preserved_then:
  "I (snd m) \<Longrightarrow> (\<And>a g. I g \<Longrightarrow> I (snd (k a g))) \<Longrightarrow> I (snd (git_then m k))"
  by (cases m; cases "fst m") auto

lemma preserved_on_error:
  "I (snd m) \<Longrightarrow> (\<And>e g. I g \<Longrightarrow> I (snd (h e g))) \<Longrightarrow> I (snd (on_prep_error m h))"
  by (cases m; cases "fst m") (auto simp: on_prep_error_def split: prep_exn.splits)

lemma harmless_cmds:
  "harmless [''rev-parse'', x]" "harmless [''rev-parse'', ''--verify'', x]"
  "harmless [''checkout'', ''-b'', x]" "harmless [''checkout'', x]"
  "harmless [''status'', ''--porcelain'']" "harmless [''worktree'', ''add'', x, y]"
  by (simp_all add: harmless_def)

lemma preserved_prepare:
  assumes "preserved E I" "I g"
  shows "I (snd (prepare_git_context E cfg i n xb reuse g))"
proof -
  note r = preserved_run [OF assms(1)] harmless_cmds preserved_then [where I = I]
    preserved_on_error [where I = I]
  have b: "I (snd (branch_exists E cfg b g))" if "I g" for b g
    unfolding branch_exists_def by (intro r that) simp_all
  have e: "I (snd (ensure_branch E cfg i b g))" if "I g" for b g
    unfolding ensure_branch_def by (rule r(8) [OF b [OF that]]) (auto intro!: r)
  have c: "I (snd (get_current_commit E cfg g))" if "I g" for g
    unfolding get_current_commit_def by (intro r that) simp_all
  have w: "I (snd (is_worktree_clean E p g))" if "I g" for p g
    unfolding is_worktree_clean_def by (intro r that) simp_all
  have u: "I (snd (reuse_worktree E i p ru g))" if "I g" for p ru g
    unfolding reuse_worktree_def using that by (auto intro!: r(8) w)
  have a: "I (snd (add_worktree E cfg b p cr g))" if "I g" for b p cr g
    unfolding add_worktree_def using that by (auto intro!: r)
  show ?thesis
    unfolding prepare_git_context_def Let_def
    by (rule r(8), simp add: assms(2), rule r(8) [OF e], assumption, rule r(8) [OF c], assumption,
        rule r(8) [OF u], assumption, rule r(8) [OF a], assumption) auto
qed

section \<open>Properties\<close>

text \<open>
  Branch names. For task numbers of at most 231 digits the automatic branch name is a
  valid ref name by the code's own test, has neither a parent-directory part nor a leading
  or trailing slash, and two tasks with different numbers get different branches and
  different worktree paths.
\<close>

theorem generated_names_valid_and_distinct:
  assumes "length (int_str n) \<le> 231" and "length (int_str n') \<le> 231"
  shows "validate_ref_name (generate_branch_name n i) \<and> \<not> str_in ''..'' (generate_branch_name n i) \<and>
    (n \<noteq> n' \<longrightarrow> generate_branch_name n i \<noteq> generate_branch_name n' i' \<and>
       worktree_path_for cfg n i \<noteq> worktree_path_for cfg n' i')"
proof -
  have g: "generate_branch_name k j = BRANCH_PREFIX @ ''-'' @ int_str k @ ''-'' @ take 8 (uuid_hex j)"
    if "length (int_str k) \<le> 231" for k j
    using valid_generated [OF that, of j] by (simp add: generate_branch_name_def Let_def)
  have v: "validate_ref_name (generate_branch_name n i)"
    using valid_generated [OF assms(1), of i] g [OF assms(1), of i] by simp
  then have dots: "\<not> str_in ''..'' (generate_branch_name n i)"
    by (simp add: validate_ref_name_def split: if_splits)
  have sep: "int_str k = int_str k'"
    if "int_str k @ CHR ''-'' # take 8 (uuid_hex j) = int_str k' @ CHR ''-'' # take 8 (uuid_hex j')" for k k' j j'
    using that by (simp add: append_eq_append_conv)
  have "generate_branch_name n i \<noteq> generate_branch_name n' i'" if "n \<noteq> n'"
    using that sep by (auto simp: g assms)
  moreover have "worktree_path_for cfg n i \<noteq> worktree_path_for cfg n' i'" if "n \<noteq> n'"
    using that sep by (auto simp: worktree_path_for_def path_join_def)
  ultimately show ?thesis using v dots by blast
qed

theorem generated_names_valid_and_distinct_witness:
  "generate_branch_name 7 0 \<noteq> generate_branch_name 8 0 \<and> validate_ref_name (generate_branch_name 7 0)"
proof -
  have l: "length (int_str 7) \<le> 231" "length (int_str 8) \<le> 231" by code_simp+
  from generated_names_valid_and_distinct [OF l] show ?thesis by simp
qed

text \<open>An environment for the witnesses: branches, the branch checked out, and worktrees.\<close>

type_synonym sim_world = "string list \<times> string \<times> string list"

definition sim_run :: "string list \<Rightarrow> string \<Rightarrow> sim_world \<Rightarrow> git_result \<times> sim_world" where
  "sim_run args cwd w = (case w of (bs, cur, ps) \<Rightarrow>
     if args = [''rev-parse'', ''HEAD''] then (GitOk ''abc'', w)
     else if take 2 args = [''rev-parse'', ''--verify''] then
       (if args ! 2 \<in> set bs then (GitOk ''abc'', w) else (GitExit 128 [] ''fatal'', w))
     else if take 2 args = [''checkout'', ''-b''] then
       (if args ! 2 \<in> set bs then (GitExit 128 [] ''fatal'', w)
        else (GitOk [], (args ! 2 # bs, args ! 2, ps)))
     else if take 1 args = [''checkout''] then
       (if args ! 1 \<in> set bs then (GitOk [], (bs, args ! 1, ps)) else (GitExit 1 [] ''error'', w))
     else if take 2 args = [''worktree'', ''add''] then
       (if args ! 3 \<notin> set bs \<or> args ! 3 = cur \<or> args ! 2 \<in> set ps
        then (GitExit 128 [] ''fatal: already checked out'', w)
        else (GitOk [], (bs, cur, args ! 2 # ps)))
     else (GitOk [], w))"

definition sim_env :: "sim_world git_env" where
  "sim_env = \<lparr>ge_run = sim_run, ge_exists = (\<lambda>p w. case w of (bs, cur, ps) \<Rightarrow> p \<in> set ps),
     ge_resolve = (\<lambda>p w. Some p)\<rparr>"

definition sim_cfg :: git_config where
  "sim_cfg = \<lparr>gc_worktree_root = ''/w'', gc_base_repo_path = ''/r''\<rparr>"

text \<open>
  A successful preparation. The branch is the explicitly requested valid one, or the
  task's own; the worktree is the task's own path and resolves to a path that starts with
  the root; the path is never taken from the request.
\<close>

theorem prepared_git_context_is_own:
  assumes "prepare_git_context E cfg i n xb reuse g = (Inr x, g')"
    and "length (int_str n) \<le> 231"
  shows "validate_ref_name (gx_branch_name x) \<and>
    gx_branch_name x = (if str_truthy xb then the xb else generate_branch_name n i) \<and>
    gx_worktree_path x = worktree_path_for cfg n i \<and>
    (\<exists>r. ge_resolve E (gx_worktree_path x) g' = Some r \<and> prefix (gc_worktree_root cfg) r)"
  using prepare_git_context_Inr [OF assms(1)] choose_branch_valid(1) [of i n xb "gx_branch_name x"] assms(2)
  by (auto simp: choose_branch_def validate_path_within_root_def Let_def
      split: if_splits option.splits)

theorem prepared_git_context_is_own_witness:
  "\<exists>x w. prepare_git_context sim_env sim_cfg 5 7 (Some ''dev'') True ([''main'', ''dev''], ''main'', []) = (Inr x, w)
     \<and> gx_branch_name x = ''dev'' \<and> gx_worktree_path x = worktree_path_for sim_cfg 7 5"
proof -
  let ?r = "prepare_git_context sim_env sim_cfg 5 7 (Some ''dev'') True ([''main'', ''dev''], ''main'', [])"
  have "isl (fst ?r) = False" by code_simp
  then obtain x w where r: "?r = (Inr x, w)" by (cases ?r; cases "fst ?r") auto
  have "length (int_str 7) \<le> 231" by code_simp
  from prepared_git_context_is_own [OF r this]
  have "gx_branch_name x = ''dev''" "gx_worktree_path x = worktree_path_for sim_cfg 7 5" by simp_all
  with r show ?thesis by blast
qed

text \<open>
  No destructive commands. Every property of the world that revision queries, branch
  creation, checkout, status and \<open>worktree add\<close> preserve is preserved by the whole
  preparation on every path, failing ones included; with a log of the commands as the
  world, no other command is ever run.
\<close>

theorem preparation_only_harmless:
  assumes "\<And>args cwd h. harmless args \<Longrightarrow> I h \<Longrightarrow> I (snd (ge_run E args cwd h))" and "I g"
  shows "I (snd (prepare_git_context E cfg i n xb reuse g))"
  by (rule preserved_prepare) (use assms in \<open>auto simp: preserved_def\<close>)

definition log_env :: "(string list list) git_env" where
  "log_env = \<lparr>ge_run = (\<lambda>args cwd l. (GitExit 1 [] [], args # l)), ge_exists = (\<lambda>p l. False),
     ge_resolve = (\<lambda>p l. None)\<rparr>"

theorem preparation_only_harmless_witness:
  "list_all harmless (snd (prepare_git_context log_env sim_cfg 5 7 None True []))"
  by (rule preparation_only_harmless) (simp_all add: log_env_def)

text \<open>
  Git refuses to add a worktree for a branch that is checked out already. \<open>current\<close> is the
  branch checked out in the base repository; the three conjuncts are the documented
  behaviour of \<open>git checkout -b\<close>, \<open>git rev-parse\<close> and \<open>git worktree add\<close> without \<open>--force\<close>.
\<close>

definition documented_worktrees ::
    "'g git_env \<Rightarrow> git_config \<Rightarrow> ('g \<Rightarrow> string) \<Rightarrow> bool" where
  "documented_worktrees E cfg current =
     ((\<forall>b g out g'. ge_run E [''checkout'', ''-b'', b] (gc_base_repo_path cfg) g = (GitOk out, g') \<longrightarrow>
         current g' = b \<and> (\<forall>p. ge_exists E p g' = ge_exists E p g)) \<and>
      (\<forall>x g r g'. ge_run E (''rev-parse'' # x) (gc_base_repo_path cfg) g = (r, g') \<longrightarrow>
         current g' = current g \<and> (\<forall>p. ge_exists E p g' = ge_exists E p g)) \<and>
      (\<forall>p g. \<exists>rc out err g'. ge_run E [''worktree'', ''add'', p, current g] (gc_base_repo_path cfg) g =
         (GitExit rc out err, g') \<and> ge_exists E p g' = ge_exists E p g))"



text \<open>
  A directory in which \<open>git status\<close> fails without output counts as a clean worktree, so a
  foreign directory at the task's path is reused.
\<close>

lemma failing_status_counts_as_clean:
  "ge_run E [''status'', ''--porcelain''] p g = (GitExit rc [] err, g') \<Longrightarrow>
   is_worktree_clean E p g = (Inr True, g')"
  by (simp add: is_worktree_clean_def run_git_command_def strip_def rstrip_def lstrip_def)

text \<open>The two tests that the code's patterns do not make.\<close>

lemma ref_name_with_final_newline: "validate_ref_name (''dev'' @ [CHR 0x0A])"
  by code_simp

lemma sibling_of_root_accepted:
  "ge_resolve E p g = Some (gc_worktree_root cfg @ ''-other/x'') \<Longrightarrow> validate_path_within_root E cfg p g"
  by (simp add: validate_path_within_root_def)

end
