(* ===== verification/Orchestrator_Main.thy ===== *)
theory Orchestrator_Main
  imports Candidate_Discovery Git_Context
begin

text \<open>
  \<open>orchestrator/main.py\<close>: one preparation cycle, from the candidates over the plan and the
  lock to a prepared context per task. Arguments of the model: the git environment, the
  clock, the outcomes of the lock and release statements, the batch identifier, and
  \<open>others\<close>, what other workers commit between the query of the candidates and the lock.
\<close>

record prep_result =
  pr_task_id :: uuid
  pr_task_number :: int
  pr_success :: bool
  pr_context :: "prepared_context option"
  pr_error :: "preparation_error option"
  pr_queued_at :: "datetime option"

section \<open>One task\<close>

definition set_git :: "git_context \<Rightarrow> task \<Rightarrow> task" where
  "set_git x t = t\<lparr>t_branch_name := Some (gx_branch_name x),
     t_worktree_path := Some (gx_worktree_path x),
     t_commit_sha_before := Some (gx_commit_sha_before x)\<rparr>"

text \<open>The tail of the \<open>try\<close> block: build and validate the context.\<close>

definition finish_context ::
    "string \<Rightarrow> datetime \<Rightarrow> string \<Rightarrow> task \<Rightarrow> json \<Rightarrow> git_context option \<Rightarrow> prep_exn + prepared_context" where
  "finish_context base now batch_id t rw gx =
     (case build_context base now (t_id t) (t_task_number t) (t_type t) rw
        (map_option gx_branch_name gx) (map_option gx_worktree_path gx)
        (map_option gx_commit_sha_before gx) (Some batch_id)
        (Some (''prep-'' @ take 8 (uuid_hex (t_id t)))) (t_details t) of
        Inl e \<Rightarrow> Inl e
      | Inr x \<Rightarrow>
          (let errors = validate_context x in
           if errors \<noteq> [] then Inl (PrepErr \<lparr>pe_type = NON_RECOVERABLE,
             pe_message = ''Context validation failed: '' @ json_repr (JList (map JStr errors)),
             pe_task_id = t_id t\<rparr>)
           else Inr x))"

definition prepare_body ::
    "'g git_env \<Rightarrow> git_config \<Rightarrow> string \<Rightarrow> datetime \<Rightarrow> string \<Rightarrow> task \<Rightarrow> session \<times> 'g \<Rightarrow>
     (prep_exn + prepared_context) \<times> session \<times> 'g" where
  "prepare_body E cfg base now batch_id t sg =
     (case sg of (s, g) \<Rightarrow>
       (let rw = c_requires_write_access (classify (t_id t) (t_task_number t) (t_type t) (t_details t)) in
        if truthy rw then
          (case prepare_git_context E cfg (t_id t) (t_task_number t) None True g of
             (Inl e, g') \<Rightarrow> (Inl e, s, g')
           | (Inr x, g') \<Rightarrow>
               (finish_context base now batch_id t rw (Some x), modify (put_task (t_id t) (set_git x)) s, g'))
        else (finish_context base now batch_id t rw None, s, g)))"

definition set_prepared :: "datetime \<Rightarrow> prepared_context \<Rightarrow> task \<Rightarrow> task" where
  "set_prepared now x t = t\<lparr>t_status := TS_PREPARED, t_prepared_context_version := Some (x_version x),
     t_updated_at := now\<rparr>"

definition note_failure :: "datetime \<Rightarrow> string \<Rightarrow> task \<Rightarrow> task" where
  "note_failure now msg t =
     t\<lparr>t_preparation_attempt_count := t_preparation_attempt_count t + 1,
       t_last_preparation_error := Some msg, t_updated_at := now\<rparr>"

definition failed_result :: "task \<Rightarrow> preparation_error \<Rightarrow> prep_result" where
  "failed_result t e = \<lparr>pr_task_id = t_id t, pr_task_number = t_task_number t, pr_success = False,
     pr_context = None, pr_error = Some e, pr_queued_at = None\<rparr>"

definition prepare_task_context ::
    "'g git_env \<Rightarrow> git_config \<Rightarrow> string \<Rightarrow> db_outcome \<Rightarrow> datetime \<Rightarrow> string \<Rightarrow> task \<Rightarrow> session \<times> 'g \<Rightarrow>
     prep_result \<times> session \<times> 'g" where
  "prepare_task_context E cfg base rel_out now batch_id t sg =
     (let i = t_id t in
      case prepare_body E cfg base now batch_id t sg of
        (Inr x, s, g) \<Rightarrow>
          (\<lparr>pr_task_id = i, pr_task_number = t_task_number t, pr_success = True,
            pr_context = Some x, pr_error = None, pr_queued_at = t_queued_at t\<rparr>,
           commit (modify (put_task i (set_prepared now x)) s), g)
      | (Inl (PrepErr e), s, g) \<Rightarrow>
          (let s1 = modify (put_task i (note_failure now (pe_message e))) s;
               s2 = (if pe_is_non_recoverable e
                     then modify (put_task i (\<lambda>t. t\<lparr>t_status := TS_FAILED\<rparr>)) s1
                     else snd (release_lock rel_out now i TS_BACKLOG s1))
           in (failed_result t e, commit s2, g))
      | (Inl (OtherExc msg), s, g) \<Rightarrow>
          (failed_result t \<lparr>pe_type = RECOVERABLE, pe_message = ''Unexpected error: '' @ msg,
             pe_task_id = i\<rparr>,
           commit (modify (put_task i (note_failure now msg)) s), g))"

section \<open>The cycle\<close>

definition task_data :: "task \<Rightarrow> uuid \<times> int \<times> string \<times> (string \<times> json) list" where
  "task_data t = (t_id t, t_task_number t, t_type t, t_details t)"

definition conflict_results :: "lock_result \<Rightarrow> db \<Rightarrow> prep_result list" where
  "conflict_results lr d =
     (if lr_success lr then []
      else concat (map (\<lambda>(i, why). case get_task d i of
        None \<Rightarrow> []
      | Some t \<Rightarrow> [failed_result t \<lparr>pe_type = CONFLICT, pe_message = why, pe_task_id = i\<rparr>])
        (lr_failure_reasons lr)))"

definition prepare_one ::
    "'g git_env \<Rightarrow> git_config \<Rightarrow> string \<Rightarrow> db_outcome \<Rightarrow> datetime \<Rightarrow> string \<Rightarrow> uuid \<Rightarrow>
     prep_result list \<times> session \<times> 'g \<Rightarrow> prep_result list \<times> session \<times> 'g" where
  "prepare_one E cfg base rel_out now batch_id i acc =
     (case acc of (rs, s, g) \<Rightarrow>
       (case get_task (working s) i of
          None \<Rightarrow> (rs, s, g)
        | Some t \<Rightarrow> (case prepare_task_context E cfg base rel_out now batch_id t (s, g) of
            (r, s', g') \<Rightarrow> (rs @ [r], s', g'))))"

definition run_preparation_cycle ::
    "'g git_env \<Rightarrow> git_config \<Rightarrow> string \<Rightarrow> string \<Rightarrow> int \<Rightarrow> (db \<Rightarrow> db) \<Rightarrow> db_outcome \<Rightarrow> db_outcome \<Rightarrow>
     datetime \<Rightarrow> string \<Rightarrow> session \<times> 'g \<Rightarrow> prep_result list \<times> session \<times> 'g" where
  "run_preparation_cycle E cfg base worker m others lock_out rel_out now batch_id sg =
     (case sg of (s, g) \<Rightarrow>
       (case find_candidates m None [] (working s) of
          Inl e \<Rightarrow> ([], open_session (others (committed s)), g)
        | Inr cs \<Rightarrow>
            if cs = [] then ([], open_session (others (committed s)), g)
            else
              (let plan = create_batch_plan batch_id m (classify_batch (map task_data cs));
                   (lr, s1) = lock_tasks worker lock_out now plan (open_session (others (committed s)))
               in fold (prepare_one E cfg base rel_out now batch_id) (lr_locked_task_ids lr)
                    (conflict_results lr (working s1), s1, g))))"

text \<open>\<open>trigger_orchestrator\<close>: one cycle with the built-in settings, after a task was created.\<close>

definition trigger_orchestrator ::
    "'g git_env \<Rightarrow> git_config \<Rightarrow> string \<Rightarrow> (db \<Rightarrow> db) \<Rightarrow> db_outcome \<Rightarrow> db_outcome \<Rightarrow> datetime \<Rightarrow> string \<Rightarrow>
     session \<times> 'g \<Rightarrow> bool \<times> session \<times> 'g" where
  "trigger_orchestrator E cfg worker others lock_out rel_out now batch_id sg =
     (case run_preparation_cycle E cfg ''.'' worker 10 others lock_out rel_out now batch_id sg of
        (results, s, g) \<Rightarrow> (True, s, g))"

section \<open>Lemmas: one task\<close>

lemma row_writes_id [simp]:
  "t_id (set_git x t) = t_id t" "t_id (set_prepared now y t) = t_id t"
  "t_id (note_failure now msg t) = t_id t"
  "t_status (set_git x t) = t_status t" "t_status (set_prepared now y t) = TS_PREPARED"
  "t_status (note_failure now msg t) = t_status t"
  "t_locked_by (set_git x t) = t_locked_by t" "t_locked_by (set_prepared now y t) = t_locked_by t"
  "t_locked_by (note_failure now msg t) = t_locked_by t"
  "t_preparation_attempt_count (set_git x t) = t_preparation_attempt_count t"
  "t_preparation_attempt_count (note_failure now msg t) = t_preparation_attempt_count t + 1"
  by (simp_all add: set_git_def set_prepared_def note_failure_def)

text \<open>Two databases that differ at most in one task row.\<close>

definition only_row :: "uuid \<Rightarrow> db \<Rightarrow> db \<Rightarrow> bool" where
  "only_row i d d' = ((\<forall>j. j \<noteq> i \<longrightarrow> get_task d' j = get_task d j) \<and>
     map t_id (tasks d') = map t_id (tasks d) \<and> requirements d' = requirements d \<and>
     executions d' = executions d \<and> events d' = events d)"

lemma only_row_refl [simp]: "only_row i d d"
  by (simp add: only_row_def)

lemma only_row_trans: "only_row i d d' \<Longrightarrow> only_row i d' d'' \<Longrightarrow> only_row i d d''"
  by (simp add: only_row_def)

lemma only_row_update:
  assumes "\<And>t. t_id (f t) = t_id t"
  shows "only_row i d (update_tasks (\<lambda>t. t_id t = i \<and> q t) f d)"
proof -
  have "get_task (update_tasks (\<lambda>t. t_id t = i \<and> q t) f d) j =
      map_option (\<lambda>t. if t_id t = i \<and> q t then f t else t) (get_task d j)" for j
    by (rule get_task_update) (rule assms)
  then have "j \<noteq> i \<Longrightarrow> get_task (update_tasks (\<lambda>t. t_id t = i \<and> q t) f d) j = get_task d j" for j
    by (cases "get_task d j") (auto dest: get_task_Some)
  then show ?thesis using update_tasks_ids [of f] assms by (simp add: only_row_def)
qed

lemma only_row_put: "(\<And>t. t_id (f t) = t_id t) \<Longrightarrow> only_row i d (put_task i f d)"
  using only_row_update [of f i d "\<lambda>_. True"] by (simp add: put_task_def)

lemma release_lock_row:
  "working (snd (release_lock out now i st s)) =
    (case out of DbError e \<Rightarrow> committed s
     | DbOk \<Rightarrow> update_tasks (\<lambda>t. t_id t = i \<and> t_status t = TS_QUEUED)
         (\<lambda>t. t\<lparr>t_status := st, t_queued_at := None, t_locked_by := None, t_updated_at := now\<rparr>) (working s))"
  by (simp add: release_lock_def Let_def split: db_outcome.split)

lemma finish_context_Inr:
  "finish_context base now b t rw gx = Inr x \<Longrightarrow> validate_context x = []"
  by (auto simp: finish_context_def Let_def split: sum.splits if_splits)

lemma prepare_body_cases:
  assumes "prepare_body E cfg base now b t (s, g) = (res, s', g')"
  shows "s' = s \<or> (\<exists>x. s' = modify (put_task (t_id t) (set_git x)) s)"
    and "res = Inr x \<Longrightarrow> validate_context x = []"
proof -
  let ?rw = "fst (write_decision (t_type t) (t_details t))"
  have all: "(s' = s \<or> (\<exists>x. s' = modify (put_task (t_id t) (set_git x)) s)) \<and>
    (\<forall>x. res = Inr x \<longrightarrow> (\<exists>gx. finish_context base now b t ?rw gx = Inr x))"
  proof (cases "truthy ?rw")
    case False
    with assms show ?thesis by (auto simp: prepare_body_def Let_def)
  next
    case True
    obtain q g1 where "prepare_git_context E cfg (t_id t) (t_task_number t) None True g = (q, g1)"
      by (cases "prepare_git_context E cfg (t_id t) (t_task_number t) None True g")
    with True assms show ?thesis by (cases q) (auto simp: prepare_body_def Let_def)
  qed
  then show "s' = s \<or> (\<exists>x. s' = modify (put_task (t_id t) (set_git x)) s)" by blast
  show "validate_context x = []" if "res = Inr x"
    using all that finish_context_Inr by blast
qed

lemma prepare_body_row:
  assumes "prepare_body E cfg base now b t (s, g) = (res, s', g')" "t_id t = i"
    and "get_task (working s) i = Some u"
  shows "\<exists>v. get_task (working s') i = Some v \<and> t_status v = t_status u \<and> t_locked_by v = t_locked_by u \<and>
      t_preparation_attempt_count v = t_preparation_attempt_count u"
    and "committed s' = committed s" and "only_row i (working s) (working s')"
  using prepare_body_cases(1) [OF assms(1)] assms(2,3)
  by (auto simp: get_task_put only_row_put)

text \<open>The effect of one preparation on its row, by the outcome of the \<open>try\<close> block.\<close>

definition row_outcome ::
    "db_outcome \<Rightarrow> prep_exn + prepared_context \<Rightarrow> task \<Rightarrow> prep_result \<Rightarrow> task \<Rightarrow> bool" where
  "row_outcome rel_out res t r t' =
     (case res of
        Inr x \<Rightarrow> pr_success r \<and> pr_context r = Some x \<and> validate_context x = [] \<and>
          t_status t' = TS_PREPARED \<and> t_locked_by t' = t_locked_by t
      | Inl (PrepErr e) \<Rightarrow> \<not> pr_success r \<and> pr_error r = Some e \<and>
          (if pe_type e = NON_RECOVERABLE
           then t_status t' = TS_FAILED \<and> t_locked_by t' = t_locked_by t \<and>
             t_preparation_attempt_count t' = t_preparation_attempt_count t + 1
           else if rel_out \<noteq> DbOk then t' = t
           else t_preparation_attempt_count t' = t_preparation_attempt_count t + 1 \<and>
             (if t_status t = TS_QUEUED then t_status t' = TS_BACKLOG \<and> t_locked_by t' = None
              else t_status t' = t_status t \<and> t_locked_by t' = t_locked_by t))
      | Inl (OtherExc m) \<Rightarrow> \<not> pr_success r \<and> t_status t' = t_status t \<and>
          t_locked_by t' = t_locked_by t \<and>
          t_preparation_attempt_count t' = t_preparation_attempt_count t + 1)"

lemma prepare_task_context_row:
  assumes row: "get_task (working s) i = Some t" and cw: "committed s = working s"
    and p: "prepare_task_context E cfg base rel_out now b t (s, g) = (r, s', g')"
  shows "committed s' = working s'" and "only_row i (working s) (working s')"
    and "pr_task_id r = i"
    and "\<exists>t'. get_task (working s') i = Some t' \<and>
      row_outcome rel_out (fst (prepare_body E cfg base now b t (s, g))) t r t'"
proof -
  have i: "t_id t = i" using row by (simp add: get_task_Some)
  obtain res s1 g1 where b: "prepare_body E cfg base now b t (s, g) = (res, s1, g1)"
    by (cases "prepare_body E cfg base now b t (s, g)") auto
  obtain v where v: "get_task (working s1) i = Some v" "t_status v = t_status t"
    "t_locked_by v = t_locked_by t" "t_preparation_attempt_count v = t_preparation_attempt_count t"
    using prepare_body_row(1) [OF b i row] by blast
  note b' = prepare_body_row(2,3) [OF b i row]
  have up: "only_row i (working s) (put_task i f (working s1))" if "\<And>t. t_id (f t) = t_id t" for f
    by (rule only_row_trans [OF b'(2) only_row_put]) (rule that)
  have all: "committed s' = working s' \<and> only_row i (working s) (working s') \<and> pr_task_id r = i \<and>
    (\<exists>t'. get_task (working s') i = Some t' \<and> row_outcome rel_out res t r t')"
  proof (cases res)
    case (Inr x)
    then have "pr_success r" "pr_context r = Some x" "pr_task_id r = i"
      "s' = commit (modify (put_task i (set_prepared now x)) s1)"
      using p b i by (auto simp: prepare_task_context_def Let_def)
    with v prepare_body_cases(2) [OF b Inr] Inr show ?thesis
      by (simp add: row_outcome_def get_task_put up)
  next
    case (Inl ex)
    show ?thesis
    proof (cases ex)
      case (OtherExc m)
      then have "\<not> pr_success r" "pr_task_id r = i"
        "s' = commit (modify (put_task i (note_failure now m)) s1)"
        using p b i Inl by (auto simp: prepare_task_context_def Let_def failed_result_def)
      with v Inl OtherExc show ?thesis by (simp add: row_outcome_def get_task_put up)
    next
      case (PrepErr e)
      let ?s1 = "modify (put_task i (note_failure now (pe_message e))) s1"
      have w: "only_row i (working s) (working ?s1)" by (simp add: up)
      have rw: "get_task (working ?s1) i = Some (note_failure now (pe_message e) v)"
        using v(1) by (simp add: get_task_put)
      show ?thesis
      proof (cases "pe_type e = NON_RECOVERABLE")
        case True
        then have "r = failed_result t e" "s' = commit (modify (put_task i (\<lambda>t. t\<lparr>t_status := TS_FAILED\<rparr>)) ?s1)"
          using p b i Inl PrepErr by (simp_all add: prepare_task_context_def Let_def pe_is_non_recoverable_def)
        with True rw v i Inl PrepErr only_row_trans [OF w only_row_put [of "\<lambda>t. t\<lparr>t_status := TS_FAILED\<rparr>"]]
        show ?thesis by (simp add: row_outcome_def failed_result_def get_task_put)
      next
        case False
        then have rs: "r = failed_result t e" "s' = commit (snd (release_lock rel_out now i TS_BACKLOG ?s1))"
          using p b i Inl PrepErr by (simp_all add: prepare_task_context_def Let_def pe_is_non_recoverable_def)
        show ?thesis
        proof (cases rel_out)
          case (DbError er)
          with False rs i Inl PrepErr cw b'(1) row show ?thesis
            by (simp add: row_outcome_def failed_result_def release_lock_row)
        next
          case DbOk
          let ?f = "\<lambda>t. t\<lparr>t_status := TS_BACKLOG, t_queued_at := None, t_locked_by := None, t_updated_at := now\<rparr>"
          have d: "working s' = update_tasks (\<lambda>t. t_id t = i \<and> t_status t = TS_QUEUED) ?f (working ?s1)"
            using rs DbOk by (simp add: release_lock_row)
          have "get_task (working s') i = map_option (\<lambda>t. if t_id t = i \<and> t_status t = TS_QUEUED
              then ?f t else t) (get_task (working ?s1) i)"
            unfolding d by (rule get_task_update) simp
          moreover have "only_row i (working s) (working s')"
            unfolding d by (rule only_row_trans [OF w only_row_update]) simp
          ultimately show ?thesis using False DbOk rs rw v i Inl PrepErr get_task_Some [OF v(1)]
            by (simp add: row_outcome_def failed_result_def)
        qed
      qed
    qed
  qed
  with b show "committed s' = working s'" "only_row i (working s) (working s')" "pr_task_id r = i"
    "\<exists>t'. get_task (working s') i = Some t' \<and>
      row_outcome rel_out (fst (prepare_body E cfg base now b t (s, g))) t r t'"
    by simp_all
qed

section \<open>Lemmas: the cycle\<close>

text \<open>A successful result against the rows before and after.\<close>

definition good_result :: "db \<Rightarrow> prep_result \<Rightarrow> db \<Rightarrow> bool" where
  "good_result d r d' = (pr_success r \<longrightarrow>
     (\<exists>t t' x. get_task d (pr_task_id r) = Some t \<and> get_task d' (pr_task_id r) = Some t' \<and>
        t_status t' = TS_PREPARED \<and> t_locked_by t' = t_locked_by t \<and>
        pr_context r = Some x \<and> validate_context x = []))"

lemma prepare_one_spec:
  assumes "prepare_one E cfg base rel_out now b i (rs, s, g) = (rs', s', g')" "committed s = working s"
  shows "committed s' = working s' \<and> only_row i (working s) (working s') \<and>
    (\<exists>new. rs' = rs @ new \<and> (\<forall>r \<in> set new. pr_task_id r = i \<and> good_result (working s) r (working s')))"
proof (cases "get_task (working s) i")
  case None
  with assms show ?thesis by (auto simp: prepare_one_def)
next
  case (Some t)
  obtain r s1 g1 where p: "prepare_task_context E cfg base rel_out now b t (s, g) = (r, s1, g1)"
    by (cases "prepare_task_context E cfg base rel_out now b t (s, g)") auto
  with assms(1) Some have e: "rs' = rs @ [r]" "s' = s1" by (auto simp: prepare_one_def)
  note row = prepare_task_context_row [OF Some assms(2) p]
  obtain t' where t': "get_task (working s1) i = Some t'"
    "row_outcome rel_out (fst (prepare_body E cfg base now b t (s, g))) t r t'"
    using row(4) by blast
  have "good_result (working s) r (working s1)"
    unfolding good_result_def
  proof
    assume "pr_success r"
    with t'(2) obtain x where "pr_context r = Some x" "validate_context x = []" "t_status t' = TS_PREPARED"
      "t_locked_by t' = t_locked_by t"
      by (auto simp: row_outcome_def split: sum.splits prep_exn.splits)
    with t'(1) row(3) Some show "\<exists>t t' x. get_task (working s) (pr_task_id r) = Some t \<and>
        get_task (working s1) (pr_task_id r) = Some t' \<and> t_status t' = TS_PREPARED \<and>
        t_locked_by t' = t_locked_by t \<and> pr_context r = Some x \<and> validate_context x = []"
      by blast
  qed
  with row e show ?thesis by auto
qed

definition same_tables :: "db \<Rightarrow> db \<Rightarrow> bool" where
  "same_tables d d' = (map t_id (tasks d') = map t_id (tasks d) \<and> requirements d' = requirements d \<and>
     executions d' = executions d \<and> events d' = events d)"

lemma same_tables_wf:
  assumes "same_tables d d'" "wf_db d"
  shows "wf_db d'"
proof -
  from assms(1) have "map t_id (tasks d') = map t_id (tasks d)" by (simp add: same_tables_def)
  moreover from this have "t_id ` set (tasks d') = t_id ` set (tasks d)" by (metis set_map)
  ultimately show ?thesis using assms
    by (simp add: wf_db_def same_tables_def unique_active_def active_for_def events_unique_def)
qed

lemma fold_prepare_spec:
  assumes "fold (prepare_one E cfg base rel_out now b) ids (rs, s, g) = (rs', s', g')"
    and "committed s = working s" and "distinct ids"
  shows "committed s' = working s' \<and> same_tables (working s) (working s') \<and>
    (\<forall>j. j \<notin> set ids \<longrightarrow> get_task (working s') j = get_task (working s) j) \<and>
    (\<exists>new. rs' = rs @ new \<and> (\<forall>r \<in> set new. pr_task_id r \<in> set ids \<and> good_result (working s) r (working s')))"
  using assms
proof (induction ids arbitrary: rs s g)
  case Nil
  then show ?case by (simp add: same_tables_def)
next
  case (Cons i ids)
  obtain rs1 s1 g1 where p: "prepare_one E cfg base rel_out now b i (rs, s, g) = (rs1, s1, g1)"
    by (cases "prepare_one E cfg base rel_out now b i (rs, s, g)") auto
  obtain new where one: "committed s1 = working s1" "only_row i (working s) (working s1)" "rs1 = rs @ new"
    "\<forall>r \<in> set new. pr_task_id r = i \<and> good_result (working s) r (working s1)"
    using prepare_one_spec [OF p Cons.prems(2)] by blast
  have f: "fold (prepare_one E cfg base rel_out now b) ids (rs1, s1, g1) = (rs', s', g')"
    using Cons.prems(1) p by simp
  obtain new' where rest: "committed s' = working s'" "same_tables (working s1) (working s')"
    "\<forall>j. j \<notin> set ids \<longrightarrow> get_task (working s') j = get_task (working s1) j" "rs' = rs1 @ new'"
    "\<forall>r \<in> set new'. pr_task_id r \<in> set ids \<and> good_result (working s1) r (working s')"
    using Cons.IH [OF f one(1)] Cons.prems(3) by auto
  have st: "same_tables (working s) (working s')"
    using one(2) rest(2) by (simp add: only_row_def same_tables_def)
  have fr: "\<forall>j. j \<notin> set (i # ids) \<longrightarrow> get_task (working s') j = get_task (working s) j"
    using one(2) rest(3) by (simp add: only_row_def)
  have gi: "get_task (working s') i = get_task (working s1) i" using rest(3) Cons.prems(3) by simp
  have g1: "\<forall>r \<in> set new. pr_task_id r \<in> set (i # ids) \<and> good_result (working s) r (working s')"
    using one(4) gi by (auto simp: good_result_def)
  have g2: "\<forall>r \<in> set new'. pr_task_id r \<in> set (i # ids) \<and> good_result (working s) r (working s')"
  proof
    fix r assume r: "r \<in> set new'"
    with rest(5) have "pr_task_id r \<in> set ids" "good_result (working s1) r (working s')" by auto
    moreover from this Cons.prems(3) have "pr_task_id r \<noteq> i" by auto
    then have "get_task (working s1) (pr_task_id r) = get_task (working s) (pr_task_id r)"
      using one(2) by (simp add: only_row_def)
    ultimately show "pr_task_id r \<in> set (i # ids) \<and> good_result (working s) r (working s')"
      by (simp add: good_result_def)
  qed
  from rest(1,4) st fr g1 g2 one(3) show ?case
    by (intro conjI exI [of _ "new @ new'"]) auto
qed

text \<open>What the lock leaves, whichever of its branches it takes.\<close>

lemma lock_tasks_effect:
  assumes "lock_tasks w out now plan (open_session d) = (lr, s1)" "wf_db d"
    and "distinct (b_task_ids plan)"
  shows "committed s1 = working s1 \<and> same_tables d (working s1) \<and>
    (\<forall>i. i \<notin> set (b_task_ids plan) \<longrightarrow> get_task (working s1) i = get_task d i) \<and>
    distinct (lr_locked_task_ids lr) \<and> set (lr_locked_task_ids lr) \<subseteq> set (b_task_ids plan)"
proof (cases "lr_success lr \<and> b_task_ids plan \<noteq> []")
  case True
  let ?p = "\<lambda>t. t_id t \<in> set (b_task_ids plan) \<and> t_status t = TS_BACKLOG"
  let ?f = "lock_values now w (Some (b_batch_id plan))"
  have wf: "wf_db (working (open_session d))" using assms(2) by simp
  note won = lock_tasks_won [OF assms(1) _ wf]
  have c: "committed s1 = update_tasks ?p ?f d" "lr_locked_task_ids lr = b_task_ids plan"
    using won(4,5) True by simp_all
  have "working s1 = committed s1"
    using assms(1) True won(1) by (auto simp: lock_tasks_def Let_def split: if_splits)
  moreover have "get_task (update_tasks ?p ?f d) i = get_task d i" if "i \<notin> set (b_task_ids plan)" for i
  proof -
    have "get_task (update_tasks ?p ?f d) i = map_option (\<lambda>t. if ?p t then ?f t else t) (get_task d i)"
      by (rule get_task_update) simp
    then show ?thesis using that by (cases "get_task d i") (auto dest: get_task_Some)
  qed
  moreover have "same_tables d (update_tasks ?p ?f d)"
    using update_tasks_ids [of ?f ?p d] by (simp add: same_tables_def)
  ultimately show ?thesis using c assms(3) by simp
next
  case False
  show ?thesis
  proof (cases "b_task_ids plan = []")
    case True
    with assms show ?thesis by (auto simp: lock_tasks_def Let_def same_tables_def)
  next
    case ne: False
    with False have f: "\<not> lr_success lr" by simp
    then have "s1 = rollback (open_session d)" using lock_tasks_lost(1) [OF assms(1)] by simp
    moreover have "lr_locked_task_ids lr = [] \<or> (\<exists>e. lr_locked_task_ids lr = spared_ids e (b_task_ids plan))"
      using assms(1) f ne by (auto simp: lock_tasks_def Let_def split: if_splits db_outcome.splits)
    ultimately show ?thesis using assms(3) by (auto simp: same_tables_def spared_ids_def)
  qed
qed

lemma plan_ids:
  assumes "distinct (map t_id cs)" "0 \<le> m"
  shows "distinct (b_task_ids (create_batch_plan b m (classify_batch (map task_data cs))))"
    and "set (b_task_ids (create_batch_plan b m (classify_batch (map task_data cs)))) \<subseteq> t_id ` set cs"
proof -
  let ?p = "create_batch_plan b m (classify_batch (map task_data cs))"
  have k: "\<forall>c \<in> set (classify_batch (map task_data cs)). keyed c" by (auto intro: classify_batch_keyed)
  have "map fst (map task_data cs) = map t_id cs" by (simp add: task_data_def)
  then have e: "mset (b_task_ids ?p) + mset (b_excluded_task_ids ?p) = mset (map t_id cs)"
    using plan_conservation [OF k assms(2), of b] by (simp only: classify_batch_ids)
  then have "mset (b_task_ids ?p @ b_excluded_task_ids ?p) = mset (map t_id cs)" by simp
  then have "distinct (b_task_ids ?p @ b_excluded_task_ids ?p)"
    using assms(1) by (rule mset_eq_imp_distinct_iff [THEN iffD2])
  then show "distinct (b_task_ids ?p)" by simp
  from e have "set (b_task_ids ?p) \<subseteq> set (map t_id cs)"
    by (metis mset_subset_eq_add_left set_mset_mono set_mset_mset)
  then show "set (b_task_ids ?p) \<subseteq> t_id ` set cs" by simp
qed

lemma run_preparation_cycle_effect:
  assumes wf: "wf_db (working s)" "wf_db (others (committed s))"
    and run: "run_preparation_cycle E cfg base w m others lock_out rel_out now b (s, g) = (rs, s', g')"
  shows "committed s' = working s' \<and> same_tables (others (committed s)) (committed s') \<and>
    (\<forall>i. get_task (committed s') i \<noteq> get_task (others (committed s)) i \<longrightarrow>
       status_in (working s) i = Some TS_BACKLOG) \<and>
    (\<forall>r \<in> set rs. pr_success r \<longrightarrow> (\<exists>t' x. get_task (committed s') (pr_task_id r) = Some t' \<and>
       t_status t' = TS_PREPARED \<and> pr_context r = Some x \<and> validate_context x = []))"
proof (cases "find_candidates m None [] (working s)")
  case (Inl e)
  with run show ?thesis by (auto simp: run_preparation_cycle_def same_tables_def)
next
  case (Inr cs)
  show ?thesis
  proof (cases "cs = []")
    case True
    with Inr run show ?thesis by (auto simp: run_preparation_cycle_def same_tables_def)
  next
    case False
    let ?d = "others (committed s)"
    let ?plan = "create_batch_plan b m (classify_batch (map task_data cs))"
    obtain lr s1 where l: "lock_tasks w lock_out now ?plan (open_session ?d) = (lr, s1)"
      by (cases "lock_tasks w lock_out now ?plan (open_session ?d)")
    have m: "0 \<le> m" by (rule find_candidates_Inr(2) [OF Inr])
    have dc: "distinct (map t_id cs)" by (rule find_candidates_distinct [OF wf(1) Inr])
    note pl = plan_ids [OF dc m, of b]
    have le: "committed s1 = working s1" "same_tables ?d (working s1)"
      "\<forall>i. i \<notin> set (b_task_ids ?plan) \<longrightarrow> get_task (working s1) i = get_task ?d i"
      "distinct (lr_locked_task_ids lr)" "set (lr_locked_task_ids lr) \<subseteq> set (b_task_ids ?plan)"
      using lock_tasks_effect [OF l wf(2) pl(1)] by simp_all
    have f: "fold (prepare_one E cfg base rel_out now b) (lr_locked_task_ids lr)
        (conflict_results lr (working s1), s1, g) = (rs, s', g')"
      using run Inr False l by (simp add: run_preparation_cycle_def Let_def)
    obtain new where fo: "committed s' = working s'" "same_tables (working s1) (working s')"
      "\<forall>j. j \<notin> set (lr_locked_task_ids lr) \<longrightarrow> get_task (working s') j = get_task (working s1) j"
      "rs = conflict_results lr (working s1) @ new"
      "\<forall>r \<in> set new. pr_task_id r \<in> set (lr_locked_task_ids lr) \<and> good_result (working s1) r (working s')"
      using fold_prepare_spec [OF f le(1,4)] by blast
    have bl: "status_in (working s) i = Some TS_BACKLOG" if i: "i \<in> set (b_task_ids ?plan)" for i
    proof -
      obtain t where t: "t \<in> set cs" "t_id t = i" using i pl(2) by blast
      with find_candidates_subset [OF Inr] have "t \<in> set (tasks (working s))" "t_status t = TS_BACKLOG"
        by (auto simp: eligible_def)
      with status_in_mem [OF wf(1)] t(2) show ?thesis by metis
    qed
    have "get_task (working s') i = get_task ?d i" if "status_in (working s) i \<noteq> Some TS_BACKLOG" for i
    proof -
      have n: "i \<notin> set (b_task_ids ?plan)" using that bl by blast
      then have "i \<notin> set (lr_locked_task_ids lr)" using le(5) by blast
      then show ?thesis using n le(3) fo(3) by simp
    qed
    moreover have "\<not> pr_success r" if "r \<in> set (conflict_results lr (working s1))" for r
      using that by (auto simp: conflict_results_def failed_result_def split: if_splits option.splits)
    then have "\<exists>t' x. get_task (committed s') (pr_task_id r) = Some t' \<and>
       t_status t' = TS_PREPARED \<and> pr_context r = Some x \<and> validate_context x = []"
      if "r \<in> set rs" "pr_success r" for r
      using that fo(1,4,5) unfolding good_result_def by fastforce
    ultimately show ?thesis using fo(1,2) le(2) by (auto simp: same_tables_def)
  qed
qed

section \<open>Properties\<close>

text \<open>
  One preparation. It commits, changes at most its own row, and its row follows the
  result: prepared, with a context that passes validation, on success; failed after a
  non-recoverable error; back in the backlog with the lock cleared and one more attempt
  after another preparation error of a queued task; still queued and locked, with one more
  attempt, after any other exception.
\<close>

theorem prepare_task_outcome:
  assumes "get_task (working s) i = Some t" and "committed s = working s"
    and "prepare_task_context E cfg base rel_out now b t (s, g) = (r, s', g')"
  shows "committed s' = working s' \<and> only_row i (working s) (committed s') \<and>
    (\<exists>t'. get_task (committed s') i = Some t' \<and>
      (case fst (prepare_body E cfg base now b t (s, g)) of
        Inr x \<Rightarrow> pr_success r \<and> pr_context r = Some x \<and> validate_context x = [] \<and>
          t_status t' = TS_PREPARED \<and> t_locked_by t' = t_locked_by t
      | Inl (PrepErr e) \<Rightarrow> \<not> pr_success r \<and> pr_error r = Some e \<and>
          (if pe_type e = NON_RECOVERABLE
           then t_status t' = TS_FAILED \<and> t_locked_by t' = t_locked_by t \<and>
             t_preparation_attempt_count t' = t_preparation_attempt_count t + 1
           else if rel_out \<noteq> DbOk then t' = t
           else t_preparation_attempt_count t' = t_preparation_attempt_count t + 1 \<and>
             (if t_status t = TS_QUEUED then t_status t' = TS_BACKLOG \<and> t_locked_by t' = None
              else t_status t' = t_status t \<and> t_locked_by t' = t_locked_by t))
      | Inl (OtherExc m) \<Rightarrow> \<not> pr_success r \<and> t_status t' = t_status t \<and>
          t_locked_by t' = t_locked_by t \<and>
          t_preparation_attempt_count t' = t_preparation_attempt_count t + 1))"
  unfolding prepare_task_context_row(1) [OF assms]
  using prepare_task_context_row(2,4) [OF assms, unfolded row_outcome_def] by (intro conjI) simp_all

definition planning_db :: db where
  "planning_db = sample_db\<lparr>tasks := [(sample_task 1 1 TS_BACKLOG)\<lparr>t_type := ''planning''\<rparr>,
     (sample_task 2 2 TS_BACKLOG)\<lparr>t_type := ''planning''\<rparr>]\<rparr>"

lemma planning_db_wf: "wf_db planning_db"
  by (simp add: wf_db_def planning_db_def sample_db_def sample_task_def unique_active_def
      active_for_def events_unique_def)

theorem prepare_task_outcome_witness:
  "\<exists>r s' g'. prepare_task_context sim_env sim_cfg ''/r'' DbOk 9 ''b''
      ((sample_task 1 1 TS_BACKLOG)\<lparr>t_type := ''planning''\<rparr>) (open_session planning_db, ([], [], [])) = (r, s', g') \<and>
    committed s' = working s' \<and> only_row 1 planning_db (committed s')"
proof -
  let ?t = "(sample_task 1 1 TS_BACKLOG)\<lparr>t_type := ''planning''\<rparr>"
  obtain r s' g' where p: "prepare_task_context sim_env sim_cfg ''/r'' DbOk 9 ''b'' ?t
      (open_session planning_db, ([], [], [])) = (r, s', g')"
    by (metis prod_cases3)
  have g: "get_task (working (open_session planning_db)) 1 = Some ?t" by code_simp
  have c: "committed (open_session planning_db) = working (open_session planning_db)" by simp
  from prepare_task_outcome [OF g c p]
  have "committed s' = working s'" "only_row 1 (working (open_session planning_db)) (committed s')"
    by blast+
  then have "committed s' = working s'" "only_row 1 planning_db (committed s')" by simp_all
  with p show ?thesis by blast
qed



text \<open>
  A conflict makes the cycle prepare tasks that it does not hold: worker 2 takes task 2
  between the query and the lock, worker 1 rolls back and still prepares task 1, which ends
  as prepared without having been locked by anyone.
\<close>

lemma conflict_prepares_unlocked_task:
  "let others = put_task 2 (lock_values 8 ''w2'' None);
       (rs, s', g') = run_preparation_cycle sim_env sim_cfg ''/r'' ''w1'' 10 others DbOk DbOk 9 ''b''
         (open_session planning_db, ([], [], [])) in
     map (\<lambda>r. (pr_task_id r, pr_success r)) rs = [(2, False), (1, True)] \<and>
     status_in (committed s') 1 = Some TS_PREPARED \<and>
     map_option t_locked_by (get_task (committed s') 1) = Some None"
  by code_simp

end
