(* ===== verification/Task_Service.thy ===== *)
theory Task_Service
  imports Orchestrator_Main
begin

text \<open>
  \<open>tasks/service.py\<close> with the endpoints of \<open>api/routes/domain.py\<close>: the intake of tasks and
  requirements, their constraints, the idempotency keys, and the status query. Identifiers,
  numbers of the identity column and the outcome of the commit are arguments; the
  orchestrator cycle that an intake triggers is the one of \<open>Orchestrator_Main\<close>.
\<close>

section \<open>Constraints of the tables\<close>

definition ALLOWED_TASK_TYPES :: "string list" where
  "ALLOWED_TASK_TYPES = [''planning'', ''execution'', ''analysis'', ''requirement'']"

definition ALLOWED_INTAKE_TYPES :: "string list" where
  "ALLOWED_INTAKE_TYPES = [''requirement'', ''planning'', ''execution'', ''analysis'']"

definition insert_task :: "task \<Rightarrow> db \<Rightarrow> exn + db" where
  "insert_task t d =
     (if t_id t \<in> t_id ` set (tasks d) then Inl (IntegrityError ''pk_task'')
      else if t_task_number t \<in> t_task_number ` set (tasks d) then Inl (IntegrityError ''task_task_number_key'')
      else if t_idempotency_key t \<noteq> None \<and> t_idempotency_key t \<in> t_idempotency_key ` set (tasks d)
        then Inl (IntegrityError ''task_idempotency_key_key'')
      else if t_created_by_type t \<notin> {''user'', ''agent''} then Inl (IntegrityError ''ck_task_created_by_type_allowed'')
      else if t_type t \<notin> set ALLOWED_TASK_TYPES then Inl (IntegrityError ''ck_task_type_allowed'')
      else if t_requirement_id t \<noteq> None \<and> t_requirement_id t \<notin> (Some \<circ> r_id) ` set (requirements d)
        then Inl (IntegrityError ''task_requirement_id_fkey'')
      else Inr (d\<lparr>tasks := tasks d @ [t]\<rparr>))"

definition insert_requirement :: "uuid list \<Rightarrow> requirement \<Rightarrow> db \<Rightarrow> exn + db" where
  "insert_requirement projects r d =
     (if r_id r \<in> r_id ` set (requirements d) then Inl (IntegrityError ''pk_requirement'')
      else if r_status r \<notin> {''draft'', ''approved'', ''rejected'', ''archived''}
        then Inl (IntegrityError ''ck_requirement_status_allowed'')
      else if r_project_id r \<noteq> None \<and> r_project_id r \<notin> Some ` set projects
        then Inl (IntegrityError ''requirement_project_id_fkey'')
      else Inr (d\<lparr>requirements := requirements d @ [r]\<rparr>))"

section \<open>Creating tasks\<close>

definition DEFAULT_TASK_MAX_RETRIES :: int where
  "DEFAULT_TASK_MAX_RETRIES = 3"

definition validate_task_type :: "string \<Rightarrow> exn + string" where
  "validate_task_type ty =
     (if ty \<notin> set ALLOWED_INTAKE_TYPES then
        Inl (ValueError (''Invalid task type '' @ [CHR 0x27] @ ty @ [CHR 0x27] @ ''. Allowed intake types: '' @
          join_with '', '' [''analysis'', ''execution'', ''planning'', ''requirement'']))
      else Inr ty)"

record task_args =
  ta_prompt :: string
  ta_type :: string
  ta_created_by_type :: string
  ta_created_by_ref :: string
  ta_max_retries :: int
  ta_requirement_id :: "uuid option"
  ta_idempotency_key :: "string option"

text \<open>What the database supplies: the dialect, the identity value, keys, time and outcome.\<close>

record intake_db =
  id_sqlite :: bool
  id_identity :: int
  id_task_id :: uuid
  id_requirement_id :: uuid
  id_now :: datetime
  id_flush :: db_outcome
  id_commit :: db_outcome

definition allocate_sqlite_task_number :: "db \<Rightarrow> int" where
  "allocate_sqlite_task_number d =
     (if tasks d = [] then 1 else Max (set (map t_task_number (tasks d))) + 1)"

definition task_number_for :: "intake_db \<Rightarrow> db \<Rightarrow> int" where
  "task_number_for I d = (if id_sqlite I then allocate_sqlite_task_number d else id_identity I)"

definition new_task :: "intake_db \<Rightarrow> task_args \<Rightarrow> string \<Rightarrow> int \<Rightarrow> task" where
  "new_task I a ty n =
     \<lparr>t_id = id_task_id I, t_task_number = n, t_title = [], t_prompt = ta_prompt a, t_type = ty,
      t_status = TS_BACKLOG, t_execution_order = None, t_retry_count = 0,
      t_max_retries = ta_max_retries a, t_session_id = None, t_created_by_type = ta_created_by_type a,
      t_created_by_ref = ta_created_by_ref a, t_project_id = None, t_requirement_id = ta_requirement_id a,
      t_idempotency_key = ta_idempotency_key a, t_details = [], t_queued_at = None, t_locked_by = None,
      t_preparation_attempt_count = 0, t_last_preparation_error = None, t_branch_name = None,
      t_worktree_path = None, t_commit_sha_before = None, t_prepared_context_version = None,
      t_batch_id = None, t_allow_parallel_execution = False, t_created_at = id_now I, t_updated_at = id_now I\<rparr>"

text \<open>
  \<open>add\<close> and \<open>commit\<close>: an integrity error rolls back and counts as a conflict of the
  idempotency key whenever one was given, whatever constraint it was.
\<close>

definition persist_task :: "intake_db \<Rightarrow> task \<Rightarrow> session \<Rightarrow> (exn + task) \<times> session" where
  "persist_task I t s =
     (case insert_task t (working s) of
        Inl x \<Rightarrow> (Inl (if str_truthy (t_idempotency_key t)
            then IdempotencyError (the (t_idempotency_key t)) else x), rollback s)
      | Inr d \<Rightarrow>
          (case id_commit I of
             DbError m \<Rightarrow> (Inl (SQLAlchemyError m), s\<lparr>working := d\<rparr>)
           | DbOk \<Rightarrow> (Inr t, commit (s\<lparr>working := d\<rparr>))))"

text \<open>The cycle that follows a successful commit, and the arguments it depends on.\<close>

record 'g trigger =
  tr_git :: "'g git_env"
  tr_config :: git_config
  tr_worker :: string
  tr_others :: "db \<Rightarrow> db"
  tr_lock :: db_outcome
  tr_release :: db_outcome
  tr_batch_id :: string

definition fire :: "'g trigger \<Rightarrow> datetime \<Rightarrow> session \<times> 'g \<Rightarrow> bool \<times> session \<times> 'g" where
  "fire T now sg = trigger_orchestrator (tr_git T) (tr_config T) (tr_worker T) (tr_others T)
     (tr_lock T) (tr_release T) now (tr_batch_id T) sg"

definition then_fire :: "'g trigger \<Rightarrow> datetime \<Rightarrow> (exn + 'a) \<times> session \<Rightarrow> 'g \<Rightarrow> (exn + 'a) \<times> session \<times> 'g" where
  "then_fire T now r g = (case r of
       (Inl x, s) \<Rightarrow> (Inl x, s, g)
     | (Inr t, s) \<Rightarrow> (case fire T now (s, g) of (ok, s', g') \<Rightarrow> (Inr t, s', g')))"

definition create_task :: "'g trigger \<Rightarrow> intake_db \<Rightarrow> task_args \<Rightarrow> session \<times> 'g \<Rightarrow>
    (exn + task) \<times> session \<times> 'g" where
  "create_task T I a sg = (case sg of (s, g) \<Rightarrow>
     (case validate_task_type (ta_type a) of
        Inl x \<Rightarrow> (Inl x, s, g)
      | Inr ty \<Rightarrow>
          then_fire T (id_now I)
            (persist_task I (new_task I a ty (task_number_for I (working s))) s) g))"

section \<open>Creating requirements\<close>

definition checked_requirement :: "string \<Rightarrow> string \<Rightarrow> exn + string \<times> string" where
  "checked_requirement title description =
     (let t = strip title; d = strip description in
      if t = [] then Inl (ValueError ''Requirement title must not be empty'')
      else if length t > 255 then Inl (ValueError ''Requirement title must not exceed 255 characters'')
      else if d = [] then Inl (ValueError ''Requirement description must not be empty'')
      else Inr (t, d))"

definition new_requirement :: "intake_db \<Rightarrow> string \<Rightarrow> string \<Rightarrow> string \<Rightarrow> uuid option \<Rightarrow> requirement" where
  "new_requirement I title description st project =
     \<lparr>r_id = id_requirement_id I, r_title = title, r_description = description, r_status = st,
      r_project_id = project, r_created_at = id_now I, r_updated_at = id_now I\<rparr>"

definition create_requirement :: "uuid list \<Rightarrow> intake_db \<Rightarrow> string \<Rightarrow> string \<Rightarrow> string \<Rightarrow> uuid option \<Rightarrow>
    session \<Rightarrow> (exn + requirement) \<times> session" where
  "create_requirement projects I title description st project s =
     (case checked_requirement title description of
        Inl x \<Rightarrow> (Inl x, s)
      | Inr (t, d) \<Rightarrow>
          if st \<notin> {''draft'', ''approved'', ''rejected'', ''archived''} then
            (Inl (ValueError (''Invalid requirement status '' @ [CHR 0x27] @ st @ [CHR 0x27] @ ''. Allowed statuses: '' @
               join_with '', '' [''approved'', ''archived'', ''draft'', ''rejected''])), s)
          else (let r = new_requirement I t d st project in
            case insert_requirement projects r (working s) of
              Inl x \<Rightarrow> (Inl x, rollback s)
            | Inr d' \<Rightarrow>
                (case id_commit I of
                   DbError m \<Rightarrow> (Inl (SQLAlchemyError m), s\<lparr>working := d'\<rparr>)
                 | DbOk \<Rightarrow> (Inr r, commit (s\<lparr>working := d'\<rparr>)))))"

text \<open>Requirement and planning task in one transaction; the flush comes before the task.\<close>

definition create_task_from_requirement :: "'g trigger \<Rightarrow> intake_db \<Rightarrow> string \<Rightarrow> string \<Rightarrow> task_args \<Rightarrow>
    session \<times> 'g \<Rightarrow> (exn + requirement \<times> task) \<times> session \<times> 'g" where
  "create_task_from_requirement T I title description a sg = (case sg of (s, g) \<Rightarrow>
     (case checked_requirement title description of
        Inl x \<Rightarrow> (Inl x, s, g)
      | Inr (t, d) \<Rightarrow>
          (let r = new_requirement I t d (requirement_status_value RS_DRAFT) None in
           case insert_requirement [] r (working s) of
             Inl x \<Rightarrow> (Inl x, s, g)
           | Inr d1 \<Rightarrow>
               (case id_flush I of
                  DbError m \<Rightarrow> (Inl (SQLAlchemyError m), s, g)
                | DbOk \<Rightarrow>
                    then_fire T (id_now I)
                      (case persist_task I (new_task I (a\<lparr>ta_requirement_id := Some (r_id r)\<rparr>) ''planning''
                              (task_number_for I d1)) (s\<lparr>working := d1\<rparr>) of
                         (Inl x, s') \<Rightarrow> (Inl x, s') | (Inr t, s') \<Rightarrow> (Inr (r, t), s')) g))))"

definition get_task_status :: "db \<Rightarrow> int \<Rightarrow> exn + int \<times> string" where
  "get_task_status d n = (case filter (\<lambda>t. t_task_number t = n) (tasks d) of
       [] \<Rightarrow> Inl (TaskNotFoundError n)
     | [t] \<Rightarrow> Inr (t_task_number t, task_status_value (t_status t))
     | _ \<Rightarrow> Inl (SQLAlchemyError ''Multiple rows were found when one or none was required''))"

section \<open>The endpoints\<close>

record task_payload =
  tp_prompt :: string
  tp_type :: string
  tp_created_by_type :: string
  tp_created_by_ref :: string
  tp_title :: "string option"
  tp_idempotency_key :: "string option"

text \<open>The field constraints of \<open>TaskCreateRequest\<close>; FastAPI answers 422 when one is violated.\<close>

definition opt_length :: "nat \<Rightarrow> string option \<Rightarrow> bool" where
  "opt_length m x = (case x of None \<Rightarrow> True | Some s \<Rightarrow> s \<noteq> [] \<and> length s \<le> m)"

definition valid_payload :: "task_payload \<Rightarrow> bool" where
  "valid_payload p = (tp_prompt p \<noteq> [] \<and> tp_type p \<noteq> [] \<and> length (tp_type p) \<le> 32 \<and>
     tp_created_by_type p \<in> {''user'', ''agent''} \<and> tp_created_by_ref p \<noteq> [] \<and>
     length (tp_created_by_ref p) \<le> 255 \<and> opt_length 255 (tp_title p) \<and> opt_length 255 (tp_idempotency_key p))"

datatype http_answer = Http_Created int string | Http_Ok json | Http_Error int json

definition intake_validation_error :: "string \<Rightarrow> string \<Rightarrow> string \<Rightarrow> http_answer" where
  "intake_validation_error fld reason expected = Http_Error 422
     (JObj [(''detail'', JStr ''Intake validation failed''),
        (''errors'', JList [JObj [(''field'', JStr fld), (''reason'', JStr reason), (''expected'', JStr expected)]])])"

definition idempotency_conflict :: "string \<Rightarrow> http_answer" where
  "idempotency_conflict k = Http_Error 409
     (JStr (''Duplicate request: task with idempotency_key '' @ [CHR 0x27] @ k @ [CHR 0x27] @ '' already exists.''))"

definition internal_error :: http_answer where
  "internal_error = Http_Error 500 (JStr ''Internal error during task creation'')"

definition payload_args :: "task_payload \<Rightarrow> task_args" where
  "payload_args p = \<lparr>ta_prompt = tp_prompt p, ta_type = tp_type p, ta_created_by_type = tp_created_by_type p,
     ta_created_by_ref = tp_created_by_ref p, ta_max_retries = DEFAULT_TASK_MAX_RETRIES,
     ta_requirement_id = None, ta_idempotency_key = tp_idempotency_key p\<rparr>"

fun requirement_error :: "exn \<Rightarrow> http_answer" where
  "requirement_error (ValueError m) =
     (if str_in ''title'' (lower m)
      then intake_validation_error ''title'' m ''non-empty string (max 255 chars)''
      else intake_validation_error ''prompt'' m ''non-empty string'')"
| "requirement_error (IdempotencyError k) = idempotency_conflict k"
| "requirement_error x = internal_error"

fun task_error :: "exn \<Rightarrow> http_answer" where
  "task_error (IdempotencyError k) = idempotency_conflict k"
| "task_error x = internal_error"

text \<open>The answer reads the status from the task row as the cycle has left it.\<close>

definition created :: "task \<Rightarrow> session \<Rightarrow> http_answer" where
  "created t s = Http_Created (t_task_number t)
     (task_status_value (case get_task (working s) (t_id t) of None \<Rightarrow> t_status t | Some u \<Rightarrow> t_status u))"

definition create_task_endpoint :: "'g trigger \<Rightarrow> intake_db \<Rightarrow> task_payload \<Rightarrow> session \<times> 'g \<Rightarrow>
    http_answer \<times> session \<times> 'g" where
  "create_task_endpoint T I p sg =
     (case validate_task_type (tp_type p) of
        Inl x \<Rightarrow> (intake_validation_error ''type'' (exn_str x)
            (join_with '', '' [''analysis'', ''execution'', ''planning'', ''requirement'']), sg)
      | Inr ty \<Rightarrow>
          if tp_type p = ''requirement'' then
            (case create_task_from_requirement T I (case tp_title p of None \<Rightarrow> [] | Some t \<Rightarrow> t) (tp_prompt p)
                    (payload_args p) sg of
               (Inl x, sg') \<Rightarrow> (requirement_error x, sg')
             | (Inr (r, t), s', g') \<Rightarrow> (created t s', s', g'))
          else
            (case create_task T I (payload_args p) sg of
               (Inl x, sg') \<Rightarrow> (task_error x, sg')
             | (Inr t, s', g') \<Rightarrow> (created t s', s', g')))"

definition intake :: "'g trigger \<Rightarrow> intake_db \<Rightarrow> task_payload \<Rightarrow> session \<times> 'g \<Rightarrow> http_answer \<times> session \<times> 'g" where
  "intake T I p sg = (if valid_payload p then create_task_endpoint T I p sg
     else (Http_Error 422 (JStr ''validation error''), sg))"

definition get_task_status_endpoint :: "db \<Rightarrow> int \<Rightarrow> exn + http_answer" where
  "get_task_status_endpoint d n = (case get_task_status d n of
       Inr (k, st) \<Rightarrow> Inr (Http_Ok (JObj [(''task_number'', JInt k), (''status'', JStr st)]))
     | Inl (TaskNotFoundError k) \<Rightarrow> Inr (Http_Error 404 (JStr (''Task '' @ int_str k @ '' not found.'')))
     | Inl x \<Rightarrow> Inl x)"

section \<open>Lemmas\<close>

text \<open>What the schema and the services keep of the task table.\<close>

definition keys_of_tasks :: "task list \<Rightarrow> string list" where
  "keys_of_tasks ts = concat (map (\<lambda>t. case t_idempotency_key t of None \<Rightarrow> [] | Some k \<Rightarrow> [k]) ts)"

definition tasks_ok :: "db \<Rightarrow> bool" where
  "tasks_ok d = (wf_db d \<and> distinct (map t_task_number (tasks d)) \<and> distinct (keys_of_tasks (tasks d)) \<and>
     (\<forall>t \<in> set (tasks d). t_type t \<in> set ALLOWED_TASK_TYPES \<and>
        (\<forall>r. t_requirement_id t = Some r \<longrightarrow> r \<in> r_id ` set (requirements d))))"

lemma set_keys_of_tasks: "k \<in> set (keys_of_tasks ts) \<longleftrightarrow> Some k \<in> t_idempotency_key ` set ts"
  by (induction ts) (auto simp: keys_of_tasks_def split: option.splits)

lemma wf_db_append_task:
  assumes "wf_db d" "t_id t \<notin> t_id ` set (tasks d)"
  shows "wf_db (d\<lparr>tasks := tasks d @ [t]\<rparr>)"
  using assms by (auto simp: wf_db_def unique_active_def active_for_def events_unique_def)

lemma insert_task_Inr:
  assumes "insert_task t d = Inr d'"
  shows "d' = d\<lparr>tasks := tasks d @ [t]\<rparr> \<and> t_id t \<notin> t_id ` set (tasks d) \<and>
    t_task_number t \<notin> t_task_number ` set (tasks d) \<and>
    (t_idempotency_key t = None \<or> t_idempotency_key t \<notin> t_idempotency_key ` set (tasks d)) \<and>
    t_type t \<in> set ALLOWED_TASK_TYPES \<and>
    (t_requirement_id t = None \<or> t_requirement_id t \<in> (Some \<circ> r_id) ` set (requirements d))"
  using assms unfolding insert_task_def by (simp split: if_splits)

lemma insert_task_ok [inv_intros]:
  assumes ok: "tasks_ok d" and ins: "insert_task t d = Inr d'"
  shows "tasks_ok d'"
proof -
  note n = insert_task_Inr [OF ins]
  then have d': "d' = d\<lparr>tasks := tasks d @ [t]\<rparr>" by simp
  have "wf_db d'" using n ok wf_db_append_task [of d t] by (simp add: tasks_ok_def)
  moreover have "distinct (map t_task_number (tasks d'))" using n ok by (simp add: tasks_ok_def)
  moreover have "keys_of_tasks (tasks d') = keys_of_tasks (tasks d) @
      (case t_idempotency_key t of None \<Rightarrow> [] | Some k \<Rightarrow> [k])" by (simp add: d' keys_of_tasks_def)
  then have "distinct (keys_of_tasks (tasks d'))"
    using n ok set_keys_of_tasks by (auto simp: tasks_ok_def split: option.splits)
  moreover have "requirements d' = requirements d" "set (tasks d') = insert t (set (tasks d))" by (simp_all add: d')
  moreover have "\<forall>r. t_requirement_id t = Some r \<longrightarrow> r \<in> r_id ` set (requirements d)"
    using n by (auto simp: image_iff)
  ultimately show ?thesis using ok n unfolding tasks_ok_def by simp
qed

lemma new_task_simps [simp]:
  "t_id (new_task I a ty n) = id_task_id I" "t_task_number (new_task I a ty n) = n"
  "t_type (new_task I a ty n) = ty" "t_status (new_task I a ty n) = TS_BACKLOG"
  "t_idempotency_key (new_task I a ty n) = ta_idempotency_key a"
  "t_requirement_id (new_task I a ty n) = ta_requirement_id a"
  "t_created_by_type (new_task I a ty n) = ta_created_by_type a"
  by (simp_all add: new_task_def)

text \<open>On SQLite the numbers are a log: every new one is above all others.\<close>

definition append_numbered :: "intake_db \<times> task_args \<times> string \<Rightarrow> db \<Rightarrow> db" where
  "append_numbered x d = (case x of (I, a, ty) \<Rightarrow>
     d\<lparr>tasks := tasks d @ [new_task I a ty (allocate_sqlite_task_number d)]\<rparr>)"

lemma allocated_above: "n \<in> set (map t_task_number (tasks d)) \<Longrightarrow> n < allocate_sqlite_task_number d"
proof -
  assume n: "n \<in> set (map t_task_number (tasks d))"
  then have "n \<le> Max (set (map t_task_number (tasks d)))" by (intro Max_ge) simp_all
  with n show ?thesis by (auto simp: allocate_sqlite_task_number_def simp del: set_map)
qed

interpretation task_numbers: sequence_log "\<lambda>d. map t_task_number (tasks d)" append_numbered
proof
  fix x :: "intake_db \<times> task_args \<times> string" and d
  obtain I a ty where x: "x = (I, a, ty)" by (cases x)
  show "\<exists>n. map t_task_number (tasks (append_numbered x d)) = map t_task_number (tasks d) @ [n] \<and>
      (\<forall>m \<in> set (map t_task_number (tasks d)). m < n)"
    using allocated_above [of _ d] by (simp add: x append_numbered_def del: set_map)
qed

lemma persist_task_cases:
  assumes "persist_task I t s = (r, s')"
  shows "(\<exists>d. r = Inr t \<and> insert_task t (working s) = Inr d \<and> working s' = d \<and> committed s' = d \<and> id_commit I = DbOk) \<or>
    (isl r \<and> committed s' = committed s)"
  using assms by (auto simp: persist_task_def split: sum.splits db_outcome.splits)

section \<open>Properties\<close>

lemma intake_rejects:
  "Http_Created n st \<notin> {intake_validation_error a b c, idempotency_conflict k, internal_error}"
  by (simp add: intake_validation_error_def idempotency_conflict_def internal_error_def)

lemma error_not_created: "requirement_error x \<noteq> Http_Created n st" "task_error x \<noteq> Http_Created n st"
  by (cases x; simp add: intake_validation_error_def idempotency_conflict_def internal_error_def)+

lemma not_created:
  "(\<And>n st. a \<noteq> Http_Created n st) \<Longrightarrow>
   (case a of Http_Created n st \<Rightarrow> f n st | Http_Ok x \<Rightarrow> P | Http_Error c x \<Rightarrow> P) = P"
  by (cases a) auto

lemma then_fire_Inl [simp]: "then_fire T now (Inl x, s) g = (Inl x, s, g)"
  by (simp add: then_fire_def)

lemma isl_then_fire [simp]: "isl (fst (then_fire T now r g)) = isl (fst r)"
  by (simp add: then_fire_def split: prod.splits sum.splits)

text \<open>The part of an intake before the cycle: what it commits.\<close>

definition committed_intake :: "task_payload \<Rightarrow> db \<Rightarrow> task \<Rightarrow> db \<Rightarrow> bool" where
  "committed_intake p d t d' =
     (tasks d' = tasks d @ [t] \<and> executions d' = executions d \<and> events d' = events d \<and>
      t_status t = TS_BACKLOG \<and> t_idempotency_key t = tp_idempotency_key p \<and>
      (if tp_type p = ''requirement''
       then t_type t = ''planning'' \<and> (\<exists>r. requirements d' = requirements d @ [r] \<and>
         r_status r = ''draft'' \<and> t_requirement_id t = Some (r_id r) \<and> r_title r = strip (the (tp_title p)))
       else t_type t = tp_type p \<and> requirements d' = requirements d \<and> t_requirement_id t = None))"

lemma create_task_cases:
  assumes "create_task T I a (s, g) = (r, s', g')"
  shows "(\<exists>t s1 ok. r = Inr t \<and> t = new_task I a (ta_type a) (task_number_for I (working s)) \<and>
      insert_task t (working s) = Inr (working s1) \<and> committed s1 = working s1 \<and>
      fire T (id_now I) (s1, g) = (ok, s', g')) \<or>
    (isl r \<and> committed s' = committed s \<and> g' = g)"
proof (cases "validate_task_type (ta_type a)")
  case (Inl x)
  with assms show ?thesis by (auto simp: create_task_def)
next
  case (Inr ty)
  then have ty: "ty = ta_type a" by (auto simp: validate_task_type_def split: if_splits)
  let ?t = "new_task I a ty (task_number_for I (working s))"
  obtain q s1 where p: "persist_task I ?t s = (q, s1)" by (cases "persist_task I ?t s")
  obtain ok s2 g2 where f: "fire T (id_now I) (s1, g) = (ok, s2, g2)" by (cases "fire T (id_now I) (s1, g)")
  show ?thesis
  proof (cases q)
    case (Inl x)
    with p persist_task_cases [OF p] assms Inr show ?thesis
      by (auto simp: create_task_def)
  next
    case r: (Inr u)
    have c: "u = ?t" "insert_task ?t (working s) = Inr (working s1)" "committed s1 = working s1"
      using persist_task_cases [OF p] r by auto
    have "(r, s', g') = (Inr u, s2, g2)"
      using assms Inr p f r by (simp add: create_task_def then_fire_def)
    with c f ty show ?thesis by blast
  qed
qed

lemma create_from_requirement_cases:
  assumes "create_task_from_requirement T I title description a (s, g) = (r, s', g')"
  shows "(\<exists>rq t s1 d1 ok. r = Inr (rq, t) \<and>
      insert_requirement [] rq (working s) = Inr d1 \<and>
      r_status rq = ''draft'' \<and> r_title rq = strip title \<and>
      t = new_task I (a\<lparr>ta_requirement_id := Some (r_id rq)\<rparr>) ''planning'' (task_number_for I d1) \<and>
      insert_task t d1 = Inr (working s1) \<and> committed s1 = working s1 \<and>
      fire T (id_now I) (s1, g) = (ok, s', g')) \<or>
    (isl r \<and> committed s' = committed s \<and> g' = g)"
proof (cases "checked_requirement title description")
  case (Inl x)
  with assms show ?thesis by (auto simp: create_task_from_requirement_def)
next
  case (Inr q)
  then have q: "q = (strip title, strip description)"
    by (auto simp: checked_requirement_def Let_def split: if_splits)
  let ?r = "new_requirement I (strip title) (strip description) (requirement_status_value RS_DRAFT) None"
  have rq: "r_status ?r = ''draft''" "r_title ?r = strip title" by (simp_all add: new_requirement_def)
  show ?thesis
  proof (cases "insert_requirement [] ?r (working s)")
    case (Inl x)
    with Inr q assms show ?thesis by (auto simp: create_task_from_requirement_def)
  next
    case ins: (Inr d1)
    let ?t = "new_task I (a\<lparr>ta_requirement_id := Some (r_id ?r)\<rparr>) ''planning'' (task_number_for I d1)"
    obtain y s1 where p: "persist_task I ?t (s\<lparr>working := d1\<rparr>) = (y, s1)"
      by (cases "persist_task I ?t (s\<lparr>working := d1\<rparr>)")
    obtain ok s2 g2 where f: "fire T (id_now I) (s1, g) = (ok, s2, g2)" by (cases "fire T (id_now I) (s1, g)")
    show ?thesis
    proof (cases "id_flush I")
      case (DbError m)
      with Inr q ins assms show ?thesis by (auto simp: create_task_from_requirement_def)
    next
      case DbOk
      show ?thesis
      proof (cases y)
        case (Inl x)
        with Inr q ins DbOk p persist_task_cases [OF p] assms show ?thesis
          by (auto simp: create_task_from_requirement_def)
      next
        case r: (Inr u)
        have c: "u = ?t" "insert_task ?t d1 = Inr (working s1)" "committed s1 = working s1"
          using persist_task_cases [OF p] r by auto
        have "(r, s', g') = (Inr (?r, u), s2, g2)"
          using assms Inr q ins DbOk p f r by (simp add: create_task_from_requirement_def then_fire_def)
        with c f ins rq show ?thesis by blast
      qed
    qed
  qed
qed

lemma direct_intake_outcome:
  assumes "intake T I p (s, g) = (ans, s', g')" and fresh: "working s = committed s"
    and True: "valid_payload p \<and> \<not> isl (validate_task_type (tp_type p))" and False: "tp_type p \<noteq> ''requirement''"
  shows "case ans of
     Http_Created n st \<Rightarrow> \<exists>t s1 ok. t_task_number t = n \<and> committed_intake p (committed s) t (committed s1) \<and>
       working s1 = committed s1 \<and> fire T (id_now I) (s1, g) = (ok, s', g')
   | _ \<Rightarrow> committed s' = committed s \<and> g' = g"
proof -
  from True obtain ty where ty: "validate_task_type (tp_type p) = Inr ty" by (cases "validate_task_type (tp_type p)") auto
  obtain r s2 g2 where c: "create_task T I (payload_args p) (s, g) = (r, s2, g2)"
    by (cases "create_task T I (payload_args p) (s, g)")
  have e: "(ans, s', g') = ((case r of Inl x \<Rightarrow> task_error x | Inr t \<Rightarrow> created t s2), s2, g2)"
    using assms(1) True ty False c by (auto simp: intake_def create_task_endpoint_def split: sum.splits)
  show ?thesis
  proof (cases r)
    case (Inl x)
    with e have a: "ans = task_error x" by simp
    from Inl create_task_cases [OF c] e show ?thesis
      unfolding a by (simp add: not_created error_not_created)
  next
    case (Inr t)
    then obtain s1 ok where t: "t = new_task I (payload_args p) (tp_type p) (task_number_for I (working s))"
      and ins: "insert_task t (working s) = Inr (working s1)"
      and s1: "committed s1 = working s1" "fire T (id_now I) (s1, g) = (ok, s2, g2)"
      using create_task_cases [OF c] by (auto simp: payload_args_def)
    have d: "working s1 = (working s)\<lparr>tasks := tasks (working s) @ [t]\<rparr>" using insert_task_Inr [OF ins] by simp
    have "committed_intake p (committed s) t (committed s1)"
      using False by (simp add: committed_intake_def s1 d fresh [symmetric] t payload_args_def)
    moreover have "ans = created t s2" "s' = s2" "g' = g2" using e Inr by simp_all
    ultimately show ?thesis using s1
      by (simp only: created_def http_answer.case) (intro exI [of _ t] exI [of _ s1] exI [of _ ok], simp)
  qed
qed

lemma requirement_intake_outcome:
  assumes "intake T I p (s, g) = (ans, s', g')" and fresh: "working s = committed s"
    and True: "valid_payload p \<and> \<not> isl (validate_task_type (tp_type p))" and req: "tp_type p = ''requirement''"
  shows "case ans of
     Http_Created n st \<Rightarrow> \<exists>t s1 ok. t_task_number t = n \<and> committed_intake p (committed s) t (committed s1) \<and>
       working s1 = committed s1 \<and> fire T (id_now I) (s1, g) = (ok, s', g')
   | _ \<Rightarrow> committed s' = committed s \<and> g' = g"
proof -
  from True obtain ty where ty: "validate_task_type (tp_type p) = Inr ty" by (cases "validate_task_type (tp_type p)") auto
  let ?title = "case tp_title p of None \<Rightarrow> [] | Some t \<Rightarrow> t"
  obtain r s2 g2 where c: "create_task_from_requirement T I ?title (tp_prompt p) (payload_args p) (s, g) = (r, s2, g2)"
    by (cases "create_task_from_requirement T I ?title (tp_prompt p) (payload_args p) (s, g)")
  have e: "(ans, s', g') = ((case r of Inl x \<Rightarrow> requirement_error x | Inr (q, t) \<Rightarrow> created t s2), s2, g2)"
    using assms(1) True ty req c by (auto simp: intake_def create_task_endpoint_def split: sum.splits prod.splits)
  show ?thesis
  proof (cases r)
    case (Inl x)
    with e have a: "ans = requirement_error x" by simp
    from Inl create_from_requirement_cases [OF c] e show ?thesis
      unfolding a by (simp add: not_created error_not_created)
  next
    case (Inr q)
    obtain rq t where q: "q = (rq, t)" by (cases q)
    with Inr create_from_requirement_cases [OF c] obtain s1 d1 ok where
      i1: "insert_requirement [] rq (working s) = Inr d1" and rq: "r_status rq = ''draft''" "r_title rq = strip ?title"
      and t: "t = new_task I ((payload_args p)\<lparr>ta_requirement_id := Some (r_id rq)\<rparr>) ''planning'' (task_number_for I d1)"
      and ins: "insert_task t d1 = Inr (working s1)"
      and s1: "committed s1 = working s1" "fire T (id_now I) (s1, g) = (ok, s2, g2)" by auto
    have d1: "d1 = (working s)\<lparr>requirements := requirements (working s) @ [rq]\<rparr>"
      using i1 by (auto simp: insert_requirement_def split: if_splits)
    have d: "working s1 = d1\<lparr>tasks := tasks d1 @ [t]\<rparr>" using insert_task_Inr [OF ins] by simp
    have tt: "?title \<noteq> []"
    proof
      assume "?title = []"
      then have "create_task_from_requirement T I ?title (tp_prompt p) (payload_args p) (s, g) =
          (Inl (ValueError ''Requirement title must not be empty''), s, g)"
        by (simp add: create_task_from_requirement_def checked_requirement_def strip_def lstrip_def rstrip_def)
      with c Inr show False by simp
    qed
    have "committed_intake p (committed s) t (committed s1)"
      using req rq tt by (auto simp: committed_intake_def s1 d d1 fresh [symmetric] t payload_args_def split: option.splits)
    moreover have "ans = created t s2" "s' = s2" "g' = g2" using e Inr q by simp_all
    ultimately show ?thesis using s1
      by (simp only: created_def http_answer.case) (intro exI [of _ t] exI [of _ s1] exI [of _ ok], simp)
  qed
qed

lemma intake_outcome:
  assumes "intake T I p (s, g) = (ans, s', g')" and "working s = committed s"
  shows "case ans of
     Http_Created n st \<Rightarrow> \<exists>t s1 ok. t_task_number t = n \<and> committed_intake p (committed s) t (committed s1) \<and>
       working s1 = committed s1 \<and> fire T (id_now I) (s1, g) = (ok, s', g')
   | _ \<Rightarrow> committed s' = committed s \<and> g' = g"
proof (cases "valid_payload p \<and> \<not> isl (validate_task_type (tp_type p))")
  case False
  then have "(s', g') = (s, g) \<and> (\<forall>n st. ans \<noteq> Http_Created n st)"
    using assms(1) by (auto simp: intake_def create_task_endpoint_def intake_validation_error_def split: sum.splits if_splits)
  then show ?thesis by (cases ans) auto
next
  case True
  then show ?thesis
    using direct_intake_outcome [OF assms True] requirement_intake_outcome [OF assms True] by (cases "tp_type p = ''requirement''") blast+
qed


definition sample_trigger :: "sim_world trigger" where
  "sample_trigger = \<lparr>tr_git = sim_env, tr_config = sim_cfg, tr_worker = ''w'', tr_others = (\<lambda>d. d),
     tr_lock = DbError ''down'', tr_release = DbOk, tr_batch_id = ''b''\<rparr>"

definition sample_intake :: intake_db where
  "sample_intake = \<lparr>id_sqlite = True, id_identity = 0, id_task_id = 9, id_requirement_id = 5, id_now = 0,
     id_flush = DbOk, id_commit = DbOk\<rparr>"

definition sample_payload :: "string \<Rightarrow> string option \<Rightarrow> task_payload" where
  "sample_payload ty key = \<lparr>tp_prompt = ''do'', tp_type = ty, tp_created_by_type = ''user'',
     tp_created_by_ref = ''u'', tp_title = Some ''t'', tp_idempotency_key = key\<rparr>"


lemma repeated_key_not_created:
  assumes "tp_idempotency_key p = Some k" "Some k \<in> t_idempotency_key ` set (tasks (working s))" "valid_payload p"
    and r: "intake T I p (s, g) = (ans, s', g')"
  shows "ans \<noteq> Http_Created n st"
proof
  assume "ans = Http_Created n st"
  have dup: "insert_task t d' \<noteq> Inr d" if "t_idempotency_key t = Some k"
      "Some k \<in> t_idempotency_key ` set (tasks d')" for t d d'
    using that insert_task_Inr [of t d' d] by auto
  show False
  proof (cases "tp_type p = ''requirement''")
    case False
    obtain q s2 g2 where c: "create_task T I (payload_args p) (s, g) = (q, s2, g2)"
      by (cases "create_task T I (payload_args p) (s, g)")
    have key: "t_idempotency_key (new_task I (payload_args p) ty n) = Some k" for ty n
      using assms(1) by (simp add: payload_args_def)
    have "isl q" using create_task_cases [OF c] dup [OF key assms(2)] by blast
    with r c False error_not_created \<open>ans = Http_Created n st\<close> assms(3) show False
      by (cases q) (auto simp: intake_def create_task_endpoint_def intake_validation_error_def split: sum.splits)
  next
    case True
    let ?title = "case tp_title p of None \<Rightarrow> [] | Some t \<Rightarrow> t"
    obtain q s2 g2 where c: "create_task_from_requirement T I ?title (tp_prompt p) (payload_args p) (s, g) = (q, s2, g2)"
      by (cases "create_task_from_requirement T I ?title (tp_prompt p) (payload_args p) (s, g)")
    have tk: "tasks d1 = tasks (working s)" if "insert_requirement [] rq (working s) = Inr d1" for rq d1
      using that by (auto simp: insert_requirement_def split: if_splits)
    have "isl q" using create_from_requirement_cases [OF c]
    proof (elim disjE exE conjE)
      fix rq t s1 d1
      assume i: "insert_requirement [] rq (working s) = Inr d1"
        and t: "t = new_task I ((payload_args p)\<lparr>ta_requirement_id := Some (r_id rq)\<rparr>) ''planning'' (task_number_for I d1)"
        and ins: "insert_task t d1 = Inr (working s1)"
      have "t_idempotency_key t = Some k" using t assms(1) by (simp add: payload_args_def)
      with dup [of t d1 "working s1"] ins tk [OF i] assms(2) show ?thesis by simp
    qed
    with r c True error_not_created \<open>ans = Http_Created n st\<close> assms(3) show False
      by (cases q) (auto simp: intake_def create_task_endpoint_def intake_validation_error_def split: sum.splits)
  qed
qed

lemma repeated_key_conflict:
  assumes "tp_idempotency_key p = Some k" "Some k \<in> t_idempotency_key ` set (tasks (working s))" "valid_payload p"
    and r: "intake T I p (s, g) = (ans, s', g')" and ty: "tp_type p \<in> {''planning'', ''execution'', ''analysis''}"
  shows "ans = idempotency_conflict k"
proof -
  have k: "k \<noteq> []" using assms(1,3) by (auto simp: valid_payload_def opt_length_def)
  let ?t = "new_task I (payload_args p) (tp_type p) (task_number_for I (working s))"
  have key: "t_idempotency_key ?t = Some k" using assms(1) by (simp add: payload_args_def)
  have "isl (insert_task ?t (working s))"
    using insert_task_Inr [of ?t "working s"] key assms(2) by (cases "insert_task ?t (working s)") auto
  then have p: "fst (persist_task I ?t s) = Inl (IdempotencyError k)"
    using key k by (cases "insert_task ?t (working s)") (simp_all add: persist_task_def)
  have v: "validate_task_type (tp_type p) = Inr (tp_type p)" "tp_type p \<noteq> ''requirement''"
    using ty by (auto simp: validate_task_type_def ALLOWED_INTAKE_TYPES_def)
  have ta: "ta_type (payload_args p) = tp_type p" by (simp add: payload_args_def)
  have "fst (create_task T I (payload_args p) (s, g)) = Inl (IdempotencyError k)"
    using p v ta by (cases "persist_task I ?t s") (simp add: create_task_def)
  then show ?thesis using r v assms(3)
    by (cases "create_task T I (payload_args p) (s, g)") (simp add: intake_def create_task_endpoint_def)
qed

text \<open>
  C14: Idempotency keys. When the database has a task with the key of a request, no request
  with that key commits anything: a direct task is answered with the 409 conflict, and a
  requirement with that conflict, a validation error or an internal error.
\<close>

theorem intake_idempotent:
  assumes "tp_idempotency_key p = Some k" and "Some k \<in> t_idempotency_key ` set (tasks (working s))"
    and "valid_payload p" and "working s = committed s"
  shows "committed (fst (snd (intake T I p (s, g)))) = committed s \<and>
    (\<forall>n st. fst (intake T I p (s, g)) \<noteq> Http_Created n st) \<and>
    (tp_type p \<in> {''planning'', ''execution'', ''analysis''} \<longrightarrow> fst (intake T I p (s, g)) = idempotency_conflict k)"
proof -
  obtain ans s' g' where r: "intake T I p (s, g) = (ans, s', g')" by (cases "intake T I p (s, g)")
  have no: "ans \<noteq> Http_Created n st" for n st by (rule repeated_key_not_created [OF assms(1-3) r])
  have "committed s' = committed s" using intake_outcome [OF r assms(4)] no by (simp add: not_created)
  with no repeated_key_conflict [OF assms(1-3) r] show ?thesis by (simp add: r)
qed

definition keyed_db :: db where
  "keyed_db = sample_db\<lparr>tasks := [(sample_task 1 1 TS_BACKLOG)\<lparr>t_idempotency_key := Some ''k''\<rparr>]\<rparr>"

theorem intake_idempotent_witness:
  "fst (intake sample_trigger sample_intake (sample_payload ''analysis'' (Some ''k'')) (open_session keyed_db, ([], [], []))) =
     idempotency_conflict ''k'' \<and>
   committed (fst (snd (intake sample_trigger sample_intake (sample_payload ''analysis'' (Some ''k''))
     (open_session keyed_db, ([], [], []))))) = keyed_db"
  using intake_idempotent [where p = "sample_payload ''analysis'' (Some ''k'')" and k = "''k''"
      and s = "open_session keyed_db" and T = sample_trigger and I = sample_intake and g = "([], [], [])"]
  by (simp add: sample_payload_def keyed_db_def sample_db_def sample_task_def valid_payload_def opt_length_def)

text \<open>
  What persisting keeps. Task numbers and idempotency keys stay unique, types allowed
  and requirement links valid in the working and in the committed database, whatever the
  task and however the commit ends; on SQLite the allocated number is above all others, so
  it never collides.
\<close>

theorem persist_keeps_tasks_ok:
  assumes "tasks_ok (working s)" and "tasks_ok (committed s)"
  shows "tasks_ok (working (snd (persist_task I t s))) \<and> tasks_ok (committed (snd (persist_task I t s))) \<and>
    (id_sqlite I \<longrightarrow> (\<forall>u \<in> set (tasks (working s)). t_task_number u < task_number_for I (working s)))"
proof -
  have "tasks_ok (working (snd (persist_task I t s))) \<and> tasks_ok (committed (snd (persist_task I t s)))"
    using assms insert_task_ok [OF assms(1)]
    by (auto simp: persist_task_def split: sum.splits db_outcome.splits)
  then show ?thesis using allocated_above [of _ "working s"] by (auto simp: task_number_for_def)
qed

theorem persist_keeps_tasks_ok_witness:
  "tasks_ok (committed (snd (persist_task sample_intake (sample_task 9 4 TS_BACKLOG) (open_session sample_db))))"
proof -
  have "tasks_ok sample_db"
    using sample_db_wf by (simp add: tasks_ok_def keys_of_tasks_def sample_db_def sample_task_def ALLOWED_TASK_TYPES_def)
  then show ?thesis
    using persist_keeps_tasks_ok [where s = "open_session sample_db" and I = sample_intake and t = "sample_task 9 4 TS_BACKLOG"]
    by simp
qed

text \<open>
  A created task can be looked up. After a task has been persisted into a database with
  unique numbers, the status query for its number finds exactly it and answers \<open>backlog\<close>,
  and the query for an unknown number is answered 404.
\<close>

theorem created_task_found:
  assumes "tasks_ok (working s)" and "persist_task I (new_task I a ty n) s = (Inr t, s')"
  shows "get_task_status (committed s') n = Inr (n, ''backlog'') \<and>
    (m \<noteq> n \<and> m \<notin> t_task_number ` set (tasks (working s)) \<longrightarrow>
      (\<exists>txt. get_task_status_endpoint (committed s') m = Inr (Http_Error 404 (JStr txt))))"
proof -
  obtain d where d: "t = new_task I a ty n" "insert_task t (working s) = Inr d" "committed s' = d"
    using persist_task_cases [OF assms(2)] by auto
  note i = insert_task_Inr [OF d(2)]
  have none: "filter (\<lambda>u. t_task_number u = k) (tasks (working s)) = []"
    if "k \<notin> t_task_number ` set (tasks (working s))" for k
    using that by (auto simp: filter_empty_conv)
  have "filter (\<lambda>u. t_task_number u = n) (tasks d) = [t]"
    using i d(1) none [of n] by simp
  then have 1: "get_task_status (committed s') n = Inr (n, ''backlog'')"
    by (simp add: get_task_status_def d)
  have "filter (\<lambda>u. t_task_number u = m) (tasks d) = []"
    if "m \<noteq> n" "m \<notin> t_task_number ` set (tasks (working s))"
    using i d(1) none [OF that(2)] that(1) by simp
  with 1 show ?thesis by (auto simp: get_task_status_endpoint_def get_task_status_def d(3))
qed

theorem created_task_found_witness:
  "\<exists>s' t. persist_task sample_intake (new_task sample_intake (payload_args (sample_payload ''analysis'' None)) ''analysis'' 4)
       (open_session sample_db) = (Inr t, s') \<and> get_task_status (committed s') 4 = Inr (4, ''backlog'')"
proof -
  let ?t = "new_task sample_intake (payload_args (sample_payload ''analysis'' None)) ''analysis'' 4"
  have "tasks_ok (working (open_session sample_db))"
    using sample_db_wf by (simp add: tasks_ok_def keys_of_tasks_def sample_db_def sample_task_def ALLOWED_TASK_TYPES_def)
  moreover obtain d where "persist_task sample_intake ?t (open_session sample_db) = (Inr ?t, commit ((open_session sample_db)\<lparr>working := d\<rparr>))"
    by (simp add: persist_task_def insert_task_def sample_db_def sample_task_def sample_intake_def payload_args_def
        sample_payload_def ALLOWED_TASK_TYPES_def new_task_def)
  ultimately show ?thesis using created_task_found by blast
qed

text \<open>
  Every integrity error counts as a duplicate. When a request carries an idempotency key,
  the violation of any constraint, such as a missing requirement, is reported as a conflict
  of the key, also when no task has this key.
\<close>

theorem integrity_error_reported_as_duplicate:
  assumes "ta_idempotency_key a = Some k" and "k \<noteq> []"
    and "ta_requirement_id a = Some r" and "r \<notin> r_id ` set (requirements (working s))"
  shows "fst (persist_task I (new_task I a ty n) s) = Inl (IdempotencyError k)"
proof -
  have "isl (insert_task (new_task I a ty n) (working s))"
    using insert_task_Inr [of "new_task I a ty n" "working s"] assms(3,4)
    by (cases "insert_task (new_task I a ty n) (working s)") auto
  then show ?thesis using assms(1,2)
    by (cases "insert_task (new_task I a ty n) (working s)") (simp_all add: persist_task_def)
qed

theorem integrity_error_reported_as_duplicate_witness:
  "fst (persist_task sample_intake (new_task sample_intake
      ((payload_args (sample_payload ''analysis'' (Some ''new'')))\<lparr>ta_requirement_id := Some 77\<rparr>) ''analysis'' 4)
      (open_session sample_db)) = Inl (IdempotencyError ''new'') \<and>
   Some ''new'' \<notin> t_idempotency_key ` set (tasks sample_db)"
  using integrity_error_reported_as_duplicate [where k = "''new''" and r = 77 and s = "open_session sample_db"
      and a = "(payload_args (sample_payload ''analysis'' (Some ''new'')))\<lparr>ta_requirement_id := Some 77\<rparr>"]
  by (simp add: payload_args_def sample_payload_def sample_db_def sample_task_def)

text \<open>
  A task of type \<open>requirement\<close>, which the service accepts and persists, is never a candidate of
  the orchestrator's default types.
\<close>

lemma requirement_task_never_candidate:
  "validate_task_type ''requirement'' = Inr ''requirement'' \<and> \<not> eligible None excl (new_task I a ''requirement'' n)"
  by (simp add: validate_task_type_def ALLOWED_INTAKE_TYPES_def eligible_def supported_def default_supported_types_def)

end
