(* ===== verification/Claim.thy ===== *)
theory Claim
  imports Orchestrator_Main
begin

text \<open>
  \<open>runner/claim.py\<close>, \<open>runner/polling.py\<close>, \<open>runner/config.py\<close> and the poll cycle of
  \<open>runner/main.py\<close>: a prepared task is claimed by a conditional update, an execution row and
  its first event. Arguments of the model: the correlation identifier, the clock and its
  rendering, and \<open>pk\<close>, the primary key that the database or the mapping supplies for the new
  execution; the mapped class declares no default, so \<open>None\<close> is the case of the sources.
\<close>

section \<open>claim\_task\<close>

definition new_execution ::
    "uuid \<Rightarrow> string \<Rightarrow> datetime \<Rightarrow> uuid \<Rightarrow> string \<Rightarrow> task_execution" where
  "new_execution pk corr now task_id runner =
     \<lparr>e_id = pk, e_task_id = task_id, e_runner_id = Some runner, e_correlation_id = Some corr,
      e_prepared_context_version = None, e_opencode_session_id = None,
      e_opencode_message_id = None, e_status = ES_QUEUED, e_started_at = Some now,
      e_dispatched_at = None, e_finished_at = None, e_heartbeat_at = None, e_attempt = 1,
      e_max_attempts = 3, e_error_type = None, e_error_message = None, e_result_summary = JNull,
      e_branch_name = None, e_worktree_path = None, e_commit_sha_before = None,
      e_commit_sha_after = None, e_new_commit_shas = None, e_changed_files = None,
      e_diff_stat = None, e_has_uncommitted_changes = None, e_inspection_status = None,
      e_adopted_commit_sha = None, e_total_tokens = None, e_next_retry_at = None, e_phase = None,
      e_max_execution_duration_seconds = Some 3600, e_updated_at = now, e_created_at = now\<rparr>"

definition claim_event ::
    "(datetime \<Rightarrow> string) \<Rightarrow> string \<Rightarrow> datetime \<Rightarrow> string \<Rightarrow> uuid \<Rightarrow> execution_event" where
  "claim_event isofmt corr now runner pk =
     \<lparr>v_execution_id = pk, v_sequence = 1, v_external_event_id = None, v_direction = ED_OUTBOUND,
      v_event_type = EV_EXECUTION_CLAIMED,
      v_payload = [(''runner_id'', JStr runner), (''claimed_at'', JStr (isofmt now))],
      v_correlation_id = Some corr, v_created_at = now\<rparr>"

text \<open>\<open>session.add\<close> with \<open>flush\<close>: without a primary key the insert violates NOT NULL.\<close>

definition flush_execution :: "uuid option \<Rightarrow> (uuid \<Rightarrow> task_execution) \<Rightarrow> db \<Rightarrow> exn + db" where
  "flush_execution pk mk d = (case pk of
     None \<Rightarrow> Inl (IntegrityError ''null value in column id of relation task_executions'')
   | Some i \<Rightarrow> insert_execution (mk i) d)"

definition claim_task ::
    "uuid option \<Rightarrow> string \<Rightarrow> (datetime \<Rightarrow> string) \<Rightarrow> datetime \<Rightarrow> uuid \<Rightarrow> string \<Rightarrow> session \<Rightarrow>
     (exn + task_execution) \<times> session" where
  "claim_task pk corr isofmt now i runner s =
     (if active_for (working s) i \<noteq> [] then
        (Inl (ClaimFailedError (''Task '' @ uuid_str i @ '' already has an active execution'')), s)
      else
        (let p = (\<lambda>t. t_id t = i \<and> t_status t = TS_PREPARED);
             s1 = modify (update_tasks p (\<lambda>t. t\<lparr>t_status := TS_QUEUED, t_updated_at := now\<rparr>)) s
         in if count_tasks p (working s) \<noteq> 1 then
              (case get_task (working s1) i of
                 None \<Rightarrow> (Inl (ClaimFailedError (''Task '' @ uuid_str i @ '' not found'')), s1)
               | Some t \<Rightarrow> (Inl (ClaimFailedError (''Task '' @ uuid_str i @ '' is in status '' @ [CHR 0x27] @
                   task_status_value (t_status t) @ [CHR 0x27] @ '', cannot be claimed'')), s1))
            else
              (case flush_execution pk (\<lambda>k. new_execution k corr now i runner) (working s1) of
                 Inl e \<Rightarrow> (Inl e, s1)
               | Inr d \<Rightarrow>
                   (let e = new_execution (the pk) corr now i runner in
                    case insert_event (claim_event isofmt corr now runner (e_id e)) d of
                      Inl x \<Rightarrow> (Inl x, s1)
                    | Inr d' \<Rightarrow> (Inr e, s1\<lparr>working := d'\<rparr>)))))"

section \<open>Polling\<close>

record runner_config =
  rc_runner_id :: string
  rc_poll_interval_seconds :: int
  rc_batch_size :: int
  rc_max_attempts :: int
  rc_watchdog_enabled :: bool
  rc_watchdog_idle_seconds :: int
  rc_watchdog_max_continues :: int
  rc_watchdog_base_url :: string
  rc_watchdog_session_id :: "string option"
  rc_watchdog_poll_interval_seconds :: int
  rc_watchdog_continue_prompt :: string

definition default_config :: "uuid \<Rightarrow> runner_config" where
  "default_config fresh =
     \<lparr>rc_runner_id = uuid_str fresh, rc_poll_interval_seconds = 5, rc_batch_size = 1,
      rc_max_attempts = 3, rc_watchdog_enabled = False, rc_watchdog_idle_seconds = 90,
      rc_watchdog_max_continues = 50, rc_watchdog_base_url = ''http://127.0.0.1:4096'',
      rc_watchdog_session_id = None, rc_watchdog_poll_interval_seconds = 10,
      rc_watchdog_continue_prompt = ''continue''\<rparr>"

text \<open>
  The candidates are read once; each claim may fail alone. Only \<open>ClaimFailedError\<close> is caught;
  every other exception ends the poll with the claims made so far lost to the caller.
\<close>

definition prepared_ids :: "int \<Rightarrow> db \<Rightarrow> uuid list" where
  "prepared_ids batch_size d =
     take (nat batch_size) (map t_id (filter (\<lambda>t. t_status t = TS_PREPARED) (tasks d)))"

fun claim_each ::
    "(uuid \<Rightarrow> uuid option) \<Rightarrow> string \<Rightarrow> (datetime \<Rightarrow> string) \<Rightarrow> datetime \<Rightarrow> string \<Rightarrow> uuid list \<Rightarrow>
     session \<Rightarrow> (exn + task_execution list) \<times> session" where
  "claim_each pk corr isofmt now runner [] s = (Inr [], s)"
| "claim_each pk corr isofmt now runner (i # is) s =
     (case claim_task (pk i) corr isofmt now i runner s of
        (Inr e, s') \<Rightarrow> (case claim_each pk corr isofmt now runner is s' of
            (Inl x, t) \<Rightarrow> (Inl x, t)
          | (Inr es, t) \<Rightarrow> (Inr (e # es), t))
      | (Inl (ClaimFailedError m), s') \<Rightarrow> claim_each pk corr isofmt now runner is s'
      | (Inl x, s') \<Rightarrow> (Inl x, s'))"

definition poll_and_claim_tasks ::
    "(uuid \<Rightarrow> uuid option) \<Rightarrow> string \<Rightarrow> (datetime \<Rightarrow> string) \<Rightarrow> datetime \<Rightarrow> string \<Rightarrow> int \<Rightarrow> session \<Rightarrow>
     (exn + task_execution list) \<times> session" where
  "poll_and_claim_tasks pk corr isofmt now runner batch_size s =
     (if batch_size < 0 then (Inl (SQLAlchemyError ''LIMIT must not be negative''), s)
      else claim_each pk corr isofmt now runner (prepared_ids batch_size (working s)) s)"

text \<open>
  \<open>Runner._poll_cycle\<close> and \<open>Runner.claim_single_task\<close>: the session comes from
  \<open>get_db_session\<close>, which closes it and never commits. Processing an execution only logs.
\<close>

definition poll_cycle ::
    "(uuid \<Rightarrow> uuid option) \<Rightarrow> string \<Rightarrow> (datetime \<Rightarrow> string) \<Rightarrow> datetime \<Rightarrow> runner_config \<Rightarrow> db \<Rightarrow> db" where
  "poll_cycle pk corr isofmt now cfg d =
     (case poll_and_claim_tasks pk corr isofmt now (rc_runner_id cfg) (rc_batch_size cfg) (open_session d) of
        (res, s) \<Rightarrow> close_session s)"

definition claim_single_task ::
    "uuid option \<Rightarrow> string \<Rightarrow> (datetime \<Rightarrow> string) \<Rightarrow> datetime \<Rightarrow> runner_config \<Rightarrow> uuid \<Rightarrow> db \<Rightarrow>
     task_execution option \<times> db" where
  "claim_single_task pk corr isofmt now cfg i d =
     (case claim_task pk corr isofmt now i (rc_runner_id cfg) (open_session d) of
        (Inr e, s) \<Rightarrow> (Some e, close_session s)
      | (Inl x, s) \<Rightarrow> (None, close_session s))"

section \<open>Lemmas\<close>

lemma new_execution_simps [simp]:
  "e_id (new_execution k corr now i r) = k" "e_task_id (new_execution k corr now i r) = i"
  "e_status (new_execution k corr now i r) = ES_QUEUED" "is_active (new_execution k corr now i r)"
  by (simp_all add: new_execution_def is_active_iff)

lemma one_row:
  assumes "wf_db d"
  shows "count_tasks (\<lambda>t. t_id t = i \<and> t_status t = st) d = 1 \<longleftrightarrow> status_in d i = Some st"
proof
  assume "count_tasks (\<lambda>t. t_id t = i \<and> t_status t = st) d = 1"
  then have "length (filter (\<lambda>t. t_id t \<in> set [i] \<and> t_status t = st) (tasks d)) = length [i]"
    by (simp add: count_tasks_def)
  from full_count [OF wf_db_ids [OF assms] this]
  have "\<exists>t \<in> set (tasks d). t_id t = i \<and> t_status t = st" by simp
  then show "status_in d i = Some st" using status_in_mem [OF assms] by metis
next
  assume st: "status_in d i = Some st"
  have d: "distinct (map t_id (filter (\<lambda>t. t_id t = i \<and> t_status t = st) (tasks d)))"
    by (rule distinct_map_filter) (rule wf_db_ids [OF assms])
  have s: "set (map t_id (filter (\<lambda>t. t_id t = i \<and> t_status t = st) (tasks d))) = {i}"
    using st by (auto simp: status_in_def image_iff dest: get_task_Some)
  have "length (map t_id (filter (\<lambda>t. t_id t = i \<and> t_status t = st) (tasks d))) = 1"
    using distinct_card [OF d] s by simp
  then show "count_tasks (\<lambda>t. t_id t = i \<and> t_status t = st) d = 1" by (simp add: count_tasks_def)
qed

definition claim_update :: "datetime \<Rightarrow> uuid \<Rightarrow> db \<Rightarrow> db" where
  "claim_update now i = update_tasks (\<lambda>t. t_id t = i \<and> t_status t = TS_PREPARED)
     (\<lambda>t. t\<lparr>t_status := TS_QUEUED, t_updated_at := now\<rparr>)"

lemma claim_update_props:
  "wf_db d \<Longrightarrow> wf_db (claim_update now i d)" "executions (claim_update now i d) = executions d"
  "events (claim_update now i d) = events d"
  "t_id ` set (tasks (claim_update now i d)) = t_id ` set (tasks d)"
  "status_in (claim_update now i d) j =
     (if i = j \<and> status_in d j = Some TS_PREPARED then Some TS_QUEUED else status_in d j)"
proof -
  show "wf_db d \<Longrightarrow> wf_db (claim_update now i d)"
    unfolding claim_update_def by (rule wf_db_update_tasks) simp_all
  show "executions (claim_update now i d) = executions d" "events (claim_update now i d) = events d"
    by (simp_all add: claim_update_def)
  have "map t_id (tasks (claim_update now i d)) = map t_id (tasks d)"
    unfolding claim_update_def by (rule update_tasks_ids) simp
  then show "t_id ` set (tasks (claim_update now i d)) = t_id ` set (tasks d)" by (metis set_map)
  have "status_in (claim_update now i d) j = map_option (\<lambda>t. t_status (if t_id t = i \<and> t_status t = TS_PREPARED
      then t\<lparr>t_status := TS_QUEUED, t_updated_at := now\<rparr> else t)) (get_task d j)"
    unfolding claim_update_def by (rule status_in_update) simp
  then show "status_in (claim_update now i d) j =
     (if i = j \<and> status_in d j = Some TS_PREPARED then Some TS_QUEUED else status_in d j)"
    by (cases "get_task d j") (auto simp: status_in_def dest: get_task_Some)
qed

lemma no_events_fresh:
  assumes "wf_db d" "k \<notin> e_id ` set (executions d)"
  shows "events_of d k = []"
proof -
  have "\<forall>v \<in> set (events d). v_execution_id v \<in> e_id ` set (executions d)"
    using assms(1) unfolding wf_db_def by blast
  with assms(2) have "\<forall>v \<in> set (events d). v_execution_id v \<noteq> k" by metis
  then show ?thesis by (simp add: events_of_def filter_empty_conv)
qed

lemma modify_working [simp]: "(modify f s)\<lparr>working := d\<rparr> = s\<lparr>working := d\<rparr>"
  by (simp add: modify_def)

text \<open>The claim in closed form, on a well-formed database.\<close>

lemma insert_claim_event:
  assumes "wf_db d" "insert_execution e d = Inr d'"
  shows "insert_event (claim_event isofmt corr now r (e_id e)) d' =
    Inr (d'\<lparr>events := events d' @ [claim_event isofmt corr now r (e_id e)]\<rparr>)"
proof -
  from assms(2) have d': "d' = d\<lparr>executions := executions d @ [e]\<rparr>"
    and new: "e_id e \<notin> e_id ` set (executions d)"
    by (auto simp: insert_execution_def split: if_splits)
  have "events_of d' (e_id e) = []"
    using no_events_fresh [OF assms(1) new] by (simp add: events_of_def d')
  then show ?thesis by (simp add: insert_event_def claim_event_def d')
qed

definition claimed_db ::
    "(datetime \<Rightarrow> string) \<Rightarrow> string \<Rightarrow> datetime \<Rightarrow> uuid \<Rightarrow> string \<Rightarrow> uuid \<Rightarrow> db \<Rightarrow> db" where
  "claimed_db isofmt corr now i runner k d = (claim_update now i d)
     \<lparr>executions := executions d @ [new_execution k corr now i runner],
      events := events d @ [claim_event isofmt corr now runner k]\<rparr>"

lemma claim_task_closed:
  assumes wf: "wf_db (working s)"
  shows "claim_task pk corr isofmt now i runner s =
    (if active_for (working s) i \<noteq> [] then
       (Inl (ClaimFailedError (''Task '' @ uuid_str i @ '' already has an active execution'')), s)
     else case status_in (working s) i of
       None \<Rightarrow> (Inl (ClaimFailedError (''Task '' @ uuid_str i @ '' not found'')),
         modify (claim_update now i) s)
     | Some st \<Rightarrow>
         if st \<noteq> TS_PREPARED then
           (Inl (ClaimFailedError (''Task '' @ uuid_str i @ '' is in status '' @ [CHR 0x27] @
              task_status_value st @ [CHR 0x27] @ '', cannot be claimed'')), modify (claim_update now i) s)
         else case pk of
           None \<Rightarrow> (Inl (IntegrityError ''null value in column id of relation task_executions''),
             modify (claim_update now i) s)
         | Some k \<Rightarrow>
             if k \<in> e_id ` set (executions (working s))
             then (Inl (IntegrityError ''pk_task_executions''), modify (claim_update now i) s)
             else (Inr (new_execution k corr now i runner),
               s\<lparr>working := claimed_db isofmt corr now i runner k (working s)\<rparr>))"
proof (cases "active_for (working s) i \<noteq> []")
  case True
  then show ?thesis by (simp add: claim_task_def)
next
  case na: False
  let ?d = "claim_update now i (working s)"
  note u = claim_update_props [where d = "working s" and now = now and i = i]
  have s1: "modify (update_tasks (\<lambda>t. t_id t = i \<and> t_status t = TS_PREPARED)
      (\<lambda>t. t\<lparr>t_status := TS_QUEUED, t_updated_at := now\<rparr>)) s = modify (claim_update now i) s"
    by (simp add: claim_update_def)
  show ?thesis
  proof (cases "status_in (working s) i = Some TS_PREPARED")
    case False
    then have c: "count_tasks (\<lambda>t. t_id t = i \<and> t_status t = TS_PREPARED) (working s) \<noteq> 1"
      unfolding one_row [OF wf] by simp
    have "status_in ?d i = status_in (working s) i" using False by (simp add: u(5))
    then show ?thesis using na c False
      by (cases "get_task (working s) i"; cases "get_task ?d i")
         (simp_all add: claim_task_def Let_def s1 status_in_def)
  next
    case True
    then have c: "count_tasks (\<lambda>t. t_id t = i \<and> t_status t = TS_PREPARED) (working s) = 1"
      unfolding one_row [OF wf] by simp
    have tin: "i \<in> t_id ` set (tasks ?d)"
      using True get_task_Some [of "working s" i] u(4) by (auto simp: status_in_def)
    have na': "active_for ?d i = []" using na u(2) by (simp add: active_for_def)
    show ?thesis
    proof (cases pk)
      case None
      with na c True show ?thesis by (simp add: claim_task_def Let_def s1 flush_execution_def)
    next
      case (Some k)
      let ?e = "new_execution k corr now i runner"
      show ?thesis
      proof (cases "k \<in> e_id ` set (executions (working s))")
        case True
        then have "insert_execution ?e ?d = Inl (IntegrityError ''pk_task_executions'')"
          by (simp add: insert_execution_def u(2))
        with na c \<open>status_in (working s) i = Some TS_PREPARED\<close> Some True show ?thesis
          by (simp add: claim_task_def Let_def s1 flush_execution_def)
      next
        case False
        then have ins: "insert_execution ?e ?d = Inr (?d\<lparr>executions := executions ?d @ [?e]\<rparr>)"
          using tin na' by (simp add: insert_execution_def u(2))
        have ev: "insert_event (claim_event isofmt corr now runner k) (?d\<lparr>executions := executions ?d @ [?e]\<rparr>) =
            Inr (claimed_db isofmt corr now i runner k (working s))"
          using insert_claim_event [OF u(1) [OF wf] ins] by (simp add: claimed_db_def u)
        with na c True Some False ins show ?thesis
          by (simp add: claim_task_def Let_def s1 flush_execution_def)
      qed
    qed
  qed
qed

lemma claimed_db_props:
  assumes wf: "wf_db d" and "status_in d i = Some TS_PREPARED" "active_for d i = []"
    and "k \<notin> e_id ` set (executions d)"
  shows "wf_db (claimed_db isofmt corr now i runner k d)"
    and "status_in (claimed_db isofmt corr now i runner k d) j = (if j = i then Some TS_QUEUED else status_in d j)"
    and "active_for (claimed_db isofmt corr now i runner k d) i = [new_execution k corr now i runner]"
    and "events_of (claimed_db isofmt corr now i runner k d) k = [claim_event isofmt corr now runner k]"
proof -
  let ?d = "claim_update now i d" and ?e = "new_execution k corr now i runner"
  note u = claim_update_props [where d = d and now = now and i = i]
  have tin: "i \<in> t_id ` set (tasks ?d)"
    using assms(2) get_task_Some [of d i] u(4) by (auto simp: status_in_def)
  have ins: "insert_execution ?e ?d = Inr (?d\<lparr>executions := executions ?d @ [?e]\<rparr>)"
    using tin assms(3,4) by (simp add: insert_execution_def u(2) active_for_def)
  have ev: "insert_event (claim_event isofmt corr now runner k) (?d\<lparr>executions := executions ?d @ [?e]\<rparr>) =
      Inr (claimed_db isofmt corr now i runner k d)"
    using insert_claim_event [OF u(1) [OF wf] ins] by (simp add: claimed_db_def u)
  show "wf_db (claimed_db isofmt corr now i runner k d)"
    by (rule wf_db_insert_event [OF wf_db_insert_execution [OF u(1) [OF wf] ins] ev])
  have "status_in (claimed_db isofmt corr now i runner k d) j = status_in ?d j"
    by (simp add: claimed_db_def status_in_def get_task_def)
  with assms(2) u(5) show "status_in (claimed_db isofmt corr now i runner k d) j = (if j = i then Some TS_QUEUED else status_in d j)"
    by auto
  show "active_for (claimed_db isofmt corr now i runner k d) i = [?e]"
    using assms(3) by (simp add: claimed_db_def active_for_def)
  have "events_of d k = []" by (rule no_events_fresh [OF wf assms(4)])
  then show "events_of (claimed_db isofmt corr now i runner k d) k = [claim_event isofmt corr now runner k]"
    by (simp add: claimed_db_def events_of_def claim_event_def)
qed

lemma claim_task_Inr:
  assumes "wf_db (working s)" "claim_task pk corr isofmt now i runner s = (Inr e, s')"
  shows "\<exists>k. pk = Some k \<and> k \<notin> e_id ` set (executions (working s)) \<and> status_in (working s) i = Some TS_PREPARED \<and>
    active_for (working s) i = [] \<and> e = new_execution k corr now i runner \<and>
    s' = s\<lparr>working := claimed_db isofmt corr now i runner k (working s)\<rparr>"
  using assms(2) unfolding claim_task_closed [OF assms(1)]
  by (auto split: if_splits option.splits)

lemma claim_task_Inl:
  assumes "wf_db (working s)" "claim_task pk corr isofmt now i runner s = (Inl x, s')"
  shows "s' = s \<or> s' = modify (claim_update now i) s"
    and "status_in (working s) i \<noteq> Some TS_PREPARED \<Longrightarrow> status_in (working s') j = status_in (working s) j"
proof -
  show d: "s' = s \<or> s' = modify (claim_update now i) s"
    using assms(2) unfolding claim_task_closed [OF assms(1)]
    by (auto split: if_splits option.splits)
  show "status_in (working s') j = status_in (working s) j" if "status_in (working s) i \<noteq> Some TS_PREPARED"
    using d that by (auto simp: claim_update_props(5))
qed

section \<open>Mutual exclusion\<close>

type_synonym claim_op = "uuid option \<times> string \<times> (datetime \<Rightarrow> string) \<times> datetime \<times> uuid \<times> string"

text \<open>A claim by a runner that commits it.\<close>

definition attempt_claim :: "claim_op \<Rightarrow> db \<Rightarrow> db option" where
  "attempt_claim x d = (case x of (pk, corr, isofmt, now, i, runner) \<Rightarrow>
     (case claim_task pk corr isofmt now i runner (open_session d) of
        (Inr e, s) \<Rightarrow> Some (close_session (commit s)) | (Inl err, s) \<Rightarrow> None))"

definition claim_key :: "claim_op \<Rightarrow> uuid list" where
  "claim_key x = (case x of (pk, corr, isofmt, now, i, runner) \<Rightarrow> [i])"

lemma attempt_claim_Some:
  assumes "wf_db d" "attempt_claim (pk, corr, isofmt, now, i, runner) d = Some d'"
  shows "\<exists>k. pk = Some k \<and> k \<notin> e_id ` set (executions d) \<and> status_in d i = Some TS_PREPARED \<and>
    active_for d i = [] \<and> d' = claimed_db isofmt corr now i runner k d"
proof -
  obtain e s where "claim_task pk corr isofmt now i runner (open_session d) = (Inr e, s)" "d' = working s"
    using assms(2) by (auto simp: attempt_claim_def split: prod.splits sum.splits)
  with claim_task_Inr [of "open_session d"] assms(1) show ?thesis by fastforce
qed

interpretation claiming: guarded_update attempt_claim claim_key status_in wf_db TS_PREPARED TS_QUEUED
proof
  fix d x d' k j
  assume wf: "wf_db d" and a: "attempt_claim x d = Some d'"
  obtain pk corr isofmt now i runner where x: "x = (pk, corr, isofmt, now, i, runner)" by (cases x)
  obtain n where n: "n \<notin> e_id ` set (executions d)" "status_in d i = Some TS_PREPARED"
    "active_for d i = []" "d' = claimed_db isofmt corr now i runner n d"
    using attempt_claim_Some [OF wf a [unfolded x]] by blast
  note c = claimed_db_props [OF wf n(2,3,1)]
  show "wf_db d'" unfolding n(4) by (rule c(1))
  show "distinct (claim_key x)" by (simp add: x claim_key_def)
  show "status_in d k = Some TS_PREPARED" if "k \<in> set (claim_key x)"
    using n(2) that by (simp add: x claim_key_def)
  show "status_in d' k = Some TS_QUEUED" if "k \<in> set (claim_key x)"
    using that by (simp add: n(4) c(2) x claim_key_def)
  show "status_in d' j = status_in d j" if "j \<notin> set (claim_key x)"
    using that by (simp add: n(4) c(2) x claim_key_def)
qed simp

text \<open>Claims executed one after another, each committed by its caller.\<close>

fun run_claims :: "claim_op list \<Rightarrow> db \<Rightarrow> claim_op list \<times> db" where
  "run_claims [] d = ([], d)"
| "run_claims (x # xs) d =
     (case attempt_claim x d of
        None \<Rightarrow> run_claims xs d
      | Some d' \<Rightarrow> (case run_claims xs d' of (won, e) \<Rightarrow> (x # won, e)))"

lemma run_claims_run_attempts: "run_claims xs d = claiming.run_attempts xs d"
  by (induction xs arbitrary: d) (simp_all split: option.split prod.split)

lemma run_claims_wf: "wf_db d \<Longrightarrow> run_claims xs d = (won, d') \<Longrightarrow> wf_db d'"
proof (induction xs arbitrary: d won)
  case (Cons x xs)
  show ?case
  proof (cases "attempt_claim x d")
    case None
    with Cons show ?thesis by simp
  next
    case (Some e)
    then have "wf_db e" using claiming.attempt_inv [OF Cons.prems(1)] by blast
    with Cons Some show ?thesis by (auto split: prod.splits)
  qed
qed simp

lemma claim_each_Inr:
  assumes "wf_db (working s)" "claim_each pk corr isofmt now runner is s = (Inr es, s')"
  shows "wf_db (working s') \<and> committed s' = committed s \<and> subseq (map e_task_id es) is \<and>
    distinct (map e_task_id es) \<and>
    (\<forall>e \<in> set es. status_in (working s) (e_task_id e) = Some TS_PREPARED \<and>
       status_in (working s') (e_task_id e) = Some TS_QUEUED \<and> active_for (working s') (e_task_id e) \<noteq> []) \<and>
    (\<forall>j. status_in (working s) j \<noteq> Some TS_PREPARED \<longrightarrow> status_in (working s') j = status_in (working s) j \<and>
       (active_for (working s) j \<noteq> [] \<longrightarrow> active_for (working s') j \<noteq> []))"
  using assms
proof (induction "is" arbitrary: s es)
  case Nil
  then show ?case by simp
next
  case (Cons i "is")
  obtain r t where c: "claim_task (pk i) corr isofmt now i runner s = (r, t)"
    by (cases "claim_task (pk i) corr isofmt now i runner s")
  show ?case
  proof (cases r)
    case (Inl x)
    then obtain m where "x = ClaimFailedError m" using Cons.prems(2) c by (cases x) auto
    with Cons.prems(2) c Inl have rest: "claim_each pk corr isofmt now runner is t = (Inr es, s')" by simp
    note c' = claim_task_Inl [OF Cons.prems(1) c [unfolded Inl]]
    have "status_in (working s) i \<noteq> Some TS_PREPARED \<or> active_for (working s) i \<noteq> []"
      using c Inl \<open>x = ClaimFailedError m\<close> unfolding claim_task_closed [OF Cons.prems(1)]
      by (auto split: if_splits option.splits)
    then have st: "status_in (working t) j = status_in (working s) j" for j
      using c c'(2) Inl unfolding claim_task_closed [OF Cons.prems(1)] by (auto split: if_splits)
    have t: "wf_db (working t)" "committed t = committed s" "executions (working t) = executions (working s)"
      using c'(1) Cons.prems(1) claim_update_props(1,2) by auto
    then have a: "active_for (working t) j = active_for (working s) j" for j by (simp add: active_for_def)
    from Cons.IH [OF t(1) rest] show ?thesis by (auto simp: st a t(2))
  next
    case (Inr e)
    with Cons.prems(2) c obtain es' where rest: "claim_each pk corr isofmt now runner is t = (Inr es', s')"
      and es: "es = e # es'"
      by (auto split: prod.splits sum.splits)
    obtain k where k: "k \<notin> e_id ` set (executions (working s))" "status_in (working s) i = Some TS_PREPARED"
      "active_for (working s) i = []" "e = new_execution k corr now i runner"
      "t = s\<lparr>working := claimed_db isofmt corr now i runner k (working s)\<rparr>"
      using claim_task_Inr [OF Cons.prems(1) c [unfolded Inr]] by blast
    note cp = claimed_db_props [OF Cons.prems(1) k(2,3,1), of isofmt corr now runner]
    have wt: "wf_db (working t)" using cp(1) by (simp add: k(5))
    have st: "status_in (working t) j = (if j = i then Some TS_QUEUED else status_in (working s) j)" for j
      by (simp add: k(5) cp(2))
    have at: "active_for (working s) j \<noteq> [] \<Longrightarrow> active_for (working t) j \<noteq> []" for j
      by (simp add: k(5) claimed_db_def active_for_def)
    have ai: "active_for (working t) i \<noteq> []" by (simp add: k(5) cp(3))
    note IH = Cons.IH [OF wt rest]
    from IH st have "i \<notin> set (map e_task_id es')" by (auto split: if_splits)
    with IH es k(4) have "distinct (map e_task_id es)" "subseq (map e_task_id es) (i # is)" by auto
    moreover have "committed s' = committed s" using IH k(5) by simp
    moreover have "status_in (working s') i = Some TS_QUEUED" "active_for (working s') i \<noteq> []"
      using IH st [of i] ai by auto
    moreover have "\<forall>x \<in> set es'. status_in (working s) (e_task_id x) = Some TS_PREPARED"
      using IH st by (metis option.inject task_status.distinct(7))
    ultimately show ?thesis using IH es k(2,4) st at by auto
  qed
qed

section \<open>Properties\<close>

definition prepared_db :: db where
  "prepared_db = sample_db\<lparr>tasks := [sample_task 1 1 TS_PREPARED, sample_task 2 2 TS_PREPARED,
     sample_task 3 3 TS_QUEUED]\<rparr>"

lemma prepared_db_wf: "wf_db prepared_db"
  by (simp add: wf_db_def prepared_db_def sample_db_def sample_task_def unique_active_def
      active_for_def events_unique_def)

text \<open>
  C7: A claim. It succeeds exactly when the task is prepared, has no active execution and
  the new row gets a fresh primary key; then the task is queued, its only active execution
  is the new one (queued, first of three attempts, with the event \<open>execution.claimed\<close> as
  number 1), the database stays well-formed and no other task's status changes. Otherwise it
  raises, a \<open>ClaimFailedError\<close> unless the task was claimable, and adds no row.
\<close>

theorem claim_task_spec:
  assumes wf: "wf_db (working s)"
  shows "case claim_task pk corr isofmt now i runner s of
     (Inr e, s') \<Rightarrow> status_in (working s) i = Some TS_PREPARED \<and> active_for (working s) i = [] \<and>
       pk = Some (e_id e) \<and> wf_db (working s') \<and> committed s' = committed s \<and>
       active_for (working s') i = [e] \<and> e_status e = ES_QUEUED \<and> e_attempt e = 1 \<and> e_max_attempts e = 3 \<and>
       map (\<lambda>v. (v_sequence v, v_event_type v)) (events_of (working s') (e_id e)) = [(1, EV_EXECUTION_CLAIMED)] \<and>
       (\<forall>j. status_in (working s') j = (if j = i then Some TS_QUEUED else status_in (working s) j))
   | (Inl x, s') \<Rightarrow> executions (working s') = executions (working s) \<and> events (working s') = events (working s) \<and>
       ((\<exists>m. x = ClaimFailedError m) \<longleftrightarrow>
          \<not> (status_in (working s) i = Some TS_PREPARED \<and> active_for (working s) i = [])) \<and>
       (pk = None \<or> the pk \<in> e_id ` set (executions (working s)) \<or> (\<exists>m. x = ClaimFailedError m))"
proof (cases "claim_task pk corr isofmt now i runner s")
  case (Pair r s')
  show ?thesis
  proof (cases r)
    case (Inl x)
    have "executions (working s') = executions (working s)" "events (working s') = events (working s)"
      using claim_task_Inl(1) [OF wf Pair [unfolded Inl]] claim_update_props(2,3) by auto
    moreover have "((\<exists>m. x = ClaimFailedError m) \<longleftrightarrow>
          \<not> (status_in (working s) i = Some TS_PREPARED \<and> active_for (working s) i = [])) \<and>
       (pk = None \<or> the pk \<in> e_id ` set (executions (working s)) \<or> (\<exists>m. x = ClaimFailedError m))"
      using Pair Inl unfolding claim_task_closed [OF wf] by (auto split: if_splits option.splits)
    ultimately show ?thesis unfolding Pair Inl by (simp only: prod.case sum.case) blast
  next
    case (Inr e)
    obtain k where k: "k \<notin> e_id ` set (executions (working s))" "status_in (working s) i = Some TS_PREPARED"
      "active_for (working s) i = []" "e = new_execution k corr now i runner" "pk = Some k"
      "s' = s\<lparr>working := claimed_db isofmt corr now i runner k (working s)\<rparr>"
      using claim_task_Inr [OF wf Pair [unfolded Inr]] by blast
    note cp = claimed_db_props [OF wf k(2,3,1), of isofmt corr now runner]
    have "e_attempt e = 1" "e_max_attempts e = 3" by (simp_all add: k(4) new_execution_def)
    moreover have "map (\<lambda>v. (v_sequence v, v_event_type v)) (events_of (working s') (e_id e)) = [(1, EV_EXECUTION_CLAIMED)]"
      using cp(4) by (simp add: k(4,6) claim_event_def)
    moreover have "wf_db (working s')" "active_for (working s') i = [e]"
      "\<forall>j. status_in (working s') j = (if j = i then Some TS_QUEUED else status_in (working s) j)"
      using cp(1,2,3) by (simp_all add: k(4,6))
    ultimately show ?thesis using Pair Inr k(2,3,5) by (simp add: k(4,6))
  qed
qed

theorem claim_task_spec_witness:
  "case claim_task (Some 77) ''claim-1'' (\<lambda>n. []) 5 1 ''r'' (open_session prepared_db) of
     (Inr e, s') \<Rightarrow> active_for (working s') 1 = [e] \<and> e_status e = ES_QUEUED \<and> wf_db (working s')
   | (Inl x, s') \<Rightarrow> False"
proof -
  let ?c = "claim_task (Some 77) ''claim-1'' (\<lambda>n. []) 5 1 ''r'' (open_session prepared_db)"
  have wf: "wf_db (working (open_session prepared_db))" by (simp add: prepared_db_wf)
  have "isl (fst ?c) = False" by code_simp
  then obtain e s' where c: "?c = (Inr e, s')" by (cases ?c; cases "fst ?c") auto
  from claim_task_spec [OF wf, where pk = "Some 77" and corr = "''claim-1''" and isofmt = "\<lambda>n. []"
    and now = 5 and i = 1 and runner = "''r''"] c
  show ?thesis by simp
qed

text \<open>
  C6: Two runners never hold the same task. However the committed claims of any runners are
  ordered, the winning ones are for pairwise different tasks, all of them prepared in the
  beginning and queued in the end, and every task has at most one active execution then.
\<close>

theorem claims_are_exclusive:
  assumes "wf_db d" and "run_claims xs d = (won, d')"
  shows "distinct (map (\<lambda>(pk, corr, isofmt, now, i, runner). i) won) \<and>
    (\<forall>i. length (active_for d' i) \<le> 1) \<and>
    (\<forall>(pk, corr, isofmt, now, i, runner) \<in> set won.
       status_in d i = Some TS_PREPARED \<and> status_in d' i = Some TS_QUEUED)"
proof -
  have r: "claiming.run_attempts xs d = (won, d')" using assms(2) by (simp add: run_claims_run_attempts)
  have k: "concat (map claim_key ws) = map (\<lambda>(pk, corr, isofmt, now, i, runner). i) ws" for ws
    by (induction ws) (auto simp: claim_key_def)
  have "wf_db d'" by (rule run_claims_wf [OF assms])
  then have "\<forall>i. length (active_for d' i) \<le> 1" by (simp add: wf_db_def unique_active_def)
  moreover have "distinct (map (\<lambda>(pk, corr, isofmt, now, i, runner). i) won)"
    using claiming.at_most_one_winner [OF assms(1) r] by (simp only: k)
  moreover have "status_in d i = Some TS_PREPARED \<and> status_in d' i = Some TS_QUEUED"
    if "(pk, corr, isofmt, now, i, runner) \<in> set won" for pk corr isofmt now i runner
  proof (rule claiming.run_attempts_wins [OF assms(1) r])
    show "i \<in> set (concat (map claim_key won))" unfolding k using that by force
  qed
  ultimately show ?thesis by auto
qed

theorem claims_are_exclusive_witness:
  "let xs = [(Some 70, ''a'', \<lambda>n. [], 1, 1, ''r1''), (Some 71, ''b'', \<lambda>n. [], 2, 1, ''r2''),
             (Some 72, ''c'', \<lambda>n. [], 3, 2, ''r2'')];
       r = run_claims xs prepared_db in
     map (\<lambda>(pk, corr, isofmt, now, i, runner). (i, runner)) (fst r) = [(1, ''r1''), (2, ''r2'')] \<and>
     length (active_for (snd r) 1) \<le> 1"
proof -
  let ?xs = "[(Some 70, ''a'', \<lambda>n. [], 1, 1, ''r1''), (Some 71, ''b'', \<lambda>n. [], 2, 1, ''r2''),
             (Some 72, ''c'', \<lambda>n. [], 3, 2, ''r2'')] :: claim_op list"
  have "map (\<lambda>(pk, corr, isofmt, now, i, runner). (i, runner)) (fst (run_claims ?xs prepared_db)) =
      [(1, ''r1''), (2, ''r2'')]" by code_simp
  moreover have "length (active_for (snd (run_claims ?xs prepared_db)) 1) \<le> 1"
    using claims_are_exclusive [OF prepared_db_wf, of ?xs "fst (run_claims ?xs prepared_db)"
        "snd (run_claims ?xs prepared_db)"] by (simp only: prod.collapse)
  ultimately show ?thesis by (simp add: Let_def)
qed

text \<open>
  One poll. If it returns, it has claimed at most \<open>batch_size\<close> tasks, each once, in the
  order they were found; every one was prepared and is queued now with an active execution;
  tasks that were not prepared are untouched; nothing is committed.
\<close>

theorem poll_claims_prepared_once:
  assumes "wf_db (working s)"
    and "poll_and_claim_tasks pk corr isofmt now runner n s = (Inr es, s')"
  shows "int (length es) \<le> n \<and> distinct (map e_task_id es) \<and> wf_db (working s') \<and>
    subseq (map e_task_id es) (prepared_ids n (working s)) \<and> committed s' = committed s \<and>
    (\<forall>e \<in> set es. status_in (working s) (e_task_id e) = Some TS_PREPARED \<and>
       status_in (working s') (e_task_id e) = Some TS_QUEUED \<and> active_for (working s') (e_task_id e) \<noteq> []) \<and>
    (\<forall>j. status_in (working s) j \<noteq> Some TS_PREPARED \<longrightarrow> status_in (working s') j = status_in (working s) j)"
proof -
  have n: "0 \<le> n" and c: "claim_each pk corr isofmt now runner (prepared_ids n (working s)) s = (Inr es, s')"
    using assms(2) by (auto simp: poll_and_claim_tasks_def split: if_splits)
  note r = claim_each_Inr [OF assms(1) c]
  have "length (map e_task_id es) \<le> length (prepared_ids n (working s))"
    using r by (intro list_emb_length) blast
  also have "\<dots> \<le> nat n" by (simp add: prepared_ids_def)
  finally have "int (length es) \<le> n" using n by simp
  with r show ?thesis by blast
qed

theorem poll_claims_prepared_once_witness:
  "\<exists>es s'. poll_and_claim_tasks (\<lambda>i. Some (i + 100)) ''c'' (\<lambda>n. []) 5 ''r'' 2 (open_session prepared_db) = (Inr es, s')
     \<and> map e_task_id es = [1, 2] \<and> wf_db (working s')"
proof -
  let ?p = "poll_and_claim_tasks (\<lambda>i. Some (i + 100)) ''c'' (\<lambda>n. []) 5 ''r'' 2 (open_session prepared_db)"
  have "map e_task_id (projr (fst ?p)) = [1, 2]" "isl (fst ?p) = False" by code_simp+
  then obtain es s' where p: "?p = (Inr es, s')" "map e_task_id es = [1, 2]"
    by (cases ?p; cases "fst ?p") simp_all
  have "wf_db (working (open_session prepared_db))" by (simp add: prepared_db_wf)
  from poll_claims_prepared_once [OF this p(1)] have "wf_db (working s')" by blast
  with p show ?thesis by (intro exI [of _ es] exI [of _ s'] conjI) simp_all
qed

text \<open>
  Without a primary key every claim of a claimable task raises \<open>IntegrityError\<close>, which the
  poll does not catch; and as the session is closed without a commit, even successful claims
  of a poll cycle or of \<open>claim_single_task\<close> never reach the database.
\<close>

lemma claim_without_default_key:
  "wf_db (working s) \<Longrightarrow> status_in (working s) i = Some TS_PREPARED \<Longrightarrow> active_for (working s) i = [] \<Longrightarrow>
   \<exists>m s'. claim_task None corr isofmt now i runner s = (Inl (IntegrityError m), s')"
  by (simp add: claim_task_closed)

lemma claim_each_committed: "committed (snd (claim_each pk corr isofmt now runner is s)) = committed s"
proof (induction "is" arbitrary: s)
  case (Cons i "is")
  have "committed (snd (claim_task (pk i) corr isofmt now i runner s)) = committed s"
    by (simp add: claim_task_def Let_def split: option.split sum.split)
  with Cons show ?case
    by (auto split: prod.splits sum.splits exn.splits) (metis snd_conv)+
qed simp

lemma poll_cycle_persists_nothing: "poll_cycle pk corr isofmt now cfg d = d"
  using claim_each_committed by (auto simp: poll_cycle_def poll_and_claim_tasks_def split: prod.splits)
    (metis session_simps(1) snd_conv)+

lemma claim_single_task_persists_nothing:
  "let (r, d') = claim_single_task (Some 77) ''c'' (\<lambda>n. []) 5 (default_config 1) 1 prepared_db in
     r \<noteq> None \<and> status_in d' 1 = Some TS_PREPARED \<and> executions d' = []"
  by code_simp

end
