(* ===== verification/Error_Classification.thy ===== *)
theory Error_Classification
  imports Claim
begin

text \<open>
  \<open>runner/error_classification.py\<close>: classification of exceptions, the retry matrix, the
  decision to retry with its backoff, and the detection of stale executions. Delays are
  rational numbers (the code computes them with floats, exactly so for the doubling of the
  default matrix); the random number in \<open>[0, 1)\<close> and the clock are arguments.
\<close>

section \<open>Enumerations\<close>

datatype error_type =
    ET_TRANSIENT | ET_PERMANENT | ET_CONFLICT | ET_TIMEOUT | ET_CONTRACT_VIOLATION
  | ET_VALIDATION_FAILED

fun error_type_value :: "error_type \<Rightarrow> string" where
  "error_type_value ET_TRANSIENT = ''transient''"
| "error_type_value ET_PERMANENT = ''permanent''"
| "error_type_value ET_CONFLICT = ''conflict''"
| "error_type_value ET_TIMEOUT = ''timeout''"
| "error_type_value ET_CONTRACT_VIOLATION = ''contract_violation''"
| "error_type_value ET_VALIDATION_FAILED = ''validation_failed''"

definition is_retryable :: "error_type \<Rightarrow> bool" where
  "is_retryable e = (e \<in> {ET_TRANSIENT, ET_TIMEOUT})"

fun severity :: "error_type \<Rightarrow> nat" where
  "severity ET_TRANSIENT = 1"
| "severity ET_TIMEOUT = 2"
| "severity ET_VALIDATION_FAILED = 3"
| "severity ET_CONTRACT_VIOLATION = 4"
| "severity ET_CONFLICT = 5"
| "severity ET_PERMANENT = 6"

text \<open>Severity orders the error types linearly.\<close>

lemma severity_inject [simp]: "severity a = severity b \<longleftrightarrow> a = b"
  by (cases a; cases b) auto

instantiation error_type :: linorder
begin

definition less_eq_error_type :: "error_type \<Rightarrow> error_type \<Rightarrow> bool" where
  "less_eq_error_type a b = (severity a \<le> severity b)"

definition less_error_type :: "error_type \<Rightarrow> error_type \<Rightarrow> bool" where
  "less_error_type a b = (severity a < severity b)"

instance
  by standard (auto simp: less_eq_error_type_def less_error_type_def)

end

datatype runner_phase = PH_CLAIM | PH_SESSION | PH_DISPATCH | PH_STREAM | PH_RESULT | PH_ADOPTION

fun runner_phase_value :: "runner_phase \<Rightarrow> string" where
  "runner_phase_value PH_CLAIM = ''claim''"
| "runner_phase_value PH_SESSION = ''session''"
| "runner_phase_value PH_DISPATCH = ''dispatch''"
| "runner_phase_value PH_STREAM = ''stream''"
| "runner_phase_value PH_RESULT = ''result''"
| "runner_phase_value PH_ADOPTION = ''adoption''"

text \<open>\<open>RunnerPhase(value)\<close> raises for a value that no member has.\<close>

definition runner_phase_of :: "string \<Rightarrow> exn + runner_phase" where
  "runner_phase_of v =
     (case find (\<lambda>p. runner_phase_value p = v)
        [PH_CLAIM, PH_SESSION, PH_DISPATCH, PH_STREAM, PH_RESULT, PH_ADOPTION] of
        Some p \<Rightarrow> Inr p
      | None \<Rightarrow> Inl (ValueError (str_repr v @ '' is not a valid RunnerPhase'')))"

section \<open>Retry policies\<close>

record phase_retry_policy =
  pol_max_attempts :: int
  pol_base_delay_seconds :: rat
  pol_max_delay_seconds :: rat
  pol_backoff_multiplier :: rat
  pol_jitter_factor :: rat

definition policy :: "int \<Rightarrow> rat \<Rightarrow> rat \<Rightarrow> phase_retry_policy" where
  "policy m b x = \<lparr>pol_max_attempts = m, pol_base_delay_seconds = b, pol_max_delay_seconds = x,
     pol_backoff_multiplier = 2, pol_jitter_factor = 1 / 10\<rparr>"

record retry_matrix =
  rm_claim :: phase_retry_policy
  rm_session :: phase_retry_policy
  rm_dispatch :: phase_retry_policy
  rm_stream :: phase_retry_policy
  rm_result :: phase_retry_policy
  rm_adoption :: phase_retry_policy

definition DEFAULT_RETRY_MATRIX :: retry_matrix where
  "DEFAULT_RETRY_MATRIX =
     \<lparr>rm_claim = policy 3 1 30, rm_session = policy 3 2 60, rm_dispatch = policy 3 5 120,
      rm_stream = policy 2 10 300, rm_result = policy 2 5 120, rm_adoption = policy 2 10 300\<rparr>"

fun get_policy :: "retry_matrix \<Rightarrow> runner_phase \<Rightarrow> phase_retry_policy" where
  "get_policy m PH_CLAIM = rm_claim m"
| "get_policy m PH_SESSION = rm_session m"
| "get_policy m PH_DISPATCH = rm_dispatch m"
| "get_policy m PH_STREAM = rm_stream m"
| "get_policy m PH_RESULT = rm_result m"
| "get_policy m PH_ADOPTION = rm_adoption m"

section \<open>classify\_error\<close>

text \<open>
  An exception as the classification sees it: what the \<open>isinstance\<close> tests find, and the text.
\<close>

datatype exception_class =
    X_AsyncTimeout | X_HttpxTimeout | X_Connection | X_HttpxConnect | X_Conflict | X_Value
  | X_Validation | X_Contract | X_HttpStatus int | X_Other

record raised =
  ra_class :: exception_class
  ra_text :: string

definition http_status_type :: "int \<Rightarrow> error_type option" where
  "http_status_type c =
     (if 400 \<le> c \<and> c < 500 then
        Some (if c = 409 then ET_CONFLICT else if c = 422 then ET_VALIDATION_FAILED
              else if c = 408 then ET_TIMEOUT else ET_PERMANENT)
      else if 500 \<le> c \<and> c < 600 then Some ET_TRANSIENT
      else None)"

definition classify_error :: "raised \<Rightarrow> error_type" where
  "classify_error x =
     (let msg = lower (ra_text x); cls = ra_class x in
      if cls = X_AsyncTimeout then ET_TIMEOUT
      else if cls = X_HttpxTimeout then ET_TIMEOUT
      else if str_in ''timeout'' msg \<or> str_in ''timed out'' msg then ET_TIMEOUT
      else if cls = X_Connection then ET_TRANSIENT
      else if cls = X_HttpxConnect then ET_TRANSIENT
      else if str_in ''connection'' msg \<and> str_in ''refused'' msg then ET_TRANSIENT
      else if str_in ''network'' msg \<or> str_in ''unreachable'' msg then ET_TRANSIENT
      else if cls = X_Conflict then ET_CONFLICT
      else if str_in ''conflict'' msg then ET_CONFLICT
      else if str_in ''merge conflict'' msg \<or> str_in ''already exists'' msg then ET_CONFLICT
      else if cls = X_Value \<or> cls = X_Validation then ET_VALIDATION_FAILED
      else if (str_in ''validation'' msg \<or> str_in ''invalid'' msg) \<and> \<not> str_in ''conflict'' msg
        then ET_VALIDATION_FAILED
      else if cls = X_Contract then ET_CONTRACT_VIOLATION
      else if (str_in ''contract'' msg \<or> str_in ''schema'' msg) \<and> str_in ''invalid'' msg
        then ET_CONTRACT_VIOLATION
      else (case (case cls of X_HttpStatus c \<Rightarrow> http_status_type c | _ \<Rightarrow> None) of
          Some t \<Rightarrow> t
        | None \<Rightarrow>
            if str_in ''dns'' msg \<or> str_in ''resolve'' msg then ET_TRANSIENT
            else if str_in ''resource'' msg \<and> str_in ''exhausted'' msg then ET_TRANSIENT
            else if str_in ''busy'' msg \<or> str_in ''too many'' msg then ET_TRANSIENT
            else ET_PERMANENT))"

section \<open>calculate\_retry\_decision\<close>

record retry_decision =
  rd_should_retry :: bool
  rd_next_attempt :: int
  rd_delay_seconds :: rat
  rd_next_retry_at :: "datetime option"
  rd_reason :: string
  rd_retry_exhausted :: bool

definition rat_pow :: "rat \<Rightarrow> int \<Rightarrow> rat" where
  "rat_pow b k = (if 0 \<le> k then b ^ nat k else 1 / b ^ nat (- k))"

text \<open>\<open>timedelta(seconds=d)\<close> has whole microseconds, rounded half to even.\<close>

definition round_even :: "rat \<Rightarrow> int" where
  "round_even x = (let f = \<lfloor>x\<rfloor>; r = x - of_int f in
     if r < 1 / 2 then f else if r > 1 / 2 then f + 1 else if even f then f else f + 1)"

definition current_attempt :: "task_execution \<Rightarrow> int" where
  "current_attempt e = (if e_attempt e = 0 then 1 else e_attempt e)"

definition attempt_limit :: "retry_matrix \<Rightarrow> runner_phase \<Rightarrow> task_execution \<Rightarrow> int" where
  "attempt_limit m ph e =
     (if e_max_attempts e = 0 then pol_max_attempts (get_policy m ph) else e_max_attempts e)"

definition backoff :: "phase_retry_policy \<Rightarrow> int \<Rightarrow> rat" where
  "backoff p n = min (pol_base_delay_seconds p * rat_pow (pol_backoff_multiplier p) (n - 1))
     (pol_max_delay_seconds p)"

definition jittered :: "phase_retry_policy \<Rightarrow> rat \<Rightarrow> int \<Rightarrow> rat" where
  "jittered p r n = (let d = backoff p n in max 0 (d + d * pol_jitter_factor p * (2 * r - 1)))"

definition calculate_retry_decision ::
    "rat \<Rightarrow> datetime \<Rightarrow> task_execution \<Rightarrow> error_type \<Rightarrow> runner_phase \<Rightarrow> retry_matrix \<Rightarrow> retry_decision" where
  "calculate_retry_decision rnd now e ety ph m =
     (let n = current_attempt e; mx = attempt_limit m ph e in
      if \<not> is_retryable ety then
        \<lparr>rd_should_retry = False, rd_next_attempt = n, rd_delay_seconds = 0, rd_next_retry_at = None,
         rd_reason = ''Error type '' @ error_type_value ety @ '' is not retryable'',
         rd_retry_exhausted = True\<rparr>
      else if mx \<le> n then
        \<lparr>rd_should_retry = False, rd_next_attempt = n, rd_delay_seconds = 0, rd_next_retry_at = None,
         rd_reason = ''Max attempts ('' @ int_str mx @ '') exhausted'', rd_retry_exhausted = True\<rparr>
      else
        (let d = jittered (get_policy m ph) rnd n in
         \<lparr>rd_should_retry = True, rd_next_attempt = n + 1, rd_delay_seconds = d,
          rd_next_retry_at = Some (now + round_even (d * 1000000)),
          rd_reason = ''Retry '' @ int_str (n + 1) @ ''/'' @ int_str mx @ '' scheduled'',
          rd_retry_exhausted = False\<rparr>))"

section \<open>Stale detection\<close>

record stale_thresholds =
  st_heartbeat_timeout_seconds :: int
  st_update_timeout_seconds :: int
  st_max_duration_seconds :: int
  st_phase_timeouts :: "(runner_phase \<times> int) list"

definition DEFAULT_STALE_THRESHOLDS :: stale_thresholds where
  "DEFAULT_STALE_THRESHOLDS = \<lparr>st_heartbeat_timeout_seconds = 300, st_update_timeout_seconds = 600,
     st_max_duration_seconds = 3600, st_phase_timeouts = []\<rparr>"

definition phase_timeout :: "stale_thresholds \<Rightarrow> task_execution \<Rightarrow> int \<Rightarrow> exn + int" where
  "phase_timeout th e dflt =
     (case (if str_truthy (e_phase e) then runner_phase_of (the (e_phase e)) else Inr PH_STREAM) of
        Inl x \<Rightarrow> Inl x
      | Inr p \<Rightarrow> Inr (dict_get (st_phase_timeouts th) p dflt))"

definition is_execution_stale :: "stale_thresholds \<Rightarrow> datetime \<Rightarrow> task_execution \<Rightarrow> exn + bool" where
  "is_execution_stale th now e =
     (case e_started_at e of
        None \<Rightarrow> Inr (now - e_created_at e > microseconds (st_update_timeout_seconds th))
      | Some started \<Rightarrow>
          (case (case e_heartbeat_at e of
                   None \<Rightarrow> Inr False
                 | Some h \<Rightarrow> (case phase_timeout th e (st_heartbeat_timeout_seconds th) of
                       Inl x \<Rightarrow> Inl x
                     | Inr t \<Rightarrow> Inr (now - h > microseconds t))) of
             Inl x \<Rightarrow> Inl x
           | Inr True \<Rightarrow> Inr True
           | Inr False \<Rightarrow>
               if now - e_updated_at e > microseconds (st_update_timeout_seconds th) then Inr True
               else (case phase_timeout th e (st_max_duration_seconds th) of
                   Inl x \<Rightarrow> Inl x
                 | Inr t \<Rightarrow> Inr (now - started > microseconds t))))"

definition default_stale_statuses :: "string list" where
  "default_stale_statuses =
     [''queued'', ''dispatching'', ''in_progress'', ''result_inspection'', ''adopting_commit'']"

definition stale_row :: "stale_thresholds \<Rightarrow> datetime \<Rightarrow> string list \<Rightarrow> task_execution \<Rightarrow> bool" where
  "stale_row th now sts e =
     (execution_status_value (e_status e) \<in> set sts \<and>
      ((case e_heartbeat_at e of None \<Rightarrow> False
          | Some h \<Rightarrow> h \<le> now - microseconds (st_heartbeat_timeout_seconds th)) \<or>
       e_updated_at e \<le> now - microseconds (st_update_timeout_seconds th) \<or>
       (case e_started_at e of None \<Rightarrow> False
          | Some s \<Rightarrow> s \<le> now - microseconds (st_max_duration_seconds th))))"

definition find_stale_executions ::
    "stale_thresholds \<Rightarrow> datetime \<Rightarrow> string list option \<Rightarrow> db \<Rightarrow> task_execution list" where
  "find_stale_executions th now sts d =
     filter (stale_row th now (case sts of None \<Rightarrow> default_stale_statuses | Some l \<Rightarrow> l)) (executions d)"

section \<open>Recovery actions\<close>

datatype recovery_action = RA_OBSERVE | RA_RETRY | RA_REVIEW | RA_FAILED | RA_REVALIDATE_ADOPTION

fun recovery_action_value :: "recovery_action \<Rightarrow> string" where
  "recovery_action_value RA_OBSERVE = ''observe''"
| "recovery_action_value RA_RETRY = ''retry''"
| "recovery_action_value RA_REVIEW = ''review''"
| "recovery_action_value RA_FAILED = ''failed''"
| "recovery_action_value RA_REVALIDATE_ADOPTION = ''revalidate_adoption''"

record recovery_decision =
  rc_action :: recovery_action
  rc_reason :: string
  rc_error_type :: error_type
  rc_phase :: runner_phase
  rc_should_update_status :: bool
  rc_new_status :: "execution_status option"
  rc_next_retry_at :: "datetime option"

section \<open>Interface: bounded retries\<close>

text \<open>
  A handler decides on each failure whether to retry. The contract: a retry is granted only
  below the limit and counts as one more attempt; nothing else changes attempt or limit.
  Whoever keeps it retries a bounded number of times, whatever the failures are.
\<close>

locale bounded_retry =
  fixes handle :: "'f \<Rightarrow> 's \<Rightarrow> bool \<times> 's"
    and attempt_of limit_of :: "'s \<Rightarrow> int"
    and inv :: "'s \<Rightarrow> bool"
  assumes handle_inv: "inv s \<Longrightarrow> inv (snd (handle f s))"
    and handle_limit: "inv s \<Longrightarrow> limit_of (snd (handle f s)) = limit_of s"
    and handle_retry: "inv s \<Longrightarrow> fst (handle f s) \<Longrightarrow>
          attempt_of s < limit_of s \<and> attempt_of (snd (handle f s)) = attempt_of s + 1"
    and handle_stop: "inv s \<Longrightarrow> \<not> fst (handle f s) \<Longrightarrow> attempt_of (snd (handle f s)) = attempt_of s"
begin

fun count_retries :: "'f list \<Rightarrow> 's \<Rightarrow> nat" where
  "count_retries [] s = 0"
| "count_retries (f # fs) s = (if fst (handle f s) then 1 else 0) + count_retries fs (snd (handle f s))"

lemma retries_bounded: "inv s \<Longrightarrow> int (count_retries fs s) \<le> max 0 (limit_of s - attempt_of s)"
proof (induction fs arbitrary: s)
  case (Cons f fs)
  note IH = Cons.IH [OF handle_inv [OF Cons.prems], of f]
  show ?case
  proof (cases "fst (handle f s)")
    case True
    with IH handle_retry [OF Cons.prems True] handle_limit [OF Cons.prems, of f] show ?thesis by simp
  next
    case False
    with IH handle_stop [OF Cons.prems False] handle_limit [OF Cons.prems, of f] show ?thesis by simp
  qed
qed simp

lemma exhausted_stays: "inv s \<Longrightarrow> limit_of s \<le> attempt_of s \<Longrightarrow> count_retries fs s = 0"
  using retries_bounded [of s fs] by simp

end

section \<open>Lemmas\<close>

lemma is_retryable_severity: "is_retryable e \<longleftrightarrow> e \<le> ET_TIMEOUT"
  by (cases e) (auto simp: is_retryable_def less_eq_error_type_def)

lemma retry_decision_iff:
  "rd_should_retry (calculate_retry_decision r now e ety ph m) \<longleftrightarrow>
     is_retryable ety \<and> current_attempt e < attempt_limit m ph e"
  "rd_retry_exhausted (calculate_retry_decision r now e ety ph m) \<longleftrightarrow>
     \<not> (is_retryable ety \<and> current_attempt e < attempt_limit m ph e)"
  by (auto simp: calculate_retry_decision_def Let_def)

lemma retry_decision_fields:
  "rd_should_retry (calculate_retry_decision r now e ety ph m) \<Longrightarrow>
     rd_next_attempt (calculate_retry_decision r now e ety ph m) = current_attempt e + 1 \<and>
     rd_delay_seconds (calculate_retry_decision r now e ety ph m) = jittered (get_policy m ph) r (current_attempt e) \<and>
     rd_next_retry_at (calculate_retry_decision r now e ety ph m) =
       Some (now + round_even (jittered (get_policy m ph) r (current_attempt e) * 1000000))"
  by (auto simp: calculate_retry_decision_def Let_def split: if_splits)

text \<open>A policy as the matrix has them: a delay that starts non-negative and does not shrink.\<close>

definition sane_policy :: "phase_retry_policy \<Rightarrow> bool" where
  "sane_policy p = (0 \<le> pol_base_delay_seconds p \<and> 0 \<le> pol_max_delay_seconds p \<and>
     1 \<le> pol_backoff_multiplier p \<and> 0 \<le> pol_jitter_factor p \<and> pol_jitter_factor p \<le> 1)"

lemma DEFAULT_RETRY_MATRIX_sane: "sane_policy (get_policy DEFAULT_RETRY_MATRIX ph)"
  by (cases ph) (simp_all add: sane_policy_def DEFAULT_RETRY_MATRIX_def policy_def)

lemma rat_pow_nonneg: "1 \<le> b \<Longrightarrow> 0 \<le> rat_pow b k"
  by (simp add: rat_pow_def)

lemma rat_pow_mono: "1 \<le> b \<Longrightarrow> 0 \<le> k \<Longrightarrow> k \<le> l \<Longrightarrow> rat_pow b k \<le> rat_pow b l"
  by (auto simp: rat_pow_def intro: power_increasing)

lemma backoff_bounds:
  assumes "sane_policy p"
  shows "0 \<le> backoff p n" and "backoff p n \<le> pol_max_delay_seconds p"
  using assms by (auto simp: backoff_def sane_policy_def min_def rat_pow_nonneg)

lemma backoff_mono:
  assumes "sane_policy p" "1 \<le> n" "n \<le> n'"
  shows "backoff p n \<le> backoff p n'"
proof -
  have "rat_pow (pol_backoff_multiplier p) (n - 1) \<le> rat_pow (pol_backoff_multiplier p) (n' - 1)"
    using assms by (intro rat_pow_mono) (auto simp: sane_policy_def)
  then have "pol_base_delay_seconds p * rat_pow (pol_backoff_multiplier p) (n - 1) \<le>
      pol_base_delay_seconds p * rat_pow (pol_backoff_multiplier p) (n' - 1)"
    using assms(1) by (intro mult_left_mono) (auto simp: sane_policy_def)
  then show ?thesis by (auto simp: backoff_def)
qed

lemma jittered_bounds:
  assumes "sane_policy p" "0 \<le> r" "r < 1"
  shows "backoff p n * (1 - pol_jitter_factor p) \<le> jittered p r n"
    and "jittered p r n \<le> backoff p n * (1 + pol_jitter_factor p)"
proof -
  let ?d = "backoff p n" and ?j = "pol_jitter_factor p"
  have d: "0 \<le> ?d" by (rule backoff_bounds(1) [OF assms(1)])
  have j: "0 \<le> ?j" "?j \<le> 1" using assms(1) by (auto simp: sane_policy_def)
  have dj: "0 \<le> ?d * ?j" using d j by simp
  have "- 1 \<le> 2 * r - 1" "2 * r - 1 \<le> 1" using assms(2,3) by auto
  then have "?d * ?j * (- 1) \<le> ?d * ?j * (2 * r - 1)" "?d * ?j * (2 * r - 1) \<le> ?d * ?j * 1"
    using mult_left_mono [OF _ dj, of "- 1" "2 * r - 1"] mult_left_mono [OF _ dj, of "2 * r - 1" 1]
    by simp_all
  moreover have "0 \<le> ?d * (1 - ?j)" "0 \<le> ?d * (1 + ?j)" using d j by simp_all
  ultimately show "?d * (1 - ?j) \<le> jittered p r n" "jittered p r n \<le> ?d * (1 + ?j)"
    by (auto simp: jittered_def Let_def algebra_simps)
qed

lemma round_even_bounds: "\<lfloor>x\<rfloor> \<le> round_even x" "round_even x \<le> \<lfloor>x\<rfloor> + 1"
  by (auto simp: round_even_def Let_def)

text \<open>The classification by its cases, one lemma per outcome of interest.\<close>

lemma classify_timeout:
  "any_in [''timeout'', ''timed out''] (lower (ra_text x)) \<Longrightarrow> classify_error x = ET_TIMEOUT"
  by (simp add: any_in_def classify_error_def Let_def)

lemma http_status_not_contract: "http_status_type c \<noteq> Some ET_CONTRACT_VIOLATION"
  by (simp add: http_status_type_def)

lemma http_status_conflict: "http_status_type c = Some ET_CONFLICT \<Longrightarrow> c = 409"
  by (simp add: http_status_type_def split: if_splits)

lemma classify_contract:
  "classify_error x = ET_CONTRACT_VIOLATION \<Longrightarrow> ra_class x = X_Contract \<and>
      \<not> any_in [''timeout'', ''timed out'', ''network'', ''unreachable'', ''conflict'', ''already exists'',
          ''validation'', ''invalid''] (lower (ra_text x))"
  using http_status_not_contract
  by (simp add: any_in_def classify_error_def Let_def split: if_splits option.splits exception_class.splits)

lemma merge_conflict_conflict: "str_in ''merge conflict'' s \<Longrightarrow> str_in ''conflict'' s"
proof -
  have "str_in ''conflict'' ''merge conflict''" by code_simp
  then show "str_in ''merge conflict'' s \<Longrightarrow> str_in ''conflict'' s" by (rule str_in_trans)
qed

lemma classify_conflict:
  "classify_error x = ET_CONFLICT \<Longrightarrow> ra_class x = X_Conflict \<or> ra_class x = X_HttpStatus 409 \<or>
      any_in [''conflict'', ''already exists''] (lower (ra_text x))"
  using http_status_conflict merge_conflict_conflict [of "lower (ra_text x)"]
  by (cases "ra_class x"; auto simp: any_in_def classify_error_def Let_def split: if_splits option.splits)

lemma classify_permanent:
  "ra_class x = X_Other \<and> classify_error x = ET_PERMANENT \<Longrightarrow>
      \<not> any_in [''timeout'', ''timed out'', ''network'', ''unreachable'', ''conflict'', ''already exists'',
          ''validation'', ''invalid'', ''dns'', ''resolve'', ''busy'', ''too many''] (lower (ra_text x))"
proof -
  assume a: "ra_class x = X_Other \<and> classify_error x = ET_PERMANENT"
  then have "ra_class x = X_Other" by simp
  with a show ?thesis
    by (simp add: any_in_def classify_error_def Let_def split: if_splits)
qed

section \<open>Properties\<close>

text \<open>
  Classification. A message that says timeout is a timeout whatever the exception is;
  otherwise a connection error is transient, a conflict error or message is a conflict, and
  a validation error, \<open>ValueError\<close> or message is a validation failure, in this order; an
  exception without any keyword and status is permanent. A contract violation is only
  recognised by its class, never by its message: the keyword test for it cannot succeed.
\<close>

theorem classify_error_spec:
  "(any_in [''timeout'', ''timed out''] (lower (ra_text x)) \<longrightarrow> classify_error x = ET_TIMEOUT) \<and>
   (classify_error x = ET_CONTRACT_VIOLATION \<longrightarrow> ra_class x = X_Contract \<and>
      \<not> any_in [''timeout'', ''timed out'', ''network'', ''unreachable'', ''conflict'', ''already exists'',
          ''validation'', ''invalid''] (lower (ra_text x))) \<and>
   (classify_error x = ET_CONFLICT \<longrightarrow> ra_class x = X_Conflict \<or> ra_class x = X_HttpStatus 409 \<or>
      any_in [''conflict'', ''already exists''] (lower (ra_text x))) \<and>
   (ra_class x = X_Other \<and> classify_error x = ET_PERMANENT \<longrightarrow>
      \<not> any_in [''timeout'', ''timed out'', ''network'', ''unreachable'', ''conflict'', ''already exists'',
          ''validation'', ''invalid'', ''dns'', ''resolve'', ''busy'', ''too many''] (lower (ra_text x)))"
  using classify_timeout classify_contract classify_conflict classify_permanent by blast

theorem classify_error_spec_witness:
  "classify_error \<lparr>ra_class = X_Other, ra_text = ''Schema invalid''\<rparr> = ET_VALIDATION_FAILED \<and>
   classify_error \<lparr>ra_class = X_Other, ra_text = ''Request TIMED OUT''\<rparr> = ET_TIMEOUT"
proof -
  have "any_in [''timeout'', ''timed out''] (lower ''Request TIMED OUT'')" by code_simp
  then have "classify_error \<lparr>ra_class = X_Other, ra_text = ''Request TIMED OUT''\<rparr> = ET_TIMEOUT"
    using classify_error_spec [of "\<lparr>ra_class = X_Other, ra_text = ''Request TIMED OUT''\<rparr>"] by simp
  moreover have "classify_error \<lparr>ra_class = X_Other, ra_text = ''Schema invalid''\<rparr> = ET_VALIDATION_FAILED"
    by code_simp
  ultimately show ?thesis by simp
qed



text \<open>The attempt limit of an execution row (3 by default) replaces the one of the phase.\<close>

lemma phase_limit_ignored: "e_max_attempts e \<noteq> 0 \<Longrightarrow> attempt_limit m ph e = e_max_attempts e"
  by (simp add: attempt_limit_def)

text \<open>
  C36: Stale detection. Without phase overrides, a started execution in one of the queried
  statuses that the row test calls stale is found by the query; and what the query finds is
  stale by the row test one microsecond later, unless its phase is not a valid one.
\<close>

theorem stale_query_agrees:
  assumes "e \<in> set (executions d)" and "e_started_at e \<noteq> None"
    and "execution_status_value (e_status e) \<in> set default_stale_statuses"
    and "st_phase_timeouts th = []"
  shows "(is_execution_stale th now e = Inr True \<longrightarrow> e \<in> set (find_stale_executions th now None d)) \<and>
    (e \<in> set (find_stale_executions th now None d) \<longrightarrow>
       is_execution_stale th (now + 1) e = Inr True \<or> (\<exists>x. is_execution_stale th (now + 1) e = Inl x))"
proof -
  have pt: "phase_timeout th e k = Inr k \<or> (\<exists>x. \<forall>k. phase_timeout th e k = Inl x)" for k
    using assms(4) by (auto simp: phase_timeout_def dict_get_def split: sum.split)
  obtain s where s: "e_started_at e = Some s" using assms(2) by auto
  show ?thesis
  proof (cases "\<exists>x. \<forall>k. phase_timeout th e k = Inl x")
    case True
    then obtain x where x: "phase_timeout th e k = Inl x" for k by blast
    show ?thesis using assms(1,3) s
      by (cases "e_heartbeat_at e")
         (auto simp: is_execution_stale_def find_stale_executions_def stale_row_def x split: if_splits bool.splits)
  next
    case False
    then have k: "phase_timeout th e k = Inr k" for k using pt by blast
    show ?thesis using assms(1,3) s
      by (cases "e_heartbeat_at e")
         (auto simp: is_execution_stale_def find_stale_executions_def stale_row_def k split: if_splits bool.splits)
  qed
qed

theorem stale_query_agrees_witness:
  "let e = new_execution 1 ''c'' 0 1 ''r''; d = sample_db\<lparr>executions := [e]\<rparr>; now = microseconds 601 in
   is_execution_stale DEFAULT_STALE_THRESHOLDS now e = Inr True \<and>
   e \<in> set (find_stale_executions DEFAULT_STALE_THRESHOLDS now None d)"
proof -
  let ?e = "new_execution 1 ''c'' 0 1 ''r''" let ?d = "sample_db\<lparr>executions := [?e]\<rparr>"
  have s: "is_execution_stale DEFAULT_STALE_THRESHOLDS (microseconds 601) ?e = Inr True"
    by (simp add: is_execution_stale_def new_execution_def DEFAULT_STALE_THRESHOLDS_def microseconds_def)
  have "?e \<in> set (find_stale_executions DEFAULT_STALE_THRESHOLDS (microseconds 601) None ?d)"
    using stale_query_agrees [of ?e ?d DEFAULT_STALE_THRESHOLDS "microseconds 601"] s
    by (simp add: new_execution_def default_stale_statuses_def DEFAULT_STALE_THRESHOLDS_def)
  with s show ?thesis by (simp add: Let_def)
qed

end
