(* ===== verification/Runner_Recovery.thy ===== *)
theory Runner_Recovery
  imports Error_Classification
begin

text \<open>
  \<open>runner/recovery.py\<close>: what the runner does about a failed or stale execution, the events
  it records, and the git checks before a write task is retried. The handlers change the
  loaded execution object; they are functions from the object to the decision and the
  changed object, and the session-level operations put it into the working database.
\<close>

section \<open>RecoveryService: decisions\<close>

definition simple_decision ::
    "recovery_action \<Rightarrow> string \<Rightarrow> error_type \<Rightarrow> runner_phase \<Rightarrow> recovery_decision" where
  "simple_decision a why ety ph = \<lparr>rc_action = a, rc_reason = why, rc_error_type = ety, rc_phase = ph,
     rc_should_update_status = False, rc_new_status = None, rc_next_retry_at = None\<rparr>"

definition handle_error ::
    "retry_matrix \<Rightarrow> rat \<Rightarrow> datetime \<Rightarrow> raised \<Rightarrow> runner_phase \<Rightarrow> task_execution \<Rightarrow>
     recovery_decision \<times> task_execution" where
  "handle_error m rnd now x ph e =
     (let ety = classify_error x;
          e1 = e\<lparr>e_error_type := Some (error_type_value ety), e_error_message := Some (ra_text x)\<rparr>;
          rd = calculate_retry_decision rnd now e1 ety ph m
      in if rd_retry_exhausted rd then
           (if ety = ET_CONFLICT then
              ((simple_decision RA_REVIEW (''Conflict error requires manual intervention: '' @ ra_text x) ety ph)
                 \<lparr>rc_should_update_status := True, rc_new_status := Some ES_REVIEW\<rparr>, e1)
            else
              ((simple_decision RA_FAILED (''Recovery exhausted: '' @ rd_reason rd) ety ph)
                 \<lparr>rc_should_update_status := True, rc_new_status := Some ES_FAILED\<rparr>, e1))
         else if rd_should_retry rd then
           ((simple_decision RA_RETRY (rd_reason rd) ety ph)\<lparr>rc_next_retry_at := rd_next_retry_at rd\<rparr>,
            e1\<lparr>e_attempt := rd_next_attempt rd, e_next_retry_at := rd_next_retry_at rd\<rparr>)
         else (simple_decision RA_OBSERVE ''Error logged but no action required'' ety ph, e1))"

text \<open>
  The phase is parsed first, so an unknown one raises before the test for a stale adoption;
  the retry decision uses the default matrix, whatever the service was configured with.
\<close>

definition handle_stale_execution ::
    "rat \<Rightarrow> datetime \<Rightarrow> task_execution \<Rightarrow> exn + recovery_decision \<times> task_execution" where
  "handle_stale_execution rnd now e =
     (case (if str_truthy (e_phase e) then runner_phase_of (the (e_phase e)) else Inr PH_STREAM) of
        Inl x \<Rightarrow> Inl x
      | Inr ph \<Rightarrow>
          if e_phase e = Some ''adopting_commit'' then
            Inr (simple_decision RA_REVALIDATE_ADOPTION ''Stale during commit adoption - revalidate''
                   ET_TRANSIENT ph, e)
          else
            (let rd = calculate_retry_decision rnd now e ET_TRANSIENT ph DEFAULT_RETRY_MATRIX in
             if rd_should_retry rd then
               Inr ((simple_decision RA_RETRY (''Stale execution - scheduling retry: '' @ rd_reason rd)
                       ET_TRANSIENT ph)\<lparr>rc_next_retry_at := rd_next_retry_at rd\<rparr>,
                    e\<lparr>e_attempt := rd_next_attempt rd, e_next_retry_at := rd_next_retry_at rd\<rparr>)
             else
               Inr ((simple_decision RA_FAILED (''Stale execution - retry exhausted: '' @ rd_reason rd)
                       ET_TRANSIENT ph)
                      \<lparr>rc_should_update_status := True, rc_new_status := Some ES_FAILED\<rparr>, e)))"

section \<open>RecoveryService: applying a decision\<close>

text \<open>
  The dictionary of \<open>_apply_recovery_decision\<close> is built on every call, and building it looks
  every member up by name. \<open>RecoveryAction\<close> has no member \<open>RETRY_EXHAUSTED\<close>.
\<close>

definition recovery_action_member :: "string \<Rightarrow> recovery_action option" where
  "recovery_action_member n = map_of [(''OBSERVE'', RA_OBSERVE), (''RETRY'', RA_RETRY),
     (''REVIEW'', RA_REVIEW), (''FAILED'', RA_FAILED),
     (''REVALIDATE_ADOPTION'', RA_REVALIDATE_ADOPTION)] n"

definition recovery_event_types :: "(string \<times> event_type) list" where
  "recovery_event_types = [(''RETRY'', EV_RETRY_SCHEDULED), (''RETRY_EXHAUSTED'', EV_RETRY_EXHAUSTED),
     (''FAILED'', EV_EXECUTION_FAILED), (''REVIEW'', EV_EXECUTION_FAILED),
     (''REVALIDATE_ADOPTION'', EV_COMMIT_ADOPTION_CONFLICT)]"

fun build_action_table ::
    "(string \<times> event_type) list \<Rightarrow> exn + (recovery_action \<times> event_type) list" where
  "build_action_table [] = Inr []"
| "build_action_table ((n, v) # rows) =
     (case recovery_action_member n of
        None \<Rightarrow> Inl (AttributeError (''type object RecoveryAction has no attribute '' @ n))
      | Some a \<Rightarrow> (case build_action_table rows of Inl x \<Rightarrow> Inl x | Inr t \<Rightarrow> Inr ((a, v) # t)))"

definition recovery_payload :: "recovery_decision \<Rightarrow> (string \<times> json) list" where
  "recovery_payload r =
     [(''action'', JStr (recovery_action_value (rc_action r))), (''reason'', JStr (rc_reason r)),
      (''error_type'', JStr (error_type_value (rc_error_type r))),
      (''phase'', JStr (runner_phase_value (rc_phase r)))]"

definition applied_event ::
    "(recovery_action \<times> event_type) list \<Rightarrow> datetime \<Rightarrow> recovery_decision \<Rightarrow> task_execution \<Rightarrow>
     execution_event list \<Rightarrow> execution_event" where
  "applied_event tab now r e evs =
     \<lparr>v_execution_id = e_id e,
      v_sequence = (if evs = [] then 1 else v_sequence (last evs) + 1),
      v_external_event_id = None, v_direction = ED_OUTBOUND,
      v_event_type = dict_get tab (rc_action r) EV_STATUS_UPDATE,
      v_payload = recovery_payload r, v_correlation_id = e_correlation_id e, v_created_at = now\<rparr>"

definition decided_execution :: "datetime \<Rightarrow> recovery_decision \<Rightarrow> task_execution \<Rightarrow> task_execution" where
  "decided_execution now r e =
     (let e1 = (if rc_should_update_status r then
                  (case rc_new_status r of
                     None \<Rightarrow> e
                   | Some st \<Rightarrow>
                       (let e' = e\<lparr>e_status := st\<rparr> in
                        if st = ES_FAILED then e'\<lparr>e_finished_at := Some now\<rparr>
                        else if st = ES_REVIEW then e'\<lparr>e_finished_at := Some now\<rparr>
                        else e'))
                else e)
      in (case rc_next_retry_at r of None \<Rightarrow> e1 | Some t \<Rightarrow> e1\<lparr>e_next_retry_at := Some t\<rparr>))"

text \<open>The table of names is an argument, so that the rest of the function can be studied.\<close>

definition apply_recovery_decision ::
    "(string \<times> event_type) list \<Rightarrow> datetime \<Rightarrow> recovery_decision \<Rightarrow> task_execution \<Rightarrow> session \<Rightarrow>
     (exn + unit) \<times> session" where
  "apply_recovery_decision names now r e s =
     (case build_action_table names of
        Inl x \<Rightarrow> (Inl x, s)
      | Inr tab \<Rightarrow>
          (case insert_event (applied_event tab now r e (events_of (working s) (e_id e)))
                  (put_execution (e_id e) (\<lambda>_. decided_execution now r e) (working s)) of
             Inl x \<Rightarrow> (Inl x, rollback s)
           | Inr d \<Rightarrow> (Inr (), commit (s\<lparr>working := d\<rparr>))))"

definition process_one_stale ::
    "(string \<times> event_type) list \<Rightarrow> rat \<Rightarrow> datetime \<Rightarrow> task_execution \<Rightarrow> int \<times> session \<Rightarrow> int \<times> session" where
  "process_one_stale names rnd now e acc =
     (case acc of (n, s) \<Rightarrow>
       (case handle_stale_execution rnd now e of
          Inl x \<Rightarrow> (n, s)
        | Inr (r, e') \<Rightarrow>
            (case apply_recovery_decision names now r e' (modify (put_execution (e_id e) (\<lambda>_. e')) s) of
               (Inl x, s') \<Rightarrow> (n, s')
             | (Inr _, s') \<Rightarrow> (n + 1, s'))))"

definition process_stale_executions ::
    "(string \<times> event_type) list \<Rightarrow> stale_thresholds \<Rightarrow> rat \<Rightarrow> datetime \<Rightarrow> session \<Rightarrow> int \<times> session" where
  "process_stale_executions names th rnd now s =
     fold (process_one_stale names rnd now) (find_stale_executions th now None (working s)) (0, s)"

section \<open>Recovery events\<close>

definition create_recovery_event ::
    "datetime \<Rightarrow> recovery_action \<Rightarrow> string \<Rightarrow> error_type \<Rightarrow> runner_phase \<Rightarrow> task_execution \<Rightarrow>
     execution_event list \<Rightarrow> execution_event" where
  "create_recovery_event now a why ety ph e evs =
     \<lparr>v_execution_id = e_id e,
      v_sequence = (if evs = [] then 1 else Max (set (map v_sequence evs)) + 1),
      v_external_event_id = None, v_direction = ED_OUTBOUND,
      v_event_type = (if a = RA_RETRY then EV_RETRY_SCHEDULED
        else if a = RA_FAILED then EV_RETRY_EXHAUSTED else EV_STATUS_UPDATE),
      v_payload = [(''action'', JStr (recovery_action_value a)), (''reason'', JStr why),
        (''error_type'', JStr (error_type_value ety)), (''phase'', JStr (runner_phase_value ph)),
        (''attempt'', JInt (e_attempt e)), (''max_attempts'', JInt (e_max_attempts e))],
      v_correlation_id = e_correlation_id e, v_created_at = now\<rparr>"

definition add_event :: "execution_event \<Rightarrow> db \<Rightarrow> db" where
  "add_event v d = d\<lparr>events := events d @ [v]\<rparr>"

definition add_recovery_event ::
    "task_execution \<Rightarrow> datetime \<times> recovery_action \<times> string \<times> error_type \<times> runner_phase \<Rightarrow> db \<Rightarrow> db" where
  "add_recovery_event e x d = (case x of (now, a, why, ety, ph) \<Rightarrow>
     add_event (create_recovery_event now a why ety ph e (events_of d (e_id e))) d)"

lemma numbers_append:
  assumes "v_execution_id v = i" "\<forall>m \<in> set (map v_sequence (events_of d i)). m < v_sequence v"
  shows "\<exists>n. map v_sequence (events_of (add_event v d) i) = map v_sequence (events_of d i) @ [n] \<and>
    (\<forall>m \<in> set (map v_sequence (events_of d i)). m < n)"
  using assms by (auto simp: add_event_def events_of_def)

interpretation recovery_log: sequence_log "\<lambda>d. map v_sequence (events_of d (e_id e))" "add_recovery_event e"
  for e
proof
  fix x :: "datetime \<times> recovery_action \<times> string \<times> error_type \<times> runner_phase" and d
  obtain now a why ety ph where x: "x = (now, a, why, ety, ph)" by (cases x)
  show "\<exists>n. map v_sequence (events_of (add_recovery_event e x d) (e_id e)) =
      map v_sequence (events_of d (e_id e)) @ [n] \<and> (\<forall>m \<in> set (map v_sequence (events_of d (e_id e))). m < n)"
    unfolding x add_recovery_event_def prod.case
    by (rule numbers_append) (auto simp: create_recovery_event_def intro: le_less_trans [OF Max_ge])
qed

section \<open>WriteTaskRecovery\<close>

text \<open>
  The module tests \<open>GITPYTHON_AVAILABLE\<close>, which it never defines: \<open>None\<close> models the lookup
  that fails. The worktree is what the git library reports about it.
\<close>

definition gitpython_available :: "bool option \<Rightarrow> exn + bool" where
  "gitpython_available g = (case g of Some b \<Rightarrow> Inr b
     | None \<Rightarrow> Inl (NameError ''name GITPYTHON_AVAILABLE is not defined''))"

datatype repo_view =
    NoPath
  | NotARepo
  | RepoError string
  | Repo string bool "string list" "(int \<times> int) option"

record worktree_status =
  ws_exists :: bool
  ws_is_git_repo :: bool
  ws_current_branch :: "string option"
  ws_has_uncommitted_changes :: bool
  ws_untracked_files :: "string list"
  ws_ahead_behind :: "(int \<times> int) option"

definition no_worktree :: worktree_status where
  "no_worktree = \<lparr>ws_exists = False, ws_is_git_repo = False, ws_current_branch = None,
     ws_has_uncommitted_changes = False, ws_untracked_files = [], ws_ahead_behind = None\<rparr>"

definition check_worktree_status ::
    "bool option \<Rightarrow> (string \<Rightarrow> repo_view) \<Rightarrow> task_execution \<Rightarrow> exn + worktree_status" where
  "check_worktree_status avail view e =
     (case gitpython_available avail of
        Inl x \<Rightarrow> Inl x
      | Inr False \<Rightarrow> Inr no_worktree
      | Inr True \<Rightarrow>
          Inr (if \<not> str_truthy (e_worktree_path e) then no_worktree
            else (case view (the (e_worktree_path e)) of
                NoPath \<Rightarrow> no_worktree
              | NotARepo \<Rightarrow> no_worktree\<lparr>ws_exists := True\<rparr>
              | RepoError m \<Rightarrow> no_worktree\<lparr>ws_exists := True\<rparr>
              | Repo b dirty untracked ab \<Rightarrow>
                  \<lparr>ws_exists = True, ws_is_git_repo = True, ws_current_branch = Some b,
                   ws_has_uncommitted_changes = dirty, ws_untracked_files = untracked,
                   ws_ahead_behind = ab\<rparr>)))"

text \<open>
  \<open>reachable\<close> answers for the target branch: \<open>None\<close> when the branch is missing, otherwise for
  each commit whether it is reachable, or unknown to the repository.
\<close>

record adoption_status =
  as_already_adopted :: bool
  as_adopted_commits :: "string list"
  as_conflict_detected :: bool

definition check_adoption_status ::
    "bool option \<Rightarrow> (string \<Rightarrow> repo_view) \<Rightarrow> (string \<Rightarrow> bool option) option \<Rightarrow> task_execution \<Rightarrow>
     exn + adoption_status" where
  "check_adoption_status avail view reachable e =
     (let none = \<lparr>as_already_adopted = False, as_adopted_commits = [], as_conflict_detected = False\<rparr> in
      case gitpython_available avail of
        Inl x \<Rightarrow> Inl x
      | Inr False \<Rightarrow> Inr none
      | Inr True \<Rightarrow>
          Inr (if \<not> str_truthy (e_worktree_path e) \<or> e_new_commit_shas e \<in> {None, Some []} then none
            else (case view (the (e_worktree_path e)) of
                Repo b dirty untracked ab \<Rightarrow>
                  (case reachable of
                     None \<Rightarrow> none
                   | Some f \<Rightarrow>
                       (let cs = filter (\<lambda>c. f c = Some True) (the (e_new_commit_shas e)) in
                        none\<lparr>as_already_adopted := (cs \<noteq> []), as_adopted_commits := cs\<rparr>))
              | _ \<Rightarrow> none)))"

record retry_validation =
  rv_safe_to_retry :: bool
  rv_warnings :: "string list"
  rv_errors :: "string list"

definition validate_retry_safety ::
    "bool option \<Rightarrow> (string \<Rightarrow> repo_view) \<Rightarrow> (string \<Rightarrow> bool option) option \<Rightarrow> task_execution \<Rightarrow>
     exn + retry_validation" where
  "validate_retry_safety avail view reachable e =
     (case check_worktree_status avail view e of
        Inl x \<Rightarrow> Inl x
      | Inr ws \<Rightarrow>
          (case check_adoption_status avail view reachable e of
             Inl x \<Rightarrow> Inl x
           | Inr ad \<Rightarrow>
               Inr \<lparr>rv_safe_to_retry = (\<not> ws_has_uncommitted_changes ws),
                 rv_warnings =
                   (if ws_has_uncommitted_changes ws
                      then [''Worktree has uncommitted changes - retry may lose changes''] else []) @
                   (if as_already_adopted ad
                      then [''Commits already adopted: '' @ json_repr (JList (map JStr (as_adopted_commits ad)))]
                      else []) @
                   (case ws_ahead_behind ws of
                      None \<Rightarrow> []
                    | Some (ahead, behind) \<Rightarrow> if ahead > 0
                        then [''Worktree is '' @ int_str ahead @ '' commits ahead of remote''] else []) @
                   (if ws_untracked_files ws \<noteq> []
                      then [''Untracked files present: '' @ nat_str (length (ws_untracked_files ws))] else []),
                 rv_errors = (if ws_has_uncommitted_changes ws
                   then [''Uncommitted changes must be handled before retry''] else [])\<rparr>))"

record cleanup_result =
  cr_success :: bool
  cr_actions_taken :: "string list"
  cr_errors :: "string list"

text \<open>
  The clean-up, with what it leaves in the worktree. The number of removed files is read
  after the removal, so it is what the library reports then: none.
\<close>

definition cleanup_write_worktree ::
    "bool option \<Rightarrow> (string \<Rightarrow> repo_view) \<Rightarrow> bool \<Rightarrow> task_execution \<Rightarrow>
     exn + cleanup_result \<times> (string \<Rightarrow> repo_view)" where
  "cleanup_write_worktree avail view force e =
     (case gitpython_available avail of
        Inl x \<Rightarrow> Inl x
      | Inr False \<Rightarrow> Inr (\<lparr>cr_success = False, cr_actions_taken = [],
          cr_errors = [''GitPython not available - cleanup disabled'']\<rparr>, view)
      | Inr True \<Rightarrow>
          Inr (if \<not> str_truthy (e_worktree_path e) then
              (\<lparr>cr_success = False, cr_actions_taken = [], cr_errors = [''No worktree path specified'']\<rparr>, view)
            else (let p = the (e_worktree_path e) in case view p of
                NoPath \<Rightarrow> (\<lparr>cr_success = True,
                  cr_actions_taken = [''Worktree does not exist - nothing to clean''], cr_errors = []\<rparr>, view)
              | NotARepo \<Rightarrow> (\<lparr>cr_success = False, cr_actions_taken = [], cr_errors = [''Cleanup failed: '' @ p]\<rparr>, view)
              | RepoError m \<Rightarrow> (\<lparr>cr_success = False, cr_actions_taken = [],
                  cr_errors = [''Cleanup failed: '' @ m]\<rparr>, view)
              | Repo b dirty untracked ab \<Rightarrow>
                  if dirty \<and> \<not> force then
                    (\<lparr>cr_success = False, cr_actions_taken = [],
                      cr_errors = [''Worktree has uncommitted changes - use force=True to discard'']\<rparr>, view)
                  else
                    (\<lparr>cr_success = True,
                      cr_actions_taken =
                        (if dirty then [''Discarded uncommitted changes''] else []) @
                        (if untracked \<noteq> [] then [''Removed 0 untracked files''] else []),
                      cr_errors = []\<rparr>, view(p := Repo b False [] ab)))))"

section \<open>Bounded recovery\<close>

text \<open>Both handlers as one: an error in a phase, or the detection of staleness.\<close>

type_synonym failure = "(retry_matrix \<times> rat \<times> datetime \<times> raised \<times> runner_phase) + (rat \<times> datetime)"

fun handle_failure :: "failure \<Rightarrow> task_execution \<Rightarrow> bool \<times> task_execution" where
  "handle_failure (Inl (m, rnd, now, x, ph)) e =
     (case handle_error m rnd now x ph e of (r, e') \<Rightarrow> (rc_action r = RA_RETRY, e'))"
| "handle_failure (Inr (rnd, now)) e =
     (case handle_stale_execution rnd now e of
        Inl x \<Rightarrow> (False, e) | Inr (r, e') \<Rightarrow> (rc_action r = RA_RETRY, e'))"

definition countable :: "task_execution \<Rightarrow> bool" where
  "countable e = (0 \<le> e_attempt e \<and> e_max_attempts e \<noteq> 0)"

lemma handle_error_cases:
  "handle_error m rnd now x ph e = (r, e') \<Longrightarrow>
    (if is_retryable (classify_error x) \<and> current_attempt e < attempt_limit m ph e
     then rc_action r = RA_RETRY \<and> rc_new_status r = None \<and> e_attempt e' = current_attempt e + 1
     else rc_action r = (if classify_error x = ET_CONFLICT then RA_REVIEW else RA_FAILED) \<and>
       rc_should_update_status r \<and>
       rc_new_status r = Some (if classify_error x = ET_CONFLICT then ES_REVIEW else ES_FAILED) \<and>
       e_attempt e' = e_attempt e) \<and>
    e_max_attempts e' = e_max_attempts e \<and> e_id e' = e_id e \<and> e_task_id e' = e_task_id e \<and>
    e_status e' = e_status e \<and> e_error_type e' = Some (error_type_value (classify_error x))"
proof -
  let ?e = "e\<lparr>e_error_type := Some (error_type_value (classify_error x)), e_error_message := Some (ra_text x)\<rparr>"
  have n: "current_attempt ?e = current_attempt e" "attempt_limit m ph ?e = attempt_limit m ph e"
    by (simp_all add: current_attempt_def attempt_limit_def)
  note d = handle_error_def Let_def calculate_retry_decision_def n simple_decision_def
  assume h: "handle_error m rnd now x ph e = (r, e')"
  consider "\<not> is_retryable (classify_error x)" | "is_retryable (classify_error x)" "attempt_limit m ph e \<le> current_attempt e"
    | "is_retryable (classify_error x)" "current_attempt e < attempt_limit m ph e" by linarith
  then show ?thesis
    using h by cases (auto simp: d split: if_splits)
qed

lemma handle_stale_cases:
  "handle_stale_execution rnd now e = Inr (r, e') \<Longrightarrow>
    (if rc_action r = RA_RETRY
     then current_attempt e < attempt_limit DEFAULT_RETRY_MATRIX (rc_phase r) e \<and> e_attempt e' = current_attempt e + 1
     else e' = e) \<and>
    e_max_attempts e' = e_max_attempts e \<and> e_id e' = e_id e \<and> e_task_id e' = e_task_id e \<and>
    e_status e' = e_status e"
  by (auto simp: handle_stale_execution_def Let_def calculate_retry_decision_def simple_decision_def
      is_retryable_def split: if_splits sum.splits)

lemma handle_failure_step:
  assumes c: "countable e"
  shows "countable (snd (handle_failure f e)) \<and>
      e_max_attempts (snd (handle_failure f e)) = e_max_attempts e \<and>
      (fst (handle_failure f e) \<longrightarrow> current_attempt e < e_max_attempts e \<and>
         current_attempt (snd (handle_failure f e)) = current_attempt e + 1) \<and>
      (\<not> fst (handle_failure f e) \<longrightarrow> current_attempt (snd (handle_failure f e)) = current_attempt e)"
proof (cases f)
  case (Inl q)
  obtain m rnd now x ph where q: "q = (m, rnd, now, x, ph)" by (cases q)
  obtain r e' where h: "handle_error m rnd now x ph e = (r, e')" by (cases "handle_error m rnd now x ph e")
  show ?thesis using handle_error_cases [OF h] c
    by (auto simp: Inl q h countable_def current_attempt_def attempt_limit_def split: if_splits)
next
  case (Inr q)
  obtain rnd now where q: "q = (rnd, now)" by (cases q)
  show ?thesis
  proof (cases "handle_stale_execution rnd now e")
    case (Inl x)
    with c show ?thesis by (simp add: Inr q)
  next
    case h: (Inr p)
    obtain r e' where p: "p = (r, e')" by (cases p)
    show ?thesis using handle_stale_cases [OF h [unfolded p]] c
      by (auto simp: Inr q h p countable_def current_attempt_def attempt_limit_def split: if_splits)
  qed
qed

interpretation recovery: bounded_retry handle_failure current_attempt e_max_attempts countable
  by unfold_locales (use handle_failure_step in blast)+

text \<open>The retries that a sequence of failures is granted.\<close>

fun granted_retries :: "failure list \<Rightarrow> task_execution \<Rightarrow> nat" where
  "granted_retries [] e = 0"
| "granted_retries (f # fs) e =
     (case handle_failure f e of (retry, e') \<Rightarrow> (if retry then 1 else 0) + granted_retries fs e')"

lemma granted_retries_count: "granted_retries fs e = recovery.count_retries fs e"
  by (induction fs arbitrary: e) (simp_all add: split_beta)

section \<open>Lemmas: applying a decision\<close>

text \<open>Replacing one loaded execution by a version of itself.\<close>

lemma wf_db_replace_execution [inv_intros]:
  assumes wf: "wf_db d" and old: "get_execution d (e_id e) = Some e0"
    and same: "e_task_id e = e_task_id e0" and act: "is_active e \<Longrightarrow> is_active e0"
  shows "wf_db (put_execution (e_id e) (\<lambda>_. e) d)"
proof -
  let ?f = "\<lambda>x. if x = e0 then e else x"
  have e0: "e0 \<in> set (executions d)" "e_id e0 = e_id e" using get_execution_Some [OF old] by auto
  have d: "distinct (map e_id (executions d))" using wf by (simp add: wf_db_def)
  have u: "x = e0" if "x \<in> set (executions d)" "e_id x = e_id e" for x
    using that e0 d by (metis distinct_map inj_onD)
  have "put_execution (e_id e) (\<lambda>_. e) d = put_execution (e_id e) ?f d"
    using u by (auto simp: put_execution_def)
  also have "wf_db \<dots>"
    by (rule wf_db_put_execution [OF wf]) (use e0 same act in \<open>auto split: if_splits\<close>)
  finally show ?thesis .
qed

lemma insert_event_next:
  assumes "i \<in> e_id ` set (executions d)" "v_execution_id v = i" "v_external_event_id v = None"
    and "\<forall>m \<in> set (map v_sequence (events_of d i)). m < v_sequence v"
  shows "insert_event v d = Inr (add_event v d)"
  using assms by (auto simp: insert_event_def add_event_def)

lemma sorted_last_max:
  "sorted_wrt (<) (map v_sequence evs) \<Longrightarrow> v \<in> set evs \<Longrightarrow> v_sequence v \<le> v_sequence (last evs)"
  by (induction evs) (auto simp: less_imp_le)

lemma decided_execution_keeps [simp]:
  "e_id (decided_execution now r e) = e_id e" "e_task_id (decided_execution now r e) = e_task_id e"
  by (simp_all add: decided_execution_def Let_def split: option.split)

lemma decided_status:
  "e_status (decided_execution now r e) = (case rc_new_status r of
     Some st \<Rightarrow> if rc_should_update_status r then st else e_status e | None \<Rightarrow> e_status e)"
  by (simp add: decided_execution_def Let_def split: option.split)

lemma put_execution_ids:
  "e_id ` set (executions (put_execution (e_id e) (\<lambda>_. e) d)) = e_id ` set (executions d)"
proof -
  let ?g = "\<lambda>x. if e_id x = e_id e then e else x"
  have g: "e_id (?g x) = e_id x" for x by simp
  have "e_id ` set (map ?g (executions d)) = (\<lambda>x. e_id (?g x)) ` set (executions d)"
    unfolding set_map image_image ..
  also have "\<dots> = e_id ` set (executions d)" unfolding g ..
  finally show ?thesis by (simp add: put_execution_def)
qed

section \<open>Properties\<close>

text \<open>
  C29: No endless retries. Whatever errors, phases, retry matrices, random numbers and
  staleness detections an execution meets, and in whatever order, it is granted at most as
  many retries as its attempt limit leaves; once the limit is reached, none.
\<close>

theorem recovery_retries_bounded:
  assumes "0 \<le> e_attempt e" and "e_max_attempts e \<noteq> 0"
  shows "int (granted_retries fs e) \<le> max 0 (e_max_attempts e - current_attempt e)"
  unfolding granted_retries_count
  by (rule recovery.retries_bounded) (simp add: countable_def assms)

theorem recovery_retries_bounded_witness:
  "int (granted_retries (replicate 5 (Inr (1 / 2, 0))) (new_execution 1 ''c'' 0 1 ''r'')) \<le> 2"
  using recovery_retries_bounded [of "new_execution 1 ''c'' 0 1 ''r''" "replicate 5 (Inr (1 / 2, 0))"]
  by (simp add: new_execution_def current_attempt_def)

text \<open>
  What follows an error. A transient or timeout error below the limit schedules a retry
  and leaves the status; otherwise a conflict sends the execution to review and everything
  else fails it. The error type is recorded in every case, and the branch that only observes
  is never taken.
\<close>

theorem handle_error_spec:
  "case handle_error m rnd now x ph e of (r, e') \<Rightarrow>
     e_error_type e' = Some (error_type_value (classify_error x)) \<and> e_status e' = e_status e \<and>
     rc_action r \<noteq> RA_OBSERVE \<and>
     (if is_retryable (classify_error x) \<and> current_attempt e < attempt_limit m ph e
      then rc_action r = RA_RETRY \<and> \<not> rc_should_update_status r \<and> e_attempt e' = current_attempt e + 1 \<and>
        rc_next_retry_at r \<noteq> None \<and> e_next_retry_at e' = rc_next_retry_at r
      else rc_new_status r = Some (if classify_error x = ET_CONFLICT then ES_REVIEW else ES_FAILED) \<and>
        rc_should_update_status r \<and> rc_next_retry_at r = None \<and> e_attempt e' = e_attempt e)"
  by (auto simp: handle_error_def Let_def calculate_retry_decision_def simple_decision_def
      current_attempt_def attempt_limit_def split: if_splits)

lemma apply_never_succeeds:
  "\<exists>m. apply_recovery_decision recovery_event_types now r e s = (Inl (AttributeError m), s)"
  by (simp add: apply_recovery_decision_def recovery_event_types_def recovery_action_member_def)

lemma stale_processing_idle:
  "case process_stale_executions recovery_event_types th rnd now s of (n, s') \<Rightarrow>
     n = 0 \<and> committed s' = committed s \<and> events (working s') = events (working s)"
proof -
  have one: "\<exists>s'. process_one_stale recovery_event_types rnd now e (n, s) = (n, s') \<and>
      committed s' = committed s \<and> events (working s') = events (working s)" for e n s
  proof (cases "handle_stale_execution rnd now e")
    case (Inl x)
    then show ?thesis by (simp add: process_one_stale_def)
  next
    case (Inr p)
    obtain r e' where p: "p = (r, e')" by (cases p)
    obtain m where "apply_recovery_decision recovery_event_types now r e'
        (modify (put_execution (e_id e) (\<lambda>_. e')) s) =
        (Inl (AttributeError m), modify (put_execution (e_id e) (\<lambda>_. e')) s)"
      using apply_never_succeeds by blast
    then show ?thesis by (simp add: process_one_stale_def Inr p)
  qed
  have "\<exists>s'. fold (process_one_stale recovery_event_types rnd now) es (n, s) = (n, s') \<and>
      committed s' = committed s \<and> events (working s') = events (working s)" for es n s
  proof (induction es arbitrary: s)
    case (Cons e es)
    obtain t where t: "process_one_stale recovery_event_types rnd now e (n, s) = (n, t)"
      "committed t = committed s" "events (working t) = events (working s)"
      using one by blast
    from Cons.IH [of t] t show ?case by auto
  qed simp
  from this [of "find_stale_executions th now None (working s)" 0 s]
  show ?thesis by (auto simp: process_stale_executions_def)
qed

text \<open>
  C38: Stale executions stay. With the table of the sources every application of a decision
  raises, so processing the stale executions always reports zero, commits nothing and adds
  no event, whatever the database and the clock are.
\<close>

theorem stale_processing_has_no_effect:
  "case process_stale_executions recovery_event_types th rnd now s of (n, s') \<Rightarrow>
     n = 0 \<and> committed s' = committed s \<and> events (working s') = events (working s)"
  by (rule stale_processing_idle)

text \<open>The table without the missing member, for the rest of the function.\<close>

definition repaired_event_types :: "(string \<times> event_type) list" where
  "repaired_event_types = filter (\<lambda>(n, v). n \<noteq> ''RETRY_EXHAUSTED'') recovery_event_types"

text \<open>
  Applying a decision, if the table can be built. For an execution of the database whose
  event numbers increase, a decision that does not reactivate it is committed: the row gets
  the new status, exactly one event with the next number is added, the database stays
  well-formed and the numbers keep increasing.
\<close>

theorem apply_decision_spec:
  assumes wf: "wf_db (working s)" and old: "get_execution (working s) (e_id e) = Some e0"
    and same: "e_task_id e = e_task_id e0"
    and act: "is_active (decided_execution now r e) \<Longrightarrow> is_active e0"
    and inc: "sorted_wrt (<) (map v_sequence (events_of (working s) (e_id e)))"
    and tab: "build_action_table names = Inr tab"
  shows "case apply_recovery_decision names now r e s of (res, s') \<Rightarrow>
     res = Inr () \<and> committed s' = working s' \<and> wf_db (committed s') \<and>
     get_execution (committed s') (e_id e) = Some (decided_execution now r e) \<and>
     (\<exists>v. events (committed s') = events (working s) @ [v] \<and>
        v_event_type v = dict_get tab (rc_action r) EV_STATUS_UPDATE) \<and>
     sorted_wrt (<) (map v_sequence (events_of (committed s') (e_id e)))"
proof -
  let ?i = "e_id e" and ?x = "decided_execution now r e"
  let ?d = "put_execution ?i (\<lambda>_. ?x) (working s)"
  let ?v = "applied_event tab now r e (events_of (working s) ?i)"
  have wfd: "wf_db ?d"
    using wf_db_replace_execution [OF wf, of ?x e0] old same act by simp
  have ev: "events_of ?d j = events_of (working s) j" for j by (simp add: events_of_def)
  have big: "\<forall>m \<in> set (map v_sequence (events_of ?d ?i)). m < v_sequence ?v"
    using sorted_last_max [OF inc] by (auto simp: ev applied_event_def)
  have "?i \<in> e_id ` set (executions (working s))" using get_execution_Some [OF old] by (metis image_eqI)
  then have "?i \<in> e_id ` set (executions ?d)"
    using put_execution_ids [of ?x "working s"] by simp
  then have ins: "insert_event ?v ?d = Inr (add_event ?v ?d)"
    using big by (intro insert_event_next) (simp_all add: applied_event_def)
  have g: "get_execution (add_event ?v ?d) ?i = Some ?x"
  proof -
    have "find (\<lambda>y. e_id y = ?i) (map (\<lambda>y. if e_id y = ?i then ?x else y) xs) =
        (if find (\<lambda>y. e_id y = ?i) xs = None then None else Some ?x)" for xs
      by (induction xs) auto
    with old show ?thesis
      by (simp add: get_execution_def add_event_def put_execution_def)
  qed
  have srt: "sorted_wrt (<) (map v_sequence (events_of (add_event ?v ?d) ?i))"
    using numbers_append [of ?v ?i ?d] big inc by (auto simp: ev applied_event_def sorted_wrt_append)
  show ?thesis
    using wf_db_insert_event [OF wfd ins] g srt
    by (simp add: apply_recovery_decision_def tab ins) (auto simp: add_event_def applied_event_def)
qed

theorem apply_decision_spec_witness:
  "let e = new_execution 7 ''c'' 0 1 ''r'';
       d = sample_db\<lparr>executions := [e], events := [claim_event (\<lambda>n. []) ''c'' 0 ''r'' 7]\<rparr>;
       r = fst (handle_error DEFAULT_RETRY_MATRIX 0 5 \<lparr>ra_class = X_Value, ra_text = ''bad''\<rparr> PH_RESULT e);
       (res, s') = apply_recovery_decision repaired_event_types 5 r e (open_session d) in
     res = Inr () \<and> map e_status (executions (committed s')) = [ES_FAILED] \<and> wf_db (committed s')"
proof -
  let ?e = "new_execution 7 ''c'' 0 1 ''r''"
  let ?d = "sample_db\<lparr>executions := [?e], events := [claim_event (\<lambda>n. []) ''c'' 0 ''r'' 7]\<rparr>"
  let ?r = "fst (handle_error DEFAULT_RETRY_MATRIX 0 5 \<lparr>ra_class = X_Value, ra_text = ''bad''\<rparr> PH_RESULT ?e)"
  let ?a = "apply_recovery_decision repaired_event_types 5 ?r ?e (open_session ?d)"
  obtain tab where tab: "build_action_table repaired_event_types = Inr tab"
    by (simp add: repaired_event_types_def recovery_event_types_def recovery_action_member_def)
  have wf: "wf_db (working (open_session ?d))"
    by (simp add: wf_db_def sample_db_def sample_task_def unique_active_def active_for_def
        events_unique_def claim_event_def)
  have g: "get_execution (working (open_session ?d)) (e_id ?e) = Some ?e" by (simp add: get_execution_def)
  have srt: "sorted_wrt (<) (map v_sequence (events_of (working (open_session ?d)) (e_id ?e)))"
    by (simp add: events_of_def claim_event_def)
  have act: "is_active (decided_execution 5 ?r ?e) \<Longrightarrow> is_active ?e" by simp
  have "fst ?a = Inr () \<and> wf_db (committed (snd ?a))"
    using apply_decision_spec [OF wf g refl act srt tab] unfolding split_beta by blast
  moreover have "map e_status (executions (committed (snd ?a))) = [ES_FAILED]" by code_simp
  ultimately show ?thesis by (simp add: split_beta Let_def)
qed

text \<open>
  Recovery events. However many of them are recorded for an execution of a well-formed
  database, by whatever actions, the event numbers of the execution stay strictly increasing,
  one is added per event, and the database stays well-formed.
\<close>

theorem recovery_events_increase:
  assumes "wf_db d" and "e_id e \<in> e_id ` set (executions d)"
    and "sorted_wrt (<) (map v_sequence (events_of d (e_id e)))"
  shows "let d' = fold (add_recovery_event e) xs d in
    wf_db d' \<and> sorted_wrt (<) (map v_sequence (events_of d' (e_id e))) \<and>
    length (events_of d' (e_id e)) = length (events_of d (e_id e)) + length xs"
proof -
  have fold_eq: "fold (add_recovery_event e) xs d = recovery_log.append_all e xs d" for xs d
    by (induction xs arbitrary: d) simp_all
  have wf: "wf_db (fold (add_recovery_event e) xs d)"
    if "wf_db d" "e_id e \<in> e_id ` set (executions d)" for xs d
    using that
  proof (induction xs arbitrary: d)
    case (Cons x xs)
    obtain now a why ety ph where x: "x = (now, a, why, ety, ph)" by (cases x)
    let ?v = "create_recovery_event now a why ety ph e (events_of d (e_id e))"
    have "insert_event ?v d = Inr (add_event ?v d)"
      by (rule insert_event_next [OF Cons.prems(2)])
         (auto simp: create_recovery_event_def intro: le_less_trans [OF Max_ge])
    then have "wf_db (add_recovery_event e x d)"
      using wf_db_insert_event [OF Cons.prems(1)] by (simp add: x add_recovery_event_def)
    moreover have "executions (add_recovery_event e x d) = executions d"
      by (simp add: x add_recovery_event_def add_event_def)
    ultimately show ?case using Cons by simp
  qed simp
  have "length (map v_sequence (events_of (recovery_log.append_all e xs d) (e_id e))) =
      length (map v_sequence (events_of d (e_id e))) + length xs"
    by (rule recovery_log.append_all_length)
  with wf [OF assms(1,2), of xs] recovery_log.append_all_sorted [OF assms(3), of xs] show ?thesis
    by (simp add: fold_eq Let_def)
qed

theorem recovery_events_increase_witness:
  "let e = new_execution 7 ''c'' 0 1 ''r''; d = sample_db\<lparr>executions := [e]\<rparr>;
       x = (0, RA_RETRY, ''why'', ET_TIMEOUT, PH_STREAM);
       d' = fold (add_recovery_event e) [x, x] d in
     map v_sequence (events_of d' 7) = [1, 2] \<and> wf_db d'"
proof -
  let ?e = "new_execution 7 ''c'' 0 1 ''r''" let ?d = "sample_db\<lparr>executions := [?e]\<rparr>"
  let ?x = "(0, RA_RETRY, ''why'', ET_TIMEOUT, PH_STREAM)"
  have "wf_db ?d"
    by (simp add: wf_db_def sample_db_def sample_task_def unique_active_def active_for_def events_unique_def)
  then have "wf_db (fold (add_recovery_event ?e) [?x, ?x] ?d)"
    using recovery_events_increase [of ?d ?e "[?x, ?x]"] by (simp add: Let_def events_of_def sample_db_def)
  moreover have "map v_sequence (events_of (fold (add_recovery_event ?e) [?x, ?x] ?d) 7) = [1, 2]" by code_simp
  ultimately show ?thesis by (simp add: Let_def)
qed

text \<open>
  Retrying a write task. If the git library is known to be available, the retry is safe
  exactly when the worktree has no uncommitted changes, and an error is reported exactly
  when it is not; a clean-up that is not forced never touches such a worktree. In the
  sources the flag is undefined, and every one of these checks raises \<open>NameError\<close>.
\<close>

theorem retry_safety_spec:
  "(\<exists>m. validate_retry_safety None view reach e = Inl (NameError m)) \<and>
   (\<exists>m. cleanup_write_worktree None view force e = Inl (NameError m)) \<and>
   (\<exists>v ws. validate_retry_safety (Some av) view reach e = Inr v \<and>
      check_worktree_status (Some av) view e = Inr ws \<and>
      rv_safe_to_retry v = (\<not> ws_has_uncommitted_changes ws) \<and> (rv_errors v = []) = rv_safe_to_retry v) \<and>
   (case cleanup_write_worktree (Some av) view False e of
      Inl x \<Rightarrow> False
    | Inr (c, view') \<Rightarrow> (\<forall>ws. check_worktree_status (Some av) view e = Inr ws \<longrightarrow>
        ws_has_uncommitted_changes ws \<longrightarrow> \<not> cr_success c \<and> view' = view))"
proof -
  have 1: "\<exists>m. validate_retry_safety None view reach e = Inl (NameError m)"
    "\<exists>m. cleanup_write_worktree None view force e = Inl (NameError m)"
    by (simp_all add: validate_retry_safety_def check_worktree_status_def gitpython_available_def
        cleanup_write_worktree_def)
  obtain ws where ws: "check_worktree_status (Some av) view e = Inr ws"
    by (cases av) (simp_all add: check_worktree_status_def gitpython_available_def)
  obtain ad where ad: "check_adoption_status (Some av) view reach e = Inr ad"
    by (cases av) (simp_all add: check_adoption_status_def gitpython_available_def Let_def)
  have 2: "\<exists>v ws. validate_retry_safety (Some av) view reach e = Inr v \<and>
      check_worktree_status (Some av) view e = Inr ws \<and>
      rv_safe_to_retry v = (\<not> ws_has_uncommitted_changes ws) \<and> (rv_errors v = []) = rv_safe_to_retry v"
    by (simp add: validate_retry_safety_def ws ad)
  have 3: "case cleanup_write_worktree (Some av) view False e of
      Inl x \<Rightarrow> False
    | Inr (c, view') \<Rightarrow> (\<forall>ws. check_worktree_status (Some av) view e = Inr ws \<longrightarrow>
        ws_has_uncommitted_changes ws \<longrightarrow> \<not> cr_success c \<and> view' = view)"
    by (cases av; cases "view (the (e_worktree_path e))")
       (auto simp: cleanup_write_worktree_def check_worktree_status_def gitpython_available_def
          no_worktree_def Let_def)
  from 1 2 3 show ?thesis by blast
qed

theorem retry_safety_spec_witness:
  "let e = (new_execution 7 ''c'' 0 1 ''r'')\<lparr>e_worktree_path := Some ''/w''\<rparr>;
       view = (\<lambda>p. Repo ''b'' True [] None) in
   case cleanup_write_worktree (Some True) view False e of
     Inl x \<Rightarrow> False | Inr (c, view') \<Rightarrow> \<not> cr_success c \<and> view' = view"
proof -
  let ?e = "(new_execution 7 ''c'' 0 1 ''r'')\<lparr>e_worktree_path := Some ''/w''\<rparr>"
  let ?view = "\<lambda>p. Repo ''b'' True [] None"
  have "check_worktree_status (Some True) ?view ?e = Inr \<lparr>ws_exists = True, ws_is_git_repo = True,
     ws_current_branch = Some ''b'', ws_has_uncommitted_changes = True, ws_untracked_files = [],
     ws_ahead_behind = None\<rparr>"
    by (simp add: check_worktree_status_def gitpython_available_def)
  then show ?thesis using retry_safety_spec [where view = ?view and e = ?e and av = True]
    by (auto simp: Let_def split: sum.splits)
qed

text \<open>
  The branch for a stale adoption is unreachable: the phase it tests for is not a phase, so
  parsing it has raised before.
\<close>

lemma stale_adoption_raises:
  "e_phase e = Some ''adopting_commit'' \<Longrightarrow> \<exists>m. handle_stale_execution rnd now e = Inl (ValueError m)"
  by (simp add: handle_stale_execution_def runner_phase_of_def)

end
