(* ===== verification/Opencode_Client.thy ===== *)
theory Opencode_Client
  imports Prelude
begin

text \<open>
  \<open>opencode/client.py\<close>: the requests to the OpenCode service, the validation of its
  responses, the mapping of errors to categories, and the reading of the event stream. What
  httpx reports for a request is data: a reply carries what \<open>raise_for_status\<close> raises for it
  and what \<open>json()\<close> decodes. \<open>urljoin\<close> and the decoder \<open>json.loads\<close> are arguments.
\<close>

section \<open>Replies and errors\<close>

record http_response =
  hr_status :: int
  hr_status_error :: "string option"
  hr_json :: "json option"

datatype http_reply = HttpTimeout | HttpConnect | HttpOther string | Reply http_response

datatype client_exn =
    OpenCodeConnectionError string
  | OpenCodeTimeoutError string
  | OpenCodeAPIError int string
  | OpenCodeValidationError string
  | HxTimeoutException
  | HxConnectError
  | HxStatusError int string
  | HxOtherError string
  | JSONDecodeError
  | PyExn exn

fun client_exn_str :: "client_exn \<Rightarrow> string" where
  "client_exn_str (OpenCodeConnectionError s) = s"
| "client_exn_str (OpenCodeTimeoutError s) = s"
| "client_exn_str (OpenCodeAPIError c s) = ''OpenCode API error ('' @ int_str c @ ''): '' @ s"
| "client_exn_str (OpenCodeValidationError s) = ''Validation error: '' @ s"
| "client_exn_str (HxStatusError c s) = s"
| "client_exn_str (HxOtherError s) = s"
| "client_exn_str (PyExn x) = exn_str x"
| "client_exn_str _ = []"

definition map_error_category :: "client_exn \<Rightarrow> string" where
  "map_error_category x = (case x of
       OpenCodeConnectionError _ \<Rightarrow> ''connection''
     | OpenCodeTimeoutError _ \<Rightarrow> ''timeout''
     | OpenCodeAPIError _ _ \<Rightarrow> ''http''
     | OpenCodeValidationError _ \<Rightarrow> ''invalid_response''
     | HxConnectError \<Rightarrow> ''connection''
     | HxTimeoutException \<Rightarrow> ''timeout''
     | HxStatusError _ _ \<Rightarrow> ''http''
     | JSONDecodeError \<Rightarrow> ''invalid_response''
     | _ \<Rightarrow> ''unknown'')"

section \<open>Validation of responses\<close>

text \<open>\<open>k in data\<close>, \<open>data[k]\<close>, \<open>data.keys()\<close> and \<open>data.get(k, d)\<close> for any decoded value.\<close>

fun json_contains :: "string \<Rightarrow> json \<Rightarrow> client_exn + bool" where
  "json_contains k (JObj d) = Inr (dict_has d k)"
| "json_contains k (JList xs) = Inr (JStr k \<in> set xs)"
| "json_contains k (JStr s) = Inr (str_in k s)"
| "json_contains k _ = Inl (PyExn (TypeError ''argument is not iterable''))"

fun json_fields :: "json \<Rightarrow> client_exn + (string \<times> json) list" where
  "json_fields (JObj d) = Inr d"
| "json_fields (JList _) = Inl (PyExn (TypeError ''list indices must be integers or slices, not str''))"
| "json_fields (JStr _) = Inl (PyExn (TypeError ''string indices must be integers''))"
| "json_fields _ = Inl (PyExn (TypeError ''object is not subscriptable''))"

definition validate_response :: "string \<Rightarrow> json \<Rightarrow> client_exn + json" where
  "validate_response what data = (case json_contains ''id'' data of
       Inl x \<Rightarrow> Inl x
     | Inr True \<Rightarrow> Inr data
     | Inr False \<Rightarrow> (case data of
           JObj d \<Rightarrow> Inl (OpenCodeValidationError
             (what @ '' response missing required field: '' @ str_repr ''id''))
         | _ \<Rightarrow> Inl (PyExn (AttributeError ''object has no attribute keys''))))"

definition validate_session_response :: "json \<Rightarrow> client_exn + json" where
  "validate_session_response = validate_response ''Session''"

definition validate_message_response :: "json \<Rightarrow> client_exn + json" where
  "validate_message_response = validate_response ''Message''"

section \<open>Requests\<close>

record client_config =
  cc_base_url :: string
  cc_timeout_ms :: int

definition init_client :: "client_config option \<Rightarrow> string option \<Rightarrow> int option \<Rightarrow> client_config" where
  "init_client settings base_url timeout_ms = (case settings of
       Some c \<Rightarrow> c
     | None \<Rightarrow> \<lparr>cc_base_url = (if str_truthy base_url then the base_url else ''http://localhost:8000''),
                cc_timeout_ms = (if timeout_ms \<in> {None, Some 0} then 30000 else the timeout_ms)\<rparr>)"

record opencode_session =
  os_id :: json
  os_name :: json
  os_created_at :: json

record opencode_message =
  om_id :: json
  om_session_id :: json
  om_status :: json
  om_content :: json
  om_error :: json
  om_created_at :: json
  om_completed_at :: json

fun open_reply :: "http_reply \<Rightarrow> client_exn + http_response" where
  "open_reply HttpTimeout = Inl HxTimeoutException"
| "open_reply HttpConnect = Inl HxConnectError"
| "open_reply (HttpOther s) = Inl (HxOtherError s)"
| "open_reply (Reply r) = Inr r"

definition raise_for_status :: "http_response \<Rightarrow> client_exn + http_response" where
  "raise_for_status r = (case hr_status_error r of
     None \<Rightarrow> Inr r | Some txt \<Rightarrow> Inl (HxStatusError (hr_status r) txt))"

definition response_json :: "http_response \<Rightarrow> client_exn + json" where
  "response_json r = (case hr_json r of None \<Rightarrow> Inl JSONDecodeError | Some v \<Rightarrow> Inr v)"

fun and_then :: "'e + 'a \<Rightarrow> ('a \<Rightarrow> 'e + 'b) \<Rightarrow> 'e + 'b" where
  "and_then (Inl x) f = Inl x"
| "and_then (Inr a) f = f a"

lemma and_then_Inr: "and_then r f = Inr b \<longleftrightarrow> (\<exists>a. r = Inr a \<and> f a = Inr b)"
  by (cases r) auto

lemma and_then_Inl: "and_then r f = Inl x \<longleftrightarrow> r = Inl x \<or> (\<exists>a. r = Inr a \<and> f a = Inl x)"
  by (cases r) auto

text \<open>The \<open>except\<close> clauses that the requests share.\<close>

fun translate :: "client_config \<Rightarrow> string \<Rightarrow> string \<Rightarrow> client_exn \<Rightarrow> client_exn" where
  "translate c what url HxTimeoutException =
     OpenCodeTimeoutError (what @ '' timed out after '' @ int_str (cc_timeout_ms c) @ ''ms'')"
| "translate c what url HxConnectError = OpenCodeConnectionError (''Failed to connect to OpenCode at '' @ url)"
| "translate c what url (HxStatusError code txt) = OpenCodeAPIError code txt"
| "translate c what url x = x"

definition decode_error :: "string \<Rightarrow> client_exn \<Rightarrow> client_exn" where
  "decode_error what x = (if x = JSONDecodeError
     then OpenCodeValidationError (''Invalid JSON response from '' @ what @ '' endpoint'') else x)"

definition on_error :: "(client_exn \<Rightarrow> client_exn) \<Rightarrow> client_exn + 'a \<Rightarrow> client_exn + 'a" where
  "on_error f r = (case r of Inl x \<Rightarrow> Inl (f x) | Inr a \<Rightarrow> Inr a)"

definition oc_health :: "(string \<Rightarrow> string \<Rightarrow> string) \<Rightarrow> client_config \<Rightarrow> (string \<Rightarrow> http_reply) \<Rightarrow> client_exn + json" where
  "oc_health urljoin c get = (let url = urljoin (cc_base_url c) ''/health'' in
     on_error (translate c ''Health check'' url)
       (and_then (open_reply (get url)) (\<lambda>r. and_then (raise_for_status r) response_json)))"

definition session_of :: "json \<Rightarrow> client_exn + opencode_session" where
  "session_of data = and_then (validate_session_response data) (\<lambda>v. and_then (json_fields v) (\<lambda>d.
     Inr \<lparr>os_id = dict_get d ''id'' JNull, os_name = dict_get d ''name'' JNull,
          os_created_at = dict_get d ''created_at'' JNull\<rparr>))"

definition create_session :: "(string \<Rightarrow> string \<Rightarrow> string) \<Rightarrow> client_config \<Rightarrow>
    (string \<Rightarrow> json \<Rightarrow> http_reply) \<Rightarrow> string option \<Rightarrow> client_exn + opencode_session" where
  "create_session urljoin c post name = (let url = urljoin (cc_base_url c) ''/sessions'';
       payload = (if str_truthy name then JObj [(''name'', JStr (the name))] else JObj []) in
     on_error (decode_error ''session creation'' \<circ> translate c ''Session creation'' url)
       (and_then (open_reply (post url payload)) (\<lambda>r.
          if hr_status r = 404 then Inl (OpenCodeAPIError 404
            ''Session creation endpoint not found. Sessions may be created implicitly.'')
          else and_then (raise_for_status r) (\<lambda>r. and_then (response_json r) session_of))))"

definition message_of :: "string \<Rightarrow> string \<Rightarrow> bool \<Rightarrow> json \<Rightarrow> client_exn + opencode_message" where
  "message_of sid status has_error data =
     and_then (validate_message_response data) (\<lambda>v. and_then (json_fields v) (\<lambda>d.
       Inr \<lparr>om_id = dict_get d ''id'' JNull, om_session_id = dict_get d ''session_id'' (JStr sid),
            om_status = dict_get d ''status'' (JStr status), om_content = dict_get d ''content'' JNull,
            om_error = (if has_error then dict_get d ''error'' JNull else JNull),
            om_created_at = dict_get d ''created_at'' JNull,
            om_completed_at = dict_get d ''completed_at'' JNull\<rparr>))"

text \<open>
  A message goes to the first path, and to the second one when the service answers 404. The
  result also says which address the last request went to.
\<close>

definition post_message :: "(string \<Rightarrow> string \<Rightarrow> string) \<Rightarrow> client_config \<Rightarrow>
    (string \<Rightarrow> json \<Rightarrow> http_reply) \<Rightarrow> string \<Rightarrow> json \<Rightarrow> string \<times> http_reply" where
  "post_message urljoin c post sid payload =
     (let url = urljoin (cc_base_url c) (''/sessions/'' @ sid @ ''/messages'');
          alt = urljoin (cc_base_url c) (''/sessions/'' @ sid @ ''/run'') in
      case post url payload of
        Reply r \<Rightarrow> if hr_status r = 404 then (alt, post alt payload) else (url, Reply r)
      | x \<Rightarrow> (url, x))"

definition dispatch_message :: "(string \<Rightarrow> string \<Rightarrow> string) \<Rightarrow> client_config \<Rightarrow>
    (string \<Rightarrow> json \<Rightarrow> http_reply) \<Rightarrow> string \<Rightarrow> string \<Rightarrow> string \<Rightarrow> client_exn + opencode_message" where
  "dispatch_message urljoin c post sid content role =
     (case post_message urljoin c post sid (JObj [(''content'', JStr content), (''role'', JStr role)]) of
        (url, reply) \<Rightarrow>
          on_error (decode_error ''message dispatch'' \<circ> translate c ''Message dispatch'' url)
            (and_then (open_reply reply) (\<lambda>r. and_then (raise_for_status r) (\<lambda>r.
               and_then (response_json r) (message_of sid ''processing'' False)))))"

definition get_message :: "(string \<Rightarrow> string \<Rightarrow> string) \<Rightarrow> client_config \<Rightarrow> (string \<Rightarrow> http_reply) \<Rightarrow>
    string \<Rightarrow> string \<Rightarrow> client_exn + opencode_message" where
  "get_message urljoin c get sid mid =
     (let url = urljoin (cc_base_url c) (''/sessions/'' @ sid @ ''/messages/'' @ mid) in
      on_error (decode_error ''message retrieval'' \<circ> translate c ''Message retrieval'' url)
        (and_then (open_reply (get url)) (\<lambda>r. and_then (raise_for_status r) (\<lambda>r.
           and_then (response_json r) (message_of sid ''unknown'' True)))))"

section \<open>The event stream\<close>

record opencode_event =
  oe_type :: string
  oe_data :: json
  oe_message_id :: json
  oe_session_id :: json

text \<open>
  One line of the stream. The variable \<open>event_type\<close> is unbound until the first \<open>event:\<close> line
  and keeps its value over later events; a step yields at most one event or raises.
\<close>

definition sse_event :: "(string \<Rightarrow> json option) \<Rightarrow> string \<Rightarrow> string \<Rightarrow> client_exn + opencode_event" where
  "sse_event loads ty s = (case loads s of
       None \<Rightarrow> Inr \<lparr>oe_type = ty, oe_data = JObj [(''raw'', JStr s)], oe_message_id = JNull, oe_session_id = JNull\<rparr>
     | Some (JObj d) \<Rightarrow> Inr \<lparr>oe_type = ty, oe_data = JObj d, oe_message_id = dict_get d ''id'' JNull,
           oe_session_id = dict_get d ''session_id'' JNull\<rparr>
     | Some _ \<Rightarrow> Inl (PyExn (AttributeError ''object has no attribute get'')))"

fun parse_sse :: "(string \<Rightarrow> json option) \<Rightarrow> string option \<Rightarrow> string list \<Rightarrow>
    opencode_event list \<times> client_exn option" where
  "parse_sse loads ty [] = ([], None)"
| "parse_sse loads ty (l # ls) =
     (if prefix ''event:'' l then parse_sse loads (Some (strip (drop 6 l))) ls
      else if prefix ''data:'' l then
        (case ty of
           None \<Rightarrow> ([], Some (PyExn (NameError ''cannot access local variable event_type'')))
         | Some t \<Rightarrow> (case sse_event loads t (strip (drop 5 l)) of
              Inl x \<Rightarrow> ([], Some x)
            | Inr e \<Rightarrow> (case parse_sse loads ty ls of (es, x) \<Rightarrow> (e # es, x))))
      else parse_sse loads ty ls)"

definition event_url :: "(string \<Rightarrow> string \<Rightarrow> string) \<Rightarrow> ((string \<times> string) list \<Rightarrow> string) \<Rightarrow> client_config \<Rightarrow>
    string option \<Rightarrow> string option \<Rightarrow> string" where
  "event_url urljoin urlencode c sid mid =
     (let url = urljoin (cc_base_url c) ''/event'' in
      if str_truthy sid \<or> str_truthy mid then
        url @ ''?'' @ urlencode ((if str_truthy sid then [(''session_id'', the sid)] else []) @
          (if str_truthy mid then [(''message_id'', the mid)] else []))
      else url)"

text \<open>
  The stream as a whole: the reply to the request and, when it is taken, the lines that
  arrive and what httpx raises at their end, if anything.
\<close>

definition oc_stream_events :: "(string \<Rightarrow> json option) \<Rightarrow> client_config \<Rightarrow> string \<Rightarrow> http_reply \<Rightarrow>
    string list \<Rightarrow> client_exn option \<Rightarrow> opencode_event list \<times> client_exn option" where
  "oc_stream_events loads c url reply lines broken =
     (let tr = (\<lambda>x. if x = HxTimeoutException then OpenCodeTimeoutError ''SSE stream timed out''
                    else translate c [] url x) in
      case open_reply reply of
        Inl x \<Rightarrow> ([], Some (tr x))
      | Inr r \<Rightarrow>
          if hr_status r = 404 then
            ([], Some (OpenCodeAPIError 404 ''SSE endpoint not found. May require different path or method.''))
          else (case raise_for_status r of
              Inl x \<Rightarrow> ([], Some (tr x))
            | Inr _ \<Rightarrow> (case parse_sse loads None lines of
                (es, None) \<Rightarrow> (es, map_option tr broken)
              | (es, Some x) \<Rightarrow> (es, Some (tr x)))))"

section \<open>Properties\<close>

lemma message_of_Inr:
  "message_of sid st b data = Inr m \<Longrightarrow> \<exists>d. data = JObj d \<and> dict_has d ''id'' \<and>
     om_id m = dict_get d ''id'' JNull \<and> om_session_id m = dict_get d ''session_id'' (JStr sid) \<and>
     om_status m = dict_get d ''status'' (JStr st)"
  by (cases data)
     (auto simp: message_of_def validate_message_response_def validate_response_def and_then_Inr
       split: if_splits bool.splits)

lemma on_error_Inr [simp]: "on_error f r = Inr a \<longleftrightarrow> r = Inr a"
  by (cases r) (auto simp: on_error_def)

lemma on_error_Inl: "on_error f r = Inl x \<longleftrightarrow> (\<exists>y. r = Inl y \<and> x = f y)"
  by (cases r) (auto simp: on_error_def)

lemma open_reply_Inr [simp]: "open_reply x = Inr r \<longleftrightarrow> x = Reply r"
  by (cases x) auto

lemma raise_for_status_Inr [simp]: "raise_for_status r = Inr r' \<longleftrightarrow> r' = r \<and> hr_status_error r = None"
  by (auto simp: raise_for_status_def split: option.splits)

lemma response_json_Inr [simp]: "response_json r = Inr v \<longleftrightarrow> hr_json r = Some v"
  by (auto simp: response_json_def split: option.splits)

text \<open>No error of httpx that the clauses name gets past them.\<close>

lemma translated:
  "translate c what url x \<notin> {HxTimeoutException, HxConnectError} \<and> translate c what url x \<noteq> HxStatusError n t"
  by (cases x) auto

lemma decoded: "decode_error what x \<noteq> JSONDecodeError"
  by (simp add: decode_error_def)

lemma decode_translate:
  "map_error_category (decode_error what (translate c op url x)) =
    (case x of PyExn _ \<Rightarrow> ''unknown'' | HxOtherError _ \<Rightarrow> ''unknown'' | _ \<Rightarrow> map_error_category x)"
  by (cases x) (auto simp: map_error_category_def decode_error_def)

text \<open>
  Dispatching a message. A message is returned only when the last request was answered
  without an HTTP error by an object with an \<open>id\<close>, which becomes the message's; the session
  defaults to the one asked for and the status to \<open>processing\<close>. Every failure carries one of
  the documented categories, except a value of the wrong shape and transport errors other
  than timeouts and refused connections, which pass uncategorised.
\<close>

theorem dispatch_message_spec:
  "case dispatch_message urljoin c post sid content role of
     Inr m \<Rightarrow> (\<exists>r d. snd (post_message urljoin c post sid (JObj [(''content'', JStr content), (''role'', JStr role)])) = Reply r \<and>
       hr_status_error r = None \<and> hr_json r = Some (JObj d) \<and> dict_has d ''id'' \<and>
       om_id m = dict_get d ''id'' JNull \<and> om_session_id m = dict_get d ''session_id'' (JStr sid) \<and>
       om_status m = dict_get d ''status'' (JStr ''processing''))
   | Inl x \<Rightarrow> (map_error_category x = ''unknown'') = ((\<exists>y. x = PyExn y) \<or> (\<exists>s. x = HxOtherError s)) \<and>
       x \<notin> {HxTimeoutException, HxConnectError, JSONDecodeError} \<and> (\<nexists>n t. x = HxStatusError n t)"
proof -
  let ?p = "JObj [(''content'', JStr content), (''role'', JStr role)]"
  obtain url reply where pm: "post_message urljoin c post sid ?p = (url, reply)" by (cases "post_message urljoin c post sid ?p")
  let ?run = "and_then (open_reply reply) (\<lambda>r. and_then (raise_for_status r) (\<lambda>r.
     and_then (response_json r) (message_of sid ''processing'' False)))"
  have d: "dispatch_message urljoin c post sid content role =
      on_error (decode_error ''message dispatch'' \<circ> translate c ''Message dispatch'' url) ?run"
    by (simp add: dispatch_message_def pm)
  show ?thesis
  proof (cases ?run)
    case (Inr m)
    then obtain r v where r: "reply = Reply r" "hr_status_error r = None" "hr_json r = Some v"
        "message_of sid ''processing'' False v = Inr m" by (auto simp: and_then_Inr)
    from message_of_Inr [OF r(4)] r(1-3) show ?thesis unfolding d Inr by (auto simp: on_error_def pm)
  next
    case (Inl x)
    show ?thesis unfolding d Inl by (cases x) (auto simp: on_error_def decode_error_def map_error_category_def)
  qed
qed

definition sample_post :: "string \<Rightarrow> json \<Rightarrow> http_reply" where
  "sample_post url payload = (if url = ''h/sessions/s/run''
     then Reply \<lparr>hr_status = 200, hr_status_error = None, hr_json = Some (JObj [(''id'', JStr ''m'')])\<rparr>
     else Reply \<lparr>hr_status = 404, hr_status_error = Some ''not found'', hr_json = None\<rparr>)"

theorem dispatch_message_spec_witness:
  "\<exists>m. dispatch_message (@) \<lparr>cc_base_url = ''h'', cc_timeout_ms = 5\<rparr> sample_post ''s'' ''x'' ''user'' = Inr m \<and>
     om_id m = JStr ''m'' \<and> om_session_id m = JStr ''s''"
proof -
  let ?c = "\<lparr>cc_base_url = ''h'', cc_timeout_ms = 5\<rparr>"
  have p: "snd (post_message (@) ?c sample_post ''s'' (JObj [(''content'', JStr ''x''), (''role'', JStr ''user'')])) =
      Reply \<lparr>hr_status = 200, hr_status_error = None, hr_json = Some (JObj [(''id'', JStr ''m'')])\<rparr>"
    by (simp add: post_message_def sample_post_def)
  have "isl (dispatch_message (@) ?c sample_post ''s'' ''x'' ''user'') = False" by code_simp
  then obtain m where m: "dispatch_message (@) ?c sample_post ''s'' ''x'' ''user'' = Inr m"
    by (cases "dispatch_message (@) ?c sample_post ''s'' ''x'' ''user''") auto
  with dispatch_message_spec [of "(@)" ?c sample_post "''s''" "''x''" "''user''"] p
  show ?thesis by (auto simp: dict_get_def)
qed

text \<open>What a service writes for a list of events, one \<open>event:\<close>, \<open>data:\<close> and empty line each.\<close>

definition render_event :: "(json \<Rightarrow> string) \<Rightarrow> string \<times> (string \<times> json) list \<Rightarrow> string list" where
  "render_event dumps e = [''event: '' @ fst e, ''data: '' @ dumps (JObj (snd e)), []]"

lemma strip_blank [simp]: "strip (CHR '' '' # s) = strip s"
  by (simp add: strip_def lstrip_def is_space_def)



text \<open>
  An event's type is what the latest \<open>event:\<close> line said, and without an error every
  \<open>data:\<close> line gives one event; a \<open>data:\<close> line before any \<open>event:\<close> line raises, as the type is
  unbound then.
\<close>

lemma sse_types:
  "e \<in> set (fst (parse_sse loads ty ls)) \<Longrightarrow>
    Some (oe_type e) = ty \<or> (\<exists>l \<in> set ls. prefix ''event:'' l \<and> oe_type e = strip (drop 6 l))"
proof (induction ls arbitrary: ty)
  case (Cons l ls)
  have ty: "sse_event loads t s = Inr x \<Longrightarrow> oe_type x = t" for t s x
    by (auto simp: sse_event_def split: option.splits json.splits)
  from Cons show ?case
    by (auto split: if_splits option.splits sum.splits prod.splits dest: ty simp del: prefix_code)
       (metis fst_conv option.inject)+
qed simp

lemma sse_one_per_data_line:
  "snd (parse_sse loads ty ls) = None \<Longrightarrow>
   length (fst (parse_sse loads ty ls)) = length (filter (prefix ''data:'') ls)"
proof (induction ls arbitrary: ty)
  case (Cons l ls)
  consider "prefix ''event:'' l" | "\<not> prefix ''event:'' l" "prefix ''data:'' l"
    | "\<not> prefix ''event:'' l" "\<not> prefix ''data:'' l" by blast
  then show ?case
  proof cases
    case 1
    then have "\<not> prefix ''data:'' l" by (auto simp: prefix_def)
    with 1 Cons show ?thesis by (simp del: prefix_code)
  next
    case 2
    from Cons.IH [of ty] Cons.prems 2 show ?thesis
      by (simp del: prefix_code split: option.splits sum.splits prod.splits)
  next
    case 3
    with Cons show ?thesis by (simp del: prefix_code)
  qed
qed simp

lemma sse_data_first:
  "prefix ''data:'' l \<Longrightarrow> fst (parse_sse loads None (l # ls)) = [] \<and> snd (parse_sse loads None (l # ls)) \<noteq> None"
  by (auto simp: prefix_def)


end
