(* ===== verification/Dispatch.thy ===== *)
theory Dispatch
  imports Runner_Recovery Context_Contract Opencode_Client
begin

text \<open>
  \<open>runner/prompt_templates.py\<close> and \<open>runner/dispatch.py\<close>: the prompt of a prepared context
  and its dispatch, which takes an execution from \<open>queued\<close> over \<open>dispatching\<close> to
  \<open>in_progress\<close>. The two calls of the OpenCode client, the SHA-256 digest and the rendering
  of time stamps are arguments; the identifiers that the service assigns are strings.
  Logging and metrics are left out.
\<close>

section \<open>Prompts\<close>

fun title_of :: "json \<Rightarrow> exn + string" where
  "title_of (JStr s) = Inr (title_from False s)"
| "title_of _ = Inl (AttributeError ''object has no attribute title'')"

definition readonly_text :: "json \<Rightarrow> json \<Rightarrow> string \<Rightarrow> json \<Rightarrow> string" where
  "readonly_text num ty title base = join_with [CHR 0x0A]
       [''## Task '' @ json_str num @ '' - Read-Only '' @ title,
        [],
        ''### Ziel'',
        ''Fuhre eine '' @ json_str ty @ '' Aufgabe durch, OHNE den Codebase zu andern.'',
        [],
        ''### Scope'',
        ''- Repository: '' @ json_str base,
        ''- Modus: READ-ONLY (keine Schreiboperationen)'',
        [],
        ''### Wichtige Regeln'',
        ''1. **KEINE Dateien andern** - Dies ist eine reine Analyse/Auswertungs-Aufgabe'',
        ''2. **KEINE Git-Commits** - Keine '' @ [CHR 0xC4] @ ''nderungen vornehmen'',
        ''3. **KEINE Worktree-Operationen** - Nutze den bestehenden Zustand'',
        ''4. Ausgabe ist rein informierend (Report, Analyse, Planung)'',
        [],
        ''### Erwartetes Ergebnis'',
        ''- Detaillierte Dokumentation der Analyse/Ergebnisse'',
        ''- Keine Code-'' @ [CHR 0xC4] @ ''nderungen'',
        ''- Keine Commit-Historie-'' @ [CHR 0xC4] @ ''nderungen'',
        [],
        ''### Akzeptanzkriterien'',
        ''- Alle Analyse-Schritte wurden durchgefuhrt'',
        ''- Ergebnisse sind nachvollziehbar dokumentiert'',
        ''- Keine Dateien wurden ge'' @ [CHR 0xE4] @ ''ndert'',
        []]"

definition write_text :: "json \<Rightarrow> json \<Rightarrow> string \<Rightarrow> json \<Rightarrow> json \<Rightarrow> json \<Rightarrow> string" where
  "write_text num ty title branch worktree sha = join_with [CHR 0x0A]
       [''## Task '' @ json_str num @ '' - Write '' @ title,
        [],
        ''### Ziel'',
        ''Fuhre die '' @ json_str ty @ '' Aufgabe durch und erstelle einen nachvollziehbaren Commit.'',
        [],
        ''### Scope'',
        ''- Repository: '' @ json_str worktree,
        ''- Branch: '' @ json_str branch,
        ''- Start-Commit: '' @ json_str sha,
        ''- Modus: WRITE (Schreiboperationen erlaubt)'',
        [],
        ''### Wichtige Regeln'',
        ''1. **Nur im Worktree andern** - Alle '' @ [CHR 0xC4] @ ''nderungen mussen in '' @ json_str worktree @ '' erfolgen'',
        ''2. **Keine destruktiven Git-Operationen** - Kein force-push, kein hard-reset'',
        ''3. **Genau EIN Commit** - Sofern nicht anders gefordert:'',
        ''   - Alle '' @ [CHR 0xC4] @ ''nderungen in einem Commit zusammenfassen'',
        ''   - Klare, aussagekr'' @ [CHR 0xE4] @ ''ftige Commit-Message'',
        ''   - Commit muss nachvollziehbar sein'',
        ''4. **Validierung vor Commit** - Fuhre aus:'',
        ''   - `git status` - Pr'' @ [CHR 0xFC] @ ''fe auf ungewollte '' @ [CHR 0xC4] @ ''nderungen'',
        ''   - `git diff` - Review der '' @ [CHR 0xC4] @ ''nderungen'',
        ''   - Test-Suite ausfuhren (falls vorhanden)'',
        [],
        ''### Commit-Erwartung'',
        ''- Branch: '' @ json_str branch,
        ''- Alle '' @ [CHR 0xC4] @ ''nderungen im Worktree '' @ json_str worktree,
        ''- Ein sauberer Commit mit aussagekr'' @ [CHR 0xE4] @ ''ftiger Message'',
        ''- Keine destruktiven Operationen'',
        [],
        ''### Akzeptanzkriterien'',
        ''- Alle geforderten '' @ [CHR 0xC4] @ ''nderungen wurden durchgefuhrt'',
        ''- Tests bestehen (falls vorhanden)'',
        ''- Ein sauberer Commit wurde erstellt'',
        ''- Keine ungewollten '' @ [CHR 0xC4] @ ''nderungen'',
        ''- Keine destruktiven Git-Operationen'',
        []]"

definition build_readonly_prompt :: "(string \<times> json) list \<Rightarrow> exn + string" where
  "build_readonly_prompt c = (let ty = dict_get c ''task_type'' (JStr ''analysis'') in
     case title_of ty of Inl x \<Rightarrow> Inl x
     | Inr title \<Rightarrow> Inr (readonly_text (dict_get c ''task_number'' (JStr ''Unknown'')) ty title
         (dict_get c ''base_repo_path'' (JStr ''.''))))"

definition build_write_prompt :: "(string \<times> json) list \<Rightarrow> exn + string" where
  "build_write_prompt c = (let ty = dict_get c ''task_type'' (JStr ''execution'') in
     case title_of ty of Inl x \<Rightarrow> Inl x
     | Inr title \<Rightarrow> Inr (write_text (dict_get c ''task_number'' (JStr ''Unknown'')) ty title
         (dict_get c ''branch_name'' (JStr ''unknown'')) (dict_get c ''worktree_path'' (JStr ''.''))
         (dict_get c ''commit_sha_before'' (JStr ''unknown''))))"

definition build_prompt :: "(string \<times> json) list \<Rightarrow> exn + string" where
  "build_prompt c = (let m = dict_get c ''runner_mode'' (JStr ''write'') in
     if m = JStr ''read_only'' then build_readonly_prompt c
     else if m = JStr ''write'' then build_write_prompt c
     else Inl (ValueError (''Unknown runner_mode: '' @ json_str m)))"

section \<open>PromptDispatcher\<close>

record dispatch_env =
  de_create :: "string \<Rightarrow> client_exn + string"
  de_send :: "string \<Rightarrow> string \<Rightarrow> client_exn + string"
  de_sha256 :: "string \<Rightarrow> string"
  de_isofmt :: "datetime \<Rightarrow> string"
  de_clock :: "nat \<Rightarrow> datetime"

fun exn_name :: "client_exn \<Rightarrow> string" where
  "exn_name (OpenCodeConnectionError _) = ''OpenCodeConnectionError''"
| "exn_name (OpenCodeTimeoutError _) = ''OpenCodeTimeoutError''"
| "exn_name (OpenCodeAPIError _ _) = ''OpenCodeAPIError''"
| "exn_name (OpenCodeValidationError _) = ''OpenCodeValidationError''"
| "exn_name HxTimeoutException = ''TimeoutException''"
| "exn_name HxConnectError = ''ConnectError''"
| "exn_name (HxStatusError _ _) = ''HTTPStatusError''"
| "exn_name (HxOtherError _) = ''HTTPError''"
| "exn_name JSONDecodeError = ''JSONDecodeError''"
| "exn_name (PyExn (ValueError _)) = ''ValueError''"
| "exn_name (PyExn (TypeError _)) = ''TypeError''"
| "exn_name (PyExn (AttributeError _)) = ''AttributeError''"
| "exn_name (PyExn (NameError _)) = ''NameError''"
| "exn_name (PyExn (KeyError _)) = ''KeyError''"
| "exn_name (PyExn _) = ''Exception''"

definition next_sequence :: "db \<Rightarrow> uuid \<Rightarrow> int" where
  "next_sequence d i = (if events_of d i = [] then 1 else Max (set (map v_sequence (events_of d i))) + 1)"

definition correlation_of :: "task_execution \<Rightarrow> string" where
  "correlation_of e = (if str_truthy (e_correlation_id e) then the (e_correlation_id e) else ''unknown'')"

definition context_prompt :: "(datetime \<Rightarrow> string) \<Rightarrow> prepared_context \<Rightarrow> string \<Rightarrow> exn + string" where
  "context_prompt isofmt x task_prompt =
     build_prompt (AList.update ''task_prompt'' (JStr task_prompt) (context_to_dict isofmt x))"

definition session_name :: "prepared_context \<Rightarrow> string" where
  "session_name x = ''execqueue-task-'' @
     (case x_task_number x of None \<Rightarrow> ''None'' | Some n \<Rightarrow> int_str n) @ ''-v'' @ x_version x"

text \<open>Building and sending the prompt: what the \<open>try\<close> block computes before it writes.\<close>

record sent =
  sn_session :: string
  sn_message :: string
  sn_hash :: string

definition send_prompt :: "dispatch_env \<Rightarrow> prepared_context \<Rightarrow> string \<Rightarrow> client_exn + sent" where
  "send_prompt env x task_prompt =
     (case context_prompt (de_isofmt env) x task_prompt of
        Inl err \<Rightarrow> Inl (PyExn err)
      | Inr prompt \<Rightarrow>
          and_then (de_create env (session_name x)) (\<lambda>sid.
          and_then (de_send env sid prompt) (\<lambda>mid.
            Inr \<lparr>sn_session = sid, sn_message = mid, sn_hash = take 16 (de_sha256 env prompt)\<rparr>)))"

definition start_dispatch :: "dispatch_env \<Rightarrow> task_execution \<Rightarrow> task_execution" where
  "start_dispatch env e = e\<lparr>e_status := ES_DISPATCHING, e_started_at := Some (de_clock env 0)\<rparr>"

definition dispatch_summary :: "dispatch_env \<Rightarrow> prepared_context \<Rightarrow> sent \<Rightarrow> (string \<times> json) list" where
  "dispatch_summary env x r =
     [(''prompt_hash'', JStr (sn_hash r)), (''context_version'', JStr (x_version x)),
      (''runner_mode'', JStr (runner_mode_value (x_runner_mode x))),
      (''dispatched_at'', JStr (de_isofmt env (de_clock env 1)))]"

definition succeed_dispatch :: "dispatch_env \<Rightarrow> prepared_context \<Rightarrow> sent \<Rightarrow> task_execution \<Rightarrow> task_execution" where
  "succeed_dispatch env x r e = e\<lparr>e_status := ES_IN_PROGRESS, e_dispatched_at := Some (de_clock env 1),
     e_opencode_session_id := Some (sn_session r), e_opencode_message_id := Some (sn_message r),
     e_result_summary := JObj (dispatch_summary env x r)\<rparr>"

definition fail_dispatch :: "client_exn \<Rightarrow> task_execution \<Rightarrow> task_execution" where
  "fail_dispatch err e = e\<lparr>e_error_type := Some (exn_name err), e_error_message := Some (client_exn_str err)\<rparr>"

definition dispatch_event :: "dispatch_env \<Rightarrow> db \<Rightarrow> task_execution \<Rightarrow> event_type \<Rightarrow> (string \<times> json) list \<Rightarrow>
    execution_event" where
  "dispatch_event env d e ty payload =
     \<lparr>v_execution_id = e_id e, v_sequence = next_sequence d (e_id e), v_external_event_id = None,
      v_direction = ED_OUTBOUND, v_event_type = ty, v_payload = payload,
      v_correlation_id = Some (correlation_of e), v_created_at = de_clock env 2\<rparr>"

definition dispatch_prompt :: "dispatch_env \<Rightarrow> db_outcome \<Rightarrow> uuid \<Rightarrow> prepared_context \<Rightarrow> string \<Rightarrow> session \<Rightarrow>
    (exn + task_execution \<times> string) \<times> session" where
  "dispatch_prompt env flush i x task_prompt s =
     (case get_execution (working s) i of
        None \<Rightarrow> (Inl (DispatchError (''TaskExecution '' @ uuid_str i @ '' not found'')), s)
      | Some e \<Rightarrow>
          if e_status e \<noteq> ES_QUEUED then
            (Inl (DispatchError (''Execution must be in '' @ str_repr ''queued'' @ '' state, current: '' @
               execution_status_value (e_status e))), s)
          else (let e1 = start_dispatch env e; s1 = modify (put_execution i (\<lambda>_. e1)) s in
            case flush of
              DbError m \<Rightarrow> (Inl (SQLAlchemyError m), s1)
            | DbOk \<Rightarrow>
                (case send_prompt env x task_prompt of
                   Inr r \<Rightarrow>
                     (let e2 = succeed_dispatch env x r e1;
                          v = dispatch_event env (working s1) e1 EV_EXECUTION_DISPATCHED
                            ([(''opencode_session_id'', JStr (sn_session r)), (''opencode_message_id'', JStr (sn_message r))]
                              @ dispatch_summary env x r)
                      in (Inr (e2, sn_message r), modify (add_event v) (modify (put_execution i (\<lambda>_. e2)) s1)))
                 | Inl err \<Rightarrow>
                     (let e2 = fail_dispatch err e1;
                          v = dispatch_event env (working s1) e1 EV_ERROR
                            [(''error_type'', JStr (exn_name err)), (''error_message'', JStr (client_exn_str err)),
                             (''failed_at'', JStr (de_isofmt env (de_clock env 1))), (''phase'', JStr ''prompt_dispatch'')]
                      in (Inl (DispatchError (''Failed to dispatch prompt: '' @ client_exn_str err)),
                          modify (add_event v) (modify (put_execution i (\<lambda>_. e2)) s1))))))"

section \<open>Lemmas\<close>

lemma start_dispatch_keeps [simp]:
  "e_id (start_dispatch env e) = e_id e" "e_task_id (start_dispatch env e) = e_task_id e"
  "e_status (start_dispatch env e) = ES_DISPATCHING"
  unfolding start_dispatch_def by simp_all

lemma fail_dispatch_keeps [simp]:
  "e_id (fail_dispatch err e) = e_id e" "e_task_id (fail_dispatch err e) = e_task_id e"
  "e_status (fail_dispatch err e) = e_status e"
  unfolding fail_dispatch_def by simp_all

lemma succeed_dispatch_keeps [simp]:
  "e_id (succeed_dispatch env x r e) = e_id e" "e_task_id (succeed_dispatch env x r e) = e_task_id e"
  "e_status (succeed_dispatch env x r e) = ES_IN_PROGRESS"
  unfolding succeed_dispatch_def by simp_all

lemma next_sequence_above:
  assumes "m \<in> set (map v_sequence (events_of d i))"
  shows "m < next_sequence d i"
proof -
  have "m \<le> Max (set (map v_sequence (events_of d i)))" by (rule Max_ge) (use assms in simp_all)
  with assms show ?thesis by (auto simp: next_sequence_def simp del: set_map)
qed

text \<open>The events of a dispatch extend the log of its execution like those of a recovery.\<close>

definition log_dispatch :: "task_execution \<Rightarrow> dispatch_env \<times> event_type \<times> (string \<times> json) list \<Rightarrow> db \<Rightarrow> db" where
  "log_dispatch e y d = (case y of (env, ty, payload) \<Rightarrow> add_event (dispatch_event env d e ty payload) d)"

interpretation dispatch_log: sequence_log "\<lambda>d. map v_sequence (events_of d (e_id e))" "log_dispatch e"
  for e
proof
  fix y :: "dispatch_env \<times> event_type \<times> (string \<times> json) list" and d
  obtain env ty payload where y: "y = (env, ty, payload)" by (cases y)
  show "\<exists>n. map v_sequence (events_of (log_dispatch e y d) (e_id e)) =
      map v_sequence (events_of d (e_id e)) @ [n] \<and> (\<forall>m \<in> set (map v_sequence (events_of d (e_id e))). m < n)"
    unfolding y log_dispatch_def prod.case
    by (rule numbers_append) (simp_all add: dispatch_event_def next_sequence_above del: set_map)
qed

lemma add_event_other [simp]:
  "executions (add_event v d) = executions d" "tasks (add_event v d) = tasks d"
  "get_execution (add_event v d) i = get_execution d i" "events (add_event v d) = events d @ [v]"
  by (simp_all add: add_event_def get_execution_def)

lemma get_execution_replace:
  "e_id e = i \<Longrightarrow> get_execution d i = Some e0 \<Longrightarrow> get_execution (put_execution i (\<lambda>_. e) d) i = Some e"
proof -
  assume e: "e_id e = i" "get_execution d i = Some e0"
  have "find (\<lambda>e. e_id e = i) es = Some e0 \<Longrightarrow>
      find (\<lambda>e. e_id e = i) (map (\<lambda>f. if e_id f = i then e else f) es) = Some e" for es
    using e(1) by (induction es) (auto split: if_splits)
  with e(2) show ?thesis by (simp add: get_execution_def put_execution_def)
qed

lemma get_execution_replace_other:
  "e_id e = i \<Longrightarrow> j \<noteq> i \<Longrightarrow> get_execution (put_execution i (\<lambda>_. e) d) j = get_execution d j"
proof -
  assume e: "e_id e = i" "j \<noteq> i"
  have "find (\<lambda>e. e_id e = j) (map (\<lambda>f. if e_id f = i then e else f) es) = find (\<lambda>e. e_id e = j) es" for es
    using e by (induction es) auto
  then show ?thesis by (simp add: get_execution_def put_execution_def)
qed

lemma put_execution_twice:
  "e_id e = i \<Longrightarrow> put_execution i (\<lambda>_. e') (put_execution i (\<lambda>_. e) d) = put_execution i (\<lambda>_. e') d"
  by (simp add: put_execution_def)

lemma dict_get_update_other: "k \<noteq> k' \<Longrightarrow> dict_get (AList.update k v d) k' dflt = dict_get d k' dflt"
  by (simp add: dict_get_def update_conv')

lemma context_prompt_eq:
  "context_prompt isofmt x p = (case x_task_type x of
     None \<Rightarrow> Inl (AttributeError ''object has no attribute title'')
   | Some ty \<Rightarrow>
       let num = (case x_task_number x of None \<Rightarrow> JNull | Some n \<Rightarrow> JInt n) in
       Inr (if x_runner_mode x = WRITE
         then write_text num (JStr ty) (title_from False ty) (json_opt (x_branch_name x))
           (json_opt (x_worktree_path x)) (json_opt (x_commit_sha_before x))
         else readonly_text num (JStr ty) (title_from False ty) (json_opt (x_base_repo_path x))))"
proof -
  let ?d = "AList.update ''task_prompt'' (JStr p) (context_to_dict isofmt x)"
  have get: "dict_get ?d k dflt = dict_get (context_to_dict isofmt x) k dflt" if "k \<noteq> ''task_prompt''" for k dflt
    using that by (simp add: dict_get_update_other)
  have f: "dict_get ?d ''runner_mode'' a = JStr (runner_mode_value (x_runner_mode x))"
      "dict_get ?d ''task_type'' a = json_opt (x_task_type x)"
      "dict_get ?d ''task_number'' a = (case x_task_number x of None \<Rightarrow> JNull | Some n \<Rightarrow> JInt n)"
      "dict_get ?d ''base_repo_path'' a = json_opt (x_base_repo_path x)"
      "dict_get ?d ''branch_name'' a = json_opt (x_branch_name x)"
      "dict_get ?d ''worktree_path'' a = json_opt (x_worktree_path x)"
      "dict_get ?d ''commit_sha_before'' a = json_opt (x_commit_sha_before x)" for a
    by (simp_all only: get list.inject char.inject simp_thms list.distinct) (simp_all add: context_to_dict_def dict_get_def)
  show ?thesis
    unfolding context_prompt_def build_prompt_def build_write_prompt_def build_readonly_prompt_def f
    by (cases "x_runner_mode x"; cases "x_task_type x") (simp_all add: json_opt_def Let_def)
qed

lemma str_in_join: "w \<in> set ws \<Longrightarrow> str_in w (join_with sep ws)"
proof (induction sep ws rule: join_with.induct)
  case (3 sep a b ws)
  show ?case
  proof (cases "w = a")
    case True
    then have "join_with sep (a # b # ws) = [] @ w @ sep @ join_with sep (b # ws)" by simp
    then show ?thesis unfolding str_in_iff by blast
  next
    case False
    with 3 have "str_in w (join_with sep (b # ws))" by simp
    then obtain u v where "join_with sep (b # ws) = u @ w @ v" by (auto simp: str_in_iff)
    then have "join_with sep (a # b # ws) = (a @ sep @ u) @ w @ v" by simp
    then show ?thesis unfolding str_in_iff by blast
  qed
qed (auto simp: str_in_iff intro: exI [of _ "[]"])

section \<open>Properties\<close>

text \<open>
  The prompt says what the runner may do. For a context with a task type the prompt is
  built; a write prompt has the lines that name worktree, branch and start commit and allow
  writing, a read-only prompt has the line that forbids it and names the base repository.
\<close>

theorem prompt_declares_mode:
  assumes "x_task_type x = Some ty"
  shows "\<exists>t. context_prompt isofmt x p = Inr t \<and>
    (if x_runner_mode x = WRITE
     then str_in ''- Modus: WRITE (Schreiboperationen erlaubt)'' t \<and>
       str_in (''- Repository: '' @ json_str (json_opt (x_worktree_path x))) t \<and>
       str_in (''- Branch: '' @ json_str (json_opt (x_branch_name x))) t \<and>
       str_in (''- Start-Commit: '' @ json_str (json_opt (x_commit_sha_before x))) t
     else str_in ''- Modus: READ-ONLY (keine Schreiboperationen)'' t \<and>
       str_in (''- Repository: '' @ json_str (json_opt (x_base_repo_path x))) t)"
  unfolding context_prompt_eq assms option.case Let_def
  by (cases "x_runner_mode x") (simp_all add: write_text_def readonly_text_def str_in_join del: join_with.simps)

theorem prompt_declares_mode_witness:
  "\<exists>t. context_prompt (\<lambda>_. []) (build_read_only_context ''/r'' 0 1 7 ''analysis'' None None []) ''p'' = Inr t \<and>
     str_in ''- Modus: READ-ONLY (keine Schreiboperationen)'' t \<and> str_in ''- Repository: /r'' t"
  using prompt_declares_mode [where x = "build_read_only_context ''/r'' 0 1 7 ''analysis'' None None []"
      and ty = "''analysis''" and isofmt = "\<lambda>_. []" and p = "''p''"]
  by (simp add: build_read_only_context_def json_opt_def)

text \<open>
  The task's own text never reaches the service. Whatever prompt is passed for the task,
  the dispatch behaves the same: the templates do not read the entry \<open>task_prompt\<close>.
\<close>

theorem dispatch_ignores_task_prompt:
  "dispatch_prompt env flush i x p s = dispatch_prompt env flush i x q s"
proof -
  have "context_prompt (de_isofmt env) x p = context_prompt (de_isofmt env) x q"
    by (simp only: context_prompt_eq)
  then have "send_prompt env x p = send_prompt env x q" by (simp only: send_prompt_def)
  then show ?thesis by (simp only: dispatch_prompt_def)
qed

lemma dispatch_sent:
  assumes queued: "get_execution (working s) i = Some e" "e_status e = ES_QUEUED" and DbOk: "flush = DbOk"
    and Inr: "send_prompt env x p = Inr r"
  shows "(case fst (dispatch_prompt env flush i x p s) of
      Inr (e', mid) \<Rightarrow> (\<exists>e r v. get_execution (working s) i = Some e \<and> e_status e = ES_QUEUED \<and> flush = DbOk \<and>
        send_prompt env x p = Inr r \<and> mid = sn_message r \<and> e_status e' = ES_IN_PROGRESS \<and>
        e_opencode_session_id e' = Some (sn_session r) \<and> e_opencode_message_id e' = Some mid \<and>
        get_execution (working (snd (dispatch_prompt env flush i x p s))) i = Some e' \<and>
        events (working (snd (dispatch_prompt env flush i x p s))) = events (working s) @ [v] \<and>
        v_event_type v = EV_EXECUTION_DISPATCHED \<and> v_execution_id v = i)
    | Inl _ \<Rightarrow>
        snd (dispatch_prompt env flush i x p s) = s \<and>
          (case get_execution (working s) i of None \<Rightarrow> True | Some e \<Rightarrow> e_status e \<noteq> ES_QUEUED) \<or>
        (\<exists>e e'. get_execution (working s) i = Some e \<and> e_status e = ES_QUEUED \<and>
          get_execution (working (snd (dispatch_prompt env flush i x p s))) i = Some e' \<and>
          e_status e' = ES_DISPATCHING \<and>
          (flush \<noteq> DbOk \<and> events (working (snd (dispatch_prompt env flush i x p s))) = events (working s) \<or>
           (\<exists>err v. send_prompt env x p = Inl err \<and> e_error_type e' = Some (exn_name err) \<and>
              events (working (snd (dispatch_prompt env flush i x p s))) = events (working s) @ [v] \<and>
              v_event_type v = EV_ERROR \<and> v_execution_id v = i)))) \<and>
   committed (snd (dispatch_prompt env flush i x p s)) = committed s \<and>
   tasks (working (snd (dispatch_prompt env flush i x p s))) = tasks (working s) \<and>
   (\<forall>j. j \<noteq> i \<longrightarrow> get_execution (working (snd (dispatch_prompt env flush i x p s))) j = get_execution (working s) j)"proof -
  let ?D = "dispatch_prompt env flush i x p s" and ?e1 = "start_dispatch env e"
  have i: "e_id e = i" using get_execution_Some [OF queued(1)] by simp
  note put = get_execution_replace [OF _ queued(1)] get_execution_replace_other
  let ?e2 = "succeed_dispatch env x r ?e1"
  let ?v = "dispatch_event env (working (modify (put_execution i (\<lambda>_. ?e1)) s)) ?e1 EV_EXECUTION_DISPATCHED
    ([(''opencode_session_id'', JStr (sn_session r)), (''opencode_message_id'', JStr (sn_message r))]
      @ dispatch_summary env x r)"
  have v: "v_event_type ?v = EV_EXECUTION_DISPATCHED" "v_execution_id ?v = i"
    by (simp_all add: dispatch_event_def i)
  have D: "?D = (Inr (?e2, sn_message r),
      modify (add_event ?v) (modify (put_execution i (\<lambda>_. ?e2)) (modify (put_execution i (\<lambda>_. ?e1)) s)))"
    using queued DbOk Inr by (simp add: dispatch_prompt_def Let_def)
  have "e_opencode_session_id ?e2 = Some (sn_session r)" "e_opencode_message_id ?e2 = Some (sn_message r)"
    by (simp_all add: succeed_dispatch_def)
  with v DbOk i queued(2) show ?thesis unfolding D by (simp add: queued(1) Inr put put_execution_twice)
qed

lemma dispatch_not_sent:
  assumes queued: "get_execution (working s) i = Some e" "e_status e = ES_QUEUED" and DbOk: "flush = DbOk"
    and Inl: "send_prompt env x p = Inl err"
  shows "(case fst (dispatch_prompt env flush i x p s) of
      Inr (e', mid) \<Rightarrow> (\<exists>e r v. get_execution (working s) i = Some e \<and> e_status e = ES_QUEUED \<and> flush = DbOk \<and>
        send_prompt env x p = Inr r \<and> mid = sn_message r \<and> e_status e' = ES_IN_PROGRESS \<and>
        e_opencode_session_id e' = Some (sn_session r) \<and> e_opencode_message_id e' = Some mid \<and>
        get_execution (working (snd (dispatch_prompt env flush i x p s))) i = Some e' \<and>
        events (working (snd (dispatch_prompt env flush i x p s))) = events (working s) @ [v] \<and>
        v_event_type v = EV_EXECUTION_DISPATCHED \<and> v_execution_id v = i)
    | Inl _ \<Rightarrow>
        snd (dispatch_prompt env flush i x p s) = s \<and>
          (case get_execution (working s) i of None \<Rightarrow> True | Some e \<Rightarrow> e_status e \<noteq> ES_QUEUED) \<or>
        (\<exists>e e'. get_execution (working s) i = Some e \<and> e_status e = ES_QUEUED \<and>
          get_execution (working (snd (dispatch_prompt env flush i x p s))) i = Some e' \<and>
          e_status e' = ES_DISPATCHING \<and>
          (flush \<noteq> DbOk \<and> events (working (snd (dispatch_prompt env flush i x p s))) = events (working s) \<or>
           (\<exists>err v. send_prompt env x p = Inl err \<and> e_error_type e' = Some (exn_name err) \<and>
              events (working (snd (dispatch_prompt env flush i x p s))) = events (working s) @ [v] \<and>
              v_event_type v = EV_ERROR \<and> v_execution_id v = i)))) \<and>
   committed (snd (dispatch_prompt env flush i x p s)) = committed s \<and>
   tasks (working (snd (dispatch_prompt env flush i x p s))) = tasks (working s) \<and>
   (\<forall>j. j \<noteq> i \<longrightarrow> get_execution (working (snd (dispatch_prompt env flush i x p s))) j = get_execution (working s) j)"proof -
  let ?D = "dispatch_prompt env flush i x p s" and ?e1 = "start_dispatch env e"
  have i: "e_id e = i" using get_execution_Some [OF queued(1)] by simp
  note put = get_execution_replace [OF _ queued(1)] get_execution_replace_other
  let ?e2 = "fail_dispatch err ?e1"
  let ?v = "dispatch_event env (working (modify (put_execution i (\<lambda>_. ?e1)) s)) ?e1 EV_ERROR
    [(''error_type'', JStr (exn_name err)), (''error_message'', JStr (client_exn_str err)),
     (''failed_at'', JStr (de_isofmt env (de_clock env 1))), (''phase'', JStr ''prompt_dispatch'')]"
  have v: "v_event_type ?v = EV_ERROR" "v_execution_id ?v = i"
    by (simp_all add: dispatch_event_def i)
  have D: "?D = (Inl (DispatchError (''Failed to dispatch prompt: '' @ client_exn_str err)),
      modify (add_event ?v) (modify (put_execution i (\<lambda>_. ?e2)) (modify (put_execution i (\<lambda>_. ?e1)) s)))"
    using queued DbOk Inl by (simp add: dispatch_prompt_def Let_def)
  have "e_error_type ?e2 = Some (exn_name err)" by (simp add: fail_dispatch_def)
  with v DbOk i queued(2) show ?thesis unfolding D by (simp add: queued(1) Inl put put_execution_twice)
qed


definition claimed_execution :: task_execution where
  "claimed_execution = new_execution 7 ''c'' 0 1 ''r''"

definition dispatch_db :: db where
  "dispatch_db = sample_db\<lparr>executions := [claimed_execution],
     events := [claim_event (\<lambda>n. []) ''c'' 0 ''r'' 7]\<rparr>"

definition sample_context :: prepared_context where
  "sample_context = build_read_only_context ''/r'' 0 1 7 ''analysis'' None None []"

definition sample_env :: "(string \<Rightarrow> string \<Rightarrow> client_exn + string) \<Rightarrow> dispatch_env" where
  "sample_env send = \<lparr>de_create = (\<lambda>_. Inr ''s''), de_send = send, de_sha256 = (\<lambda>_. ''h''),
     de_isofmt = (\<lambda>_. []), de_clock = int\<rparr>"

lemma dispatch_db_wf: "wf_db dispatch_db"
  by (simp add: wf_db_def dispatch_db_def claimed_execution_def sample_db_def sample_task_def
      unique_active_def active_for_def events_unique_def claim_event_def)

lemma dispatch_db_get: "get_execution dispatch_db 7 = Some claimed_execution"
  by (simp add: get_execution_def dispatch_db_def claimed_execution_def)




text \<open>
  Dispatching keeps the database well-formed: one active execution per task and event
  numbers that never repeat, on success and on failure.
\<close>

theorem dispatch_preserves_wf:
  assumes wf: "wf_db (working s)"
  shows "wf_db (working (snd (dispatch_prompt env flush i x p s)))"
proof (cases "get_execution (working s) i")
  case None
  with wf show ?thesis by (simp add: dispatch_prompt_def)
next
  case (Some e)
  have i: "e_id e = i" "e \<in> set (executions (working s))" using get_execution_Some [OF Some] by auto
  show ?thesis
  proof (cases "e_status e = ES_QUEUED")
    case False
    with wf Some show ?thesis by (simp add: dispatch_prompt_def)
  next
    case True
    have act: "is_active e" using True by (simp add: is_active_iff)
    have put: "wf_db (put_execution i (\<lambda>_. e') (working s))" if "e_id e' = i" "e_task_id e' = e_task_id e" for e'
      using wf_db_replace_execution [OF wf, of e' e] that act Some by simp
    have i': "i \<in> e_id ` set (executions (put_execution i (\<lambda>_. e') (working s)))" if "e_id e' = i" for e'
    proof -
      have "i \<in> e_id ` set (executions (working s))" using i by force
      with put_execution_ids [of e' "working s"] that show ?thesis by simp
    qed
    have log: "wf_db (add_event v (put_execution i (\<lambda>_. e') (working s)))"
      if "e_id e' = i" "e_task_id e' = e_task_id e"
        "v = dispatch_event env (put_execution i (\<lambda>_. e1) (working s)) e2 ty pl" "e_id e2 = i" for v e' e1 e2 ty pl
    proof (rule wf_db_insert_event [OF put [OF that(1,2)]])
      show "insert_event v (put_execution i (\<lambda>_. e') (working s)) = Inr (add_event v (put_execution i (\<lambda>_. e') (working s)))"
        using next_sequence_above [of _ "put_execution i (\<lambda>_. e1) (working s)" i] that
        by (intro insert_event_next [OF i' [OF that(1)]])
           (simp_all add: dispatch_event_def events_of_def del: set_map)
    qed
    show ?thesis
      using True Some i
      by (cases flush; cases "send_prompt env x p")
         (simp_all add: dispatch_prompt_def Let_def put put_execution_twice log)
  qed
qed

theorem dispatch_preserves_wf_witness:
  "wf_db (working (snd (dispatch_prompt (sample_env (\<lambda>_ _. Inr ''m'')) DbOk 7 sample_context ''p'' (open_session dispatch_db))))"
  by (rule dispatch_preserves_wf) (simp add: dispatch_db_wf)

end
