(* ===== verification/Lifecycle.thy ===== *)
theory Lifecycle
  imports Task_Service Dispatch
begin

text \<open>
  What the operations of the components keep of one shared database. \<open>system_ok\<close> is the
  consistency of the committed data, \<open>grows\<close> says that history is only extended, and
  \<open>good_step\<close> that a step keeps the first and has the second. One lemma per operation, for
  \<open>System_Run\<close>.
\<close>

section \<open>What every operation keeps\<close>

definition task_identity :: "task \<Rightarrow> uuid \<times> int \<times> string option \<times> string \<times> uuid option" where
  "task_identity t = (t_id t, t_task_number t, t_idempotency_key t, t_type t, t_requirement_id t)"

definition execution_identity :: "task_execution \<Rightarrow> uuid \<times> uuid" where
  "execution_identity e = (e_id e, e_task_id e)"

definition logs_ok :: "db \<Rightarrow> bool" where
  "logs_ok d = (\<forall>i. sorted_wrt (<) (map v_sequence (events_of d i)))"

definition system_ok :: "db \<Rightarrow> bool" where
  "system_ok d = (tasks_ok d \<and> logs_ok d)"

text \<open>Executions that have ended stay ended.\<close>

definition ended_stay :: "db \<Rightarrow> db \<Rightarrow> bool" where
  "ended_stay d d' = (\<forall>i e. get_execution d i = Some e \<and> \<not> is_active e \<longrightarrow>
     (\<exists>e'. get_execution d' i = Some e' \<and> \<not> is_active e'))"

definition grows :: "db \<Rightarrow> db \<Rightarrow> bool" where
  "grows d d' = (prefix (map task_identity (tasks d)) (map task_identity (tasks d')) \<and>
     prefix (requirements d) (requirements d') \<and>
     prefix (map execution_identity (executions d)) (map execution_identity (executions d')) \<and>
     prefix (events d) (events d') \<and> ended_stay d d')"

definition good_step :: "db \<Rightarrow> db \<Rightarrow> bool" where
  "good_step d d' = (system_ok d \<longrightarrow> system_ok d' \<and> grows d d')"

lemma ended_stay_same: "executions d' = executions d \<Longrightarrow> ended_stay d d'"
  by (auto simp: ended_stay_def get_execution_def)

lemma grows_trans: "grows a b \<Longrightarrow> grows b c \<Longrightarrow> grows a c"
  unfolding grows_def ended_stay_def by (blast intro: prefix_order.trans)

lemma good_step_refl [simp]: "good_step d d"
  by (simp add: good_step_def grows_def ended_stay_same)

lemma good_step_trans: "good_step a b \<Longrightarrow> good_step b c \<Longrightarrow> good_step a c"
  by (auto simp: good_step_def intro: grows_trans)

section \<open>Task columns\<close>

definition tasks_kept :: "db \<Rightarrow> db \<Rightarrow> bool" where
  "tasks_kept d d' = (map task_identity (tasks d') = map task_identity (tasks d) \<and>
     requirements d' = requirements d \<and> executions d' = executions d \<and> events d' = events d)"

lemma tasks_kept_refl [simp]: "tasks_kept d d"
  by (simp add: tasks_kept_def)

lemma tasks_kept_trans: "tasks_kept a b \<Longrightarrow> tasks_kept b c \<Longrightarrow> tasks_kept a c"
  by (simp add: tasks_kept_def)

lemma tasks_kept_update:
  assumes "\<And>t. task_identity (f t) = task_identity t"
  shows "tasks_kept d (update_tasks p f d)"
  using assms by (simp add: tasks_kept_def update_tasks_def comp_def if_distrib [of task_identity] cong: if_cong)

lemma tasks_kept_put: "(\<And>t. task_identity (f t) = task_identity t) \<Longrightarrow> tasks_kept d (put_task i f d)"
  unfolding put_task_def by (rule tasks_kept_update)

definition identity_keys :: "uuid \<times> int \<times> string option \<times> string \<times> uuid option \<Rightarrow> string list" where
  "identity_keys x = (case fst (snd (snd x)) of None \<Rightarrow> [] | Some k \<Rightarrow> [k])"

lemma identity_keys_task:
  "identity_keys (task_identity t) = (case t_idempotency_key t of None \<Rightarrow> [] | Some k \<Rightarrow> [k])"
  by (simp only: identity_keys_def task_identity_def fst_conv snd_conv)

lemma keys_identity:
  assumes "map task_identity ts = map task_identity us"
  shows "keys_of_tasks ts = keys_of_tasks us"
proof -
  have k: "keys_of_tasks ts = concat (map identity_keys (map task_identity ts))" for ts
    unfolding keys_of_tasks_def map_map comp_def identity_keys_task ..
  show ?thesis unfolding k assms ..
qed

lemma identity_columns:
  assumes "map task_identity ts = map task_identity us"
  shows "map t_id ts = map t_id us" "map t_task_number ts = map t_task_number us"
    "map (\<lambda>t. (t_type t, t_requirement_id t)) ts = map (\<lambda>t. (t_type t, t_requirement_id t)) us"
proof -
  have f: "map f (map task_identity ts) = map f (map task_identity us)" for f by (simp only: assms)
  show "map t_id ts = map t_id us"
    using f [of fst] unfolding map_map comp_def task_identity_def fst_conv .
  have g: "map f (map task_identity ts) = map f (map task_identity us)" for f by (simp only: assms)
  show "map t_task_number ts = map t_task_number us"
    using g [of "\<lambda>x. fst (snd x)"] unfolding map_map comp_def task_identity_def fst_conv snd_conv .
  have h: "map f (map task_identity ts) = map f (map task_identity us)" for f by (simp only: assms)
  show "map (\<lambda>t. (t_type t, t_requirement_id t)) ts = map (\<lambda>t. (t_type t, t_requirement_id t)) us"
    using h [of "\<lambda>x. snd (snd (snd x))"] unfolding map_map comp_def task_identity_def fst_conv snd_conv .
qed

lemma tasks_kept_good:
  assumes "tasks_kept d d'"
  shows "good_step d d'"
proof -
  have id: "map task_identity (tasks d') = map task_identity (tasks d)" using assms by (simp add: tasks_kept_def)
  note ids = identity_columns(1) [OF id] and nums = identity_columns(2) [OF id] and tys = identity_columns(3) [OF id]
  have st: "same_tables d d'" using assms ids by (simp add: tasks_kept_def same_tables_def)
  have all: "\<forall>t \<in> set (tasks d'). Q (t_type t) (t_requirement_id t)"
    if "\<forall>t \<in> set (tasks d). Q (t_type t) (t_requirement_id t)" for Q
  proof
    fix t assume "t \<in> set (tasks d')"
    then have "(t_type t, t_requirement_id t) \<in> set (map (\<lambda>t. (t_type t, t_requirement_id t)) (tasks d'))" by force
    then obtain u where "u \<in> set (tasks d)" "t_type u = t_type t" "t_requirement_id u = t_requirement_id t"
      unfolding tys by auto
    with that show "Q (t_type t) (t_requirement_id t)" by metis
  qed
  have "tasks_ok d'" if t: "tasks_ok d"
  proof -
    have r: "requirements d' = requirements d" using assms by (simp add: tasks_kept_def)
    have "wf_db d'" using t same_tables_wf [OF st] by (simp add: tasks_ok_def)
    moreover have "distinct (map t_task_number (tasks d'))" unfolding nums using t by (simp add: tasks_ok_def)
    moreover have "distinct (keys_of_tasks (tasks d'))" unfolding keys_identity [OF id] using t by (simp add: tasks_ok_def)
    moreover have "\<forall>t \<in> set (tasks d'). t_type t \<in> set ALLOWED_TASK_TYPES \<and>
        (\<forall>q. t_requirement_id t = Some q \<longrightarrow> q \<in> r_id ` set (requirements d))"
      by (rule all) (use t in \<open>unfold tasks_ok_def, blast\<close>)
    ultimately show ?thesis unfolding tasks_ok_def r by blast
  qed
  then show ?thesis
    using assms by (auto simp: good_step_def system_ok_def logs_ok_def events_of_def grows_def tasks_kept_def ended_stay_same)
qed

lemma identity_writes [simp]:
  "task_identity (set_git x t) = task_identity t" "task_identity (set_prepared now y t) = task_identity t"
  "task_identity (note_failure now msg t) = task_identity t"
  "task_identity (lock_values now w b t) = task_identity t"
  "task_identity (apply_recovery now st t) = task_identity t"
  by (simp_all add: task_identity_def set_git_def set_prepared_def note_failure_def lock_values_def
      apply_recovery_def Let_def)

lemma lock_tasks_kept: "tasks_kept d (working (snd (lock_tasks w out now plan (open_session d))))"
  by (simp add: lock_tasks_def Let_def tasks_kept_update split: db_outcome.split)

lemma release_lock_kept:
  assumes "tasks_kept (working s) (committed s)"
  shows "tasks_kept (working s) (working (snd (release_lock out now i st s)))"
proof -
  have "task_identity (t\<lparr>t_status := st, t_queued_at := None, t_locked_by := None, t_updated_at := now\<rparr>) = task_identity t"
    for t by (simp add: task_identity_def)
  with assms show ?thesis by (cases out) (simp_all add: release_lock_row tasks_kept_update)
qed

lemma tasks_kept_sym: "tasks_kept d d' \<Longrightarrow> tasks_kept d' d"
  by (simp add: tasks_kept_def)

lemma prepare_body_kept:
  assumes "prepare_body E cfg base now b t (s, g) = (res, s', g')"
  shows "tasks_kept (working s) (working s') \<and> committed s' = committed s"
  using prepare_body_cases(1) [OF assms]
proof (elim disjE exE)
  fix x assume "s' = modify (put_task (t_id t) (set_git x)) s"
  then show ?thesis using tasks_kept_put [of "set_git x"] by simp
qed simp

lemma prepare_task_context_kept:
  assumes "prepare_task_context E cfg base rel_out now b t (s, g) = (r, s', g')" "committed s = working s"
  shows "tasks_kept (working s) (working s')"
proof -
  obtain res s1 g1 where p: "prepare_body E cfg base now b t (s, g) = (res, s1, g1)"
    by (cases "prepare_body E cfg base now b t (s, g)") auto
  have k: "tasks_kept (working s) (working s1)" "committed s1 = working s"
    using prepare_body_kept [OF p] assms(2) by simp_all
  have put: "tasks_kept (working s) (put_task i f (working s1))" if "\<And>t. task_identity (f t) = task_identity t" for i f
    using k(1) tasks_kept_put [OF that] by (rule tasks_kept_trans)
  have failed: "task_identity (t\<lparr>t_status := TS_FAILED\<rparr>) = task_identity t" for t by (simp add: task_identity_def)
  show ?thesis
  proof (cases res)
    case (Inr x)
    with assms(1) p have "s' = commit (modify (put_task (t_id t) (set_prepared now x)) s1)"
      by (simp add: prepare_task_context_def Let_def)
    then show ?thesis by (simp add: put)
  next
    case (Inl y)
    show ?thesis
    proof (cases y)
      case (OtherExc msg)
      with Inl assms(1) p have "s' = commit (modify (put_task (t_id t) (note_failure now msg)) s1)"
        by (simp add: prepare_task_context_def Let_def)
      then show ?thesis by (simp add: put)
    next
      case (PrepErr e)
      let ?s2 = "modify (put_task (t_id t) (note_failure now (pe_message e))) s1"
      have 2: "tasks_kept (working s) (working ?s2)" by (simp add: put)
      have "s' = commit (if pe_is_non_recoverable e then modify (put_task (t_id t) (\<lambda>t. t\<lparr>t_status := TS_FAILED\<rparr>)) ?s2
          else snd (release_lock rel_out now (t_id t) TS_BACKLOG ?s2))"
        using PrepErr Inl assms(1) p by (simp add: prepare_task_context_def Let_def)
      moreover have "tasks_kept (working ?s2) (put_task (t_id t) (\<lambda>t. t\<lparr>t_status := TS_FAILED\<rparr>) (working ?s2))"
        by (rule tasks_kept_put) (rule failed)
      moreover have "tasks_kept (working ?s2) (working (snd (release_lock rel_out now (t_id t) TS_BACKLOG ?s2)))"
        by (rule release_lock_kept) (use 2 k(2) tasks_kept_sym in simp)
      ultimately show ?thesis using 2 by (auto intro: tasks_kept_trans simp: modify_def)
    qed
  qed
qed

lemma prepare_one_kept:
  assumes "prepare_one E cfg base rel_out now b i (rs, s, g) = (rs1, s1, g1)" "committed s = working s"
  shows "committed s1 = working s1 \<and> tasks_kept (working s) (working s1)"
proof (intro conjI)
  show "committed s1 = working s1" using prepare_one_spec [OF assms] by blast
  show "tasks_kept (working s) (working s1)"
  proof (cases "get_task (working s) i")
    case None
    with assms(1) show ?thesis by (auto simp: prepare_one_def)
  next
    case (Some t)
    obtain r s2 g2 where q: "prepare_task_context E cfg base rel_out now b t (s, g) = (r, s2, g2)"
      by (cases "prepare_task_context E cfg base rel_out now b t (s, g)") auto
    with assms(1) Some have "s1 = s2" by (auto simp: prepare_one_def)
    with prepare_task_context_kept [OF q assms(2)] show ?thesis by simp
  qed
qed

lemma fold_prepare_kept:
  assumes "fold (prepare_one E cfg base rel_out now b) ids (rs, s, g) = (rs', s', g')" "committed s = working s"
  shows "committed s' = working s' \<and> tasks_kept (working s) (working s')"
  using assms
proof (induction ids arbitrary: rs s g)
  case (Cons i ids)
  obtain rs1 s1 g1 where p: "prepare_one E cfg base rel_out now b i (rs, s, g) = (rs1, s1, g1)"
    by (cases "prepare_one E cfg base rel_out now b i (rs, s, g)") auto
  note k = prepare_one_kept [OF p Cons.prems(2)]
  have "committed s' = working s' \<and> tasks_kept (working s1) (working s')"
    by (rule Cons.IH [of rs1 s1 g1]) (use Cons.prems(1) p k in simp_all)
  with k tasks_kept_trans show ?case by blast
qed simp

section \<open>Each operation\<close>

lemma lock_tasks_synced:
  "committed (snd (lock_tasks w out now plan (open_session d))) = working (snd (lock_tasks w out now plan (open_session d)))"
  by (simp add: lock_tasks_def Let_def split: db_outcome.split)

lemma cycle_kept:
  assumes "run_preparation_cycle E cfg base w m others lo ro now b (s, g) = (rs, s', g')"
  shows "tasks_kept (others (committed s)) (committed s')"
proof -
  let ?d = "others (committed s)"
  consider (idle) "s' = open_session ?d"
    | (work) plan rs0 g0 ids where
        "fold (prepare_one E cfg base ro now b) ids (rs0, snd (lock_tasks w lo now plan (open_session ?d)), g0) = (rs, s', g')"
    using assms by (auto simp: run_preparation_cycle_def Let_def split_beta split: sum.splits if_splits)
  then show ?thesis
  proof cases
    case idle
    then show ?thesis by simp
  next
    case work
    note k = fold_prepare_kept [OF work lock_tasks_synced]
    from tasks_kept_trans [OF lock_tasks_kept k [THEN conjunct2]] k show ?thesis by simp
  qed
qed

lemma recovery_cycle_kept:
  assumes "run_recovery_cycle tm m now w (open_session d) = (rs, s')"
  shows "tasks_kept d (committed s')"
proof -
  have "tasks_kept d (working (fst (fold (recover_step now m) ts (s, rs0))))" if "tasks_kept d (working s)" for ts s rs0
    using that
  proof (induction ts arbitrary: s rs0)
    case (Cons t ts)
    let ?f = "apply_recovery now (fst (recover_task m t (t_last_preparation_error t)))"
    have "tasks_kept d (put_task (t_id t) ?f (working s))"
      by (rule tasks_kept_trans [OF Cons.prems tasks_kept_put]) simp
    with Cons.IH show ?case by (simp add: recover_step_eq)
  qed simp
  from this [of "open_session d"] assms show ?thesis
    by (auto simp: run_recovery_cycle_def split: prod.splits) (metis fst_conv)
qed

lemma claim_good:
  assumes "claim_task pk corr isofmt now i runner (open_session d) = (Inr e, s')"
  shows "good_step d (working s')"
  unfolding good_step_def
proof
  assume ok: "system_ok d"
  then have wf: "wf_db d" by (simp add: system_ok_def tasks_ok_def)
  obtain k where k: "k \<notin> e_id ` set (executions d)" "status_in d i = Some TS_PREPARED" "active_for d i = []"
    "working s' = claimed_db isofmt corr now i runner k d"
    using claim_task_Inr [OF _ assms] wf by auto
  let ?u = "claim_update now i d" and ?e = "new_execution k corr now i runner"
  let ?v = "claim_event isofmt corr now runner k"
  have kept: "tasks_kept d ?u"
    unfolding claim_update_def by (rule tasks_kept_update) (simp add: task_identity_def)
  then have u: "system_ok ?u" "grows d ?u" using tasks_kept_good [OF kept] ok by (auto simp: good_step_def)
  have d': "tasks (working s') = tasks ?u" "requirements (working s') = requirements ?u"
    "executions (working s') = executions d @ [?e]" "events (working s') = events d @ [?v]"
    by (simp_all add: k(4) claimed_db_def)
  have "wf_db (working s')" unfolding k(4) by (rule claimed_db_props(1) [OF wf k(2,3,1)])
  then have "tasks_ok (working s')" using u(1) unfolding system_ok_def tasks_ok_def d' by blast
  moreover have "events_of (working s') j = events_of d j @ (if j = k then [?v] else [])" for j
    by (simp add: events_of_def d' claim_event_def)
  then have "logs_ok (working s')"
    using ok no_events_fresh [OF wf k(1)] by (auto simp: logs_ok_def system_ok_def)
  moreover have "ended_stay d (working s')"
  proof -
    have "find P (xs @ ys) = Some x" if "find P xs = Some x" for P and xs ys :: "task_execution list" and x
      using that by (induction xs) auto
    then show ?thesis by (auto simp: ended_stay_def get_execution_def d')
  qed
  then have "grows d (working s')" using u(2) by (simp add: grows_def d')
  ultimately show "system_ok (working s') \<and> grows d (working s')" by (simp add: system_ok_def)
qed

end
