(* ===== verification/System_Run.thy ===== *)
theory System_Run
  imports Lifecycle
begin

text \<open>
  Runs of the whole system: intake requests, preparation cycles, the recovery of stale
  tasks, claims, dispatches, recovery decisions and recovery events, in any order and by any
  number of workers, from one committed database to another. Every step reads what the
  previous ones committed; the preparation cycle, which reads its candidates and locks them
  in two transactions, lets any other run happen between the two. Claims, dispatches and
  recovery events are committed by their caller.
\<close>

section \<open>Replacing an execution and logging an event\<close>

lemma execution_log_good:
  assumes old: "get_execution d (e_id e) = Some e0" and same: "e_task_id e = e_task_id e0"
    and act: "is_active e \<Longrightarrow> is_active e0"
    and v: "v_execution_id v = e_id e" "v_external_event_id v = None"
    and big: "system_ok d \<Longrightarrow> \<forall>m \<in> set (map v_sequence (events_of d (e_id e))). m < v_sequence v"
  shows "good_step d (add_event v (put_execution (e_id e) (\<lambda>_. e) d))"
  unfolding good_step_def
proof
  assume ok: "system_ok d"
  then have wf: "wf_db d" by (simp add: system_ok_def tasks_ok_def)
  let ?p = "put_execution (e_id e) (\<lambda>_. e) d"
  let ?d = "add_event v ?p"
  have e0: "e0 \<in> set (executions d)" "e_id e0 = e_id e" using get_execution_Some [OF old] by auto
  have wfp: "wf_db ?p" by (rule wf_db_replace_execution [OF wf old same act])
  have "e_id e \<in> e_id ` set (executions d)" using e0 by (metis image_eqI)
  then have "e_id e \<in> e_id ` set (executions ?p)" by (simp only: put_execution_ids)
  then have "insert_event v ?p = Inr ?d"
    by (rule insert_event_next) (use v big [OF ok] in \<open>simp_all add: events_of_def\<close>)
  then have "wf_db ?d" by (rule wf_db_insert_event [OF wfp])
  then have "tasks_ok ?d" using ok by (simp add: system_ok_def tasks_ok_def add_event_def)
  moreover have "events_of ?d j = events_of d j @ (if j = e_id e then [v] else [])" for j
    using v(1) by (simp add: events_of_def)
  then have "logs_ok ?d"
    using ok big [OF ok] by (auto simp: logs_ok_def system_ok_def sorted_wrt_append)
  moreover have "ended_stay d ?d"
    unfolding ended_stay_def
  proof (intro allI impI)
    fix j x assume x: "get_execution d j = Some x \<and> \<not> is_active x"
    show "\<exists>y. get_execution ?d j = Some y \<and> \<not> is_active y"
    proof (cases "j = e_id e")
      case True
      have "get_execution ?d j = Some e" using get_execution_replace [OF refl old] True by simp
      then show ?thesis using x True old act by auto
    next
      case False
      have "get_execution ?d j = get_execution d j" using get_execution_replace_other [OF refl False] by simp
      then show ?thesis using x by auto
    qed
  qed
  moreover have "map execution_identity (executions ?d) = map execution_identity (executions d)"
  proof -
    have "distinct (map e_id (executions d))" using wf by (simp add: wf_db_def)
    then have u: "x = e0" if "x \<in> set (executions d)" "e_id x = e_id e" for x
      using that e0 by (metis distinct_map inj_onD)
    have "execution_identity (if e_id x = e_id e then e else x) = execution_identity x"
      if "x \<in> set (executions d)" for x
      using u [OF that] same e0(2) by (auto simp: execution_identity_def)
    then show ?thesis by (simp add: put_execution_def)
  qed
  ultimately show "system_ok ?d \<and> grows d ?d"
    by (simp add: system_ok_def grows_def add_event_def)
qed

lemma dispatch_good:
  assumes "dispatch_prompt env DbOk i x prompt (open_session d) = (r, s')"
  shows "good_step d (working s')"
proof (cases "get_execution d i")
  case None
  with assms show ?thesis by (auto simp: dispatch_prompt_def)
next
  case (Some e)
  show ?thesis
  proof (cases "e_status e = ES_QUEUED")
    case False
    with assms Some show ?thesis by (auto simp: dispatch_prompt_def)
  next
    case q: True
    have i: "e_id e = i" using get_execution_Some [OF Some] by simp
    have act: "is_active e" using q by (simp add: is_active_iff)
    let ?d = "put_execution i (\<lambda>_. start_dispatch env e) d"
    have "next_sequence ?d i = next_sequence d i" by (simp add: next_sequence_def events_of_def)
    then have big: "\<forall>m \<in> set (map v_sequence (events_of d i)). m < v_sequence (dispatch_event env ?d (start_dispatch env e) ty pl)"
      for ty pl using next_sequence_above [of _ d i] by (simp add: dispatch_event_def i)
    show ?thesis
    proof (cases "send_prompt env x prompt")
      case (Inl err)
      have "good_step d (add_event v (put_execution (e_id (fail_dispatch err (start_dispatch env e)))
          (\<lambda>_. fail_dispatch err (start_dispatch env e)) d))"
        if "v_execution_id v = i" "v_external_event_id v = None"
          "\<forall>m \<in> set (map v_sequence (events_of d i)). m < v_sequence v" for v
        by (rule execution_log_good [where ?e0.0 = e]) (use Some i act that in simp_all)
      then show ?thesis using assms Some q Inl big
        by (auto simp: dispatch_prompt_def Let_def put_execution_twice dispatch_event_def i)
    next
      case (Inr m)
      have "good_step d (add_event v (put_execution (e_id (succeed_dispatch env x m (start_dispatch env e)))
          (\<lambda>_. succeed_dispatch env x m (start_dispatch env e)) d))"
        if "v_execution_id v = i" "v_external_event_id v = None"
          "\<forall>m \<in> set (map v_sequence (events_of d i)). m < v_sequence v" for v
        by (rule execution_log_good [where ?e0.0 = e]) (use Some i act that in simp_all)
      then show ?thesis using assms Some q Inr big
        by (auto simp: dispatch_prompt_def Let_def put_execution_twice dispatch_event_def i)
    qed
  qed
qed

lemma put_same_execution:
  assumes "wf_db d" "get_execution d i = Some e"
  shows "put_execution (e_id e) (\<lambda>_. e) d = d"
proof -
  have e: "e \<in> set (executions d)" "distinct (map e_id (executions d))"
    using assms get_execution_Some [OF assms(2)] by (auto simp: wf_db_def)
  then have "(if e_id x = e_id e then e else x) = x" if "x \<in> set (executions d)" for x
    using that by (auto dest: inj_onD simp: distinct_map)
  then show ?thesis by (simp add: put_execution_def map_idI)
qed

lemma recovery_event_good:
  assumes "get_execution d i = Some e"
  shows "good_step d (add_recovery_event e y d)"
  unfolding good_step_def
proof
  assume ok: "system_ok d"
  obtain now a why ety ph where y: "y = (now, a, why, ety, ph)" by (cases y)
  let ?v = "create_recovery_event now a why ety ph e (events_of d (e_id e))"
  have i: "e_id e = i" using get_execution_Some [OF assms] by simp
  have "m \<in> set (map v_sequence evs) \<Longrightarrow> m < v_sequence (create_recovery_event now a why ety ph e evs)" for m evs
  proof -
    assume m: "m \<in> set (map v_sequence evs)"
    then have "m \<le> Max (set (map v_sequence evs))" by (intro Max_ge) simp_all
    with m show ?thesis by (auto simp: create_recovery_event_def simp del: set_map)
  qed
  then have "good_step d (add_event ?v (put_execution (e_id e) (\<lambda>_. e) d))"
    by (intro execution_log_good [where ?e0.0 = e]) (use assms i in \<open>simp_all add: create_recovery_event_def\<close>)
  then show "system_ok (add_recovery_event e y d) \<and> grows d (add_recovery_event e y d)"
    using ok put_same_execution [OF _ assms]
    by (simp add: y add_recovery_event_def good_step_def system_ok_def tasks_ok_def)
qed

lemma handle_error_keeps:
  assumes "handle_error m rnd now x ph e = (r, e')"
  shows "e_id e' = e_id e" "e_task_id e' = e_task_id e" "e_status e' = e_status e"
    "rc_new_status r \<in> {None, Some ES_REVIEW, Some ES_FAILED}"
  using assms by (auto simp: handle_error_def Let_def simple_decision_def split: if_splits)

lemma recover_good:
  assumes e: "get_execution d i = Some e" and h: "handle_error m rnd now x ph e = (r, e')"
    and a: "apply_recovery_decision names now r e' (open_session d) = (res, s')"
  shows "good_step d (committed s')"
proof -
  let ?x = "decided_execution now r e'"
  note k = handle_error_keeps [OF h]
  have i: "e_id e = i" using get_execution_Some [OF e] by simp
  have act: "is_active ?x \<Longrightarrow> is_active e"
    using k(3,4) by (auto simp: decided_status is_active_iff split: if_splits)
  have good: "good_step d (add_event v (put_execution (e_id ?x) (\<lambda>_. ?x) d))"
    if v: "v = applied_event tab now r e' (events_of d i)" for v tab
  proof (rule execution_log_good [where ?e0.0 = e])
    show "\<forall>m \<in> set (map v_sequence (events_of d (e_id ?x))). m < v_sequence v" if "system_ok d"
    proof -
      have "sorted_wrt (<) (map v_sequence (events_of d i))" using that by (simp add: system_ok_def logs_ok_def)
      from sorted_last_max [OF this] show ?thesis by (auto simp: v applied_event_def k i)
    qed
  qed (use e k act i v in \<open>simp_all add: applied_event_def\<close>)
  show ?thesis
  proof (cases "build_action_table names")
    case (Inl y)
    with a show ?thesis by (auto simp: apply_recovery_decision_def)
  next
    case (Inr tab)
    let ?v = "applied_event tab now r e' (events_of d i)"
    have "committed s' = d \<or> insert_event ?v (put_execution (e_id ?x) (\<lambda>_. ?x) d) = Inr (committed s')"
      using a Inr k i by (auto simp: apply_recovery_decision_def split: sum.splits)
    then show ?thesis
    proof
      assume "insert_event ?v (put_execution (e_id ?x) (\<lambda>_. ?x) d) = Inr (committed s')"
      then have "committed s' = add_event ?v (put_execution (e_id ?x) (\<lambda>_. ?x) d)"
        by (auto simp: insert_event_def add_event_def split: if_splits)
      with good [OF refl] show ?thesis by simp
    qed simp
  qed
qed

section \<open>Intake\<close>

lemma insert_task_good: "insert_task t d = Inr d' \<Longrightarrow> good_step d d'"
  using insert_task_ok [of d t d'] insert_task_Inr [of t d d']
  by (auto simp: good_step_def system_ok_def logs_ok_def events_of_def grows_def ended_stay_same)

lemma insert_requirement_good:
  assumes "insert_requirement ps r d = Inr d'"
  shows "good_step d d'"
proof -
  have d': "d' = d\<lparr>requirements := requirements d @ [r]\<rparr>"
    using assms by (auto simp: insert_requirement_def split: if_splits)
  have "tasks_ok d \<Longrightarrow> tasks_ok d'"
    by (auto simp: d' tasks_ok_def wf_db_def unique_active_def active_for_def events_unique_def)
  then show ?thesis
    by (auto simp: d' good_step_def system_ok_def logs_ok_def events_of_def grows_def ended_stay_same)
qed

lemma fire_good:
  assumes "fire T now (s, g) = (ok, s', g')" and "\<And>x. good_step x (tr_others T x)"
  shows "good_step (committed s) (committed s')"
proof -
  obtain rs where "run_preparation_cycle (tr_git T) (tr_config T) ''.'' (tr_worker T) 10 (tr_others T)
      (tr_lock T) (tr_release T) now (tr_batch_id T) (s, g) = (rs, s', g')"
    using assms(1) by (auto simp: fire_def trigger_orchestrator_def split: prod.splits)
  from tasks_kept_good [OF cycle_kept [OF this]] assms(2) show ?thesis by (blast intro: good_step_trans)
qed

lemma endpoint_cases:
  assumes "create_task_endpoint T I p sg = (ans, sg')"
  shows "sg' = sg \<or> (\<exists>a r. create_task T I a sg = (r, sg')) \<or>
    (\<exists>title desc a r. create_task_from_requirement T I title desc a sg = (r, sg'))"
proof (cases "validate_task_type (tp_type p)")
  case (Inl x)
  with assms show ?thesis by (simp add: create_task_endpoint_def)
next
  case (Inr ty)
  show ?thesis
  proof (cases "tp_type p = ''requirement''")
    case True
    obtain r q where "create_task_from_requirement T I (case tp_title p of None \<Rightarrow> [] | Some t \<Rightarrow> t) (tp_prompt p)
        (payload_args p) sg = (r, q)" by (metis surj_pair)
    moreover from this have "q = sg'"
      using assms Inr True by (auto simp: create_task_endpoint_def split: sum.splits prod.splits)
    ultimately show ?thesis by blast
  next
    case False
    obtain r q where "create_task T I (payload_args p) sg = (r, q)" by (metis surj_pair)
    moreover from this have "q = sg'"
      using assms Inr False by (auto simp: create_task_endpoint_def split: sum.splits prod.splits)
    ultimately show ?thesis by blast
  qed
qed

text \<open>A request commits nothing, or one backlog task before the preparation cycle runs.\<close>

definition commits_task :: "db \<Rightarrow> session \<Rightarrow> bool" where
  "commits_task d s1 = (good_step d (committed s1) \<and> committed s1 = working s1 \<and>
     executions (committed s1) = executions d \<and>
     (\<exists>t. tasks (committed s1) = tasks d @ [t] \<and> t_status t = TS_BACKLOG))"

lemma create_task_commits:
  assumes "create_task T I a (open_session d, g) = (r, s', g')"
  shows "committed s' = d \<or> (\<exists>s1 ok. commits_task d s1 \<and> fire T (id_now I) (s1, g) = (ok, s', g'))"
  using create_task_cases [OF assms]
proof (elim disjE exE conjE)
  fix t s1 ok
  assume t: "t = new_task I a (ta_type a) (task_number_for I (working (open_session d)))"
    and i: "insert_task t (working (open_session d)) = Inr (working s1)" "committed s1 = working s1"
    and f: "fire T (id_now I) (s1, g) = (ok, s', g')"
  have "commits_task d s1" unfolding commits_task_def
    using insert_task_good [OF i(1)] insert_task_Inr [OF i(1)] i(2) by (auto simp: t new_task_def)
  with f show ?thesis by blast
qed simp

lemma create_requirement_commits:
  assumes "create_task_from_requirement T I title desc a (open_session d, g) = (r, s', g')"
  shows "committed s' = d \<or> (\<exists>s1 ok. commits_task d s1 \<and> fire T (id_now I) (s1, g) = (ok, s', g'))"
  using create_from_requirement_cases [OF assms]
proof (elim disjE exE conjE)
  fix rq t s1 d1 ok
  assume i: "insert_requirement [] rq (working (open_session d)) = Inr d1"
      "insert_task t d1 = Inr (working s1)" "committed s1 = working s1"
    and t: "t = new_task I (a\<lparr>ta_requirement_id := Some (r_id rq)\<rparr>) ''planning'' (task_number_for I d1)"
    and f: "fire T (id_now I) (s1, g) = (ok, s', g')"
  have d1: "d1 = d\<lparr>requirements := requirements d @ [rq]\<rparr>"
    using i(1) by (auto simp: insert_requirement_def split: if_splits)
  have "good_step d (working s1)"
    using insert_requirement_good [OF i(1)] insert_task_good [OF i(2)] by (metis good_step_trans session_simps(2))
  then have "commits_task d s1" unfolding commits_task_def
    using insert_task_Inr [OF i(2)] i(3) by (auto simp: t new_task_def d1)
  with f show ?thesis by blast
qed simp

lemma intake_commits:
  assumes "intake T I p (open_session d, g) = (ans, s', g')"
  shows "committed s' = d \<or> (\<exists>s1 ok. commits_task d s1 \<and> fire T (id_now I) (s1, g) = (ok, s', g'))"
proof (cases "valid_payload p")
  case False
  with assms show ?thesis by (auto simp: intake_def)
next
  case True
  with assms have "create_task_endpoint T I p (open_session d, g) = (ans, s', g')" by (simp add: intake_def)
  from endpoint_cases [OF this] show ?thesis
    by (elim disjE exE) (simp, rule create_task_commits, assumption, rule create_requirement_commits, assumption)
qed

lemma intake_good:
  assumes "intake T I p (open_session d, g) = (ans, s', g')" and o: "\<And>x. good_step x (tr_others T x)"
  shows "good_step d (committed s')"
  using intake_commits [OF assms(1)]
proof (elim disjE exE conjE)
  fix s1 ok
  assume c: "commits_task d s1" and f: "fire T (id_now I) (s1, g) = (ok, s', g')"
  from c have "good_step d (committed s1)" unfolding commits_task_def by blast
  from good_step_trans [OF this fire_good [OF f o]] show ?thesis .
qed simp

section \<open>Runs\<close>

inductive system_run :: "'g git_env \<Rightarrow> git_config \<Rightarrow> db \<Rightarrow> db \<Rightarrow> bool" for E cfg where
  start: "system_run E cfg d d"
| cycle: "system_run E cfg d d1 \<Longrightarrow> (\<And>x. system_run E cfg x (others x)) \<Longrightarrow>
    run_preparation_cycle E cfg base w m others lo ro now b (open_session d1, g) = (rs, s', g') \<Longrightarrow>
    system_run E cfg d (close_session s')"
| intake: "system_run E cfg d d1 \<Longrightarrow> tr_git T = E \<Longrightarrow> tr_config T = cfg \<Longrightarrow>
    (\<And>x. system_run E cfg x (tr_others T x)) \<Longrightarrow>
    intake T I p (open_session d1, g) = (ans, s', g') \<Longrightarrow> system_run E cfg d (close_session s')"
| stale_tasks: "system_run E cfg d d1 \<Longrightarrow>
    run_recovery_cycle tm m now worker (open_session d1) = (rows, s') \<Longrightarrow> system_run E cfg d (close_session s')"
| claim: "system_run E cfg d d1 \<Longrightarrow>
    claim_task pk corr isofmt now i runner (open_session d1) = (Inr e, s') \<Longrightarrow>
    system_run E cfg d (close_session (commit s'))"
| dispatch: "system_run E cfg d d1 \<Longrightarrow>
    dispatch_prompt env DbOk i x prompt (open_session d1) = (sent, s') \<Longrightarrow>
    system_run E cfg d (close_session (commit s'))"
| stale_executions: "system_run E cfg d d1 \<Longrightarrow>
    process_stale_executions recovery_event_types th rnd now (open_session d1) = (n, s') \<Longrightarrow>
    system_run E cfg d (close_session s')"
| recover: "system_run E cfg d d1 \<Longrightarrow> get_execution d1 i = Some e \<Longrightarrow>
    handle_error mx rnd now x ph e = (dec, e') \<Longrightarrow>
    apply_recovery_decision names now dec e' (open_session d1) = (res, s') \<Longrightarrow>
    system_run E cfg d (close_session s')"
| recovery_event: "system_run E cfg d d1 \<Longrightarrow> get_execution d1 i = Some e \<Longrightarrow>
    system_run E cfg d (add_recovery_event e y d1)"

lemma run_good: "system_run E cfg d d' \<Longrightarrow> good_step d d'"
proof (induction rule: system_run.induct)
  case start
  then show ?case by simp
next
  case (cycle d d1 others base w m lo ro now b g rs s' g')
  have "good_step d1 (others d1)" by (rule cycle.IH(2))
  with tasks_kept_good [OF cycle_kept [OF cycle.hyps(3)]] cycle.IH(1) show ?case
    unfolding session_simps by (blast intro: good_step_trans)
next
  case (intake d d1 T I p g ans s' g')
  show ?case unfolding session_simps
    by (rule good_step_trans [OF intake.IH(1)], rule intake_good [OF intake.hyps(5)], rule intake.IH(2))
next
  case (stale_tasks d d1 tm m now worker rows s')
  show ?case unfolding session_simps
    by (rule good_step_trans [OF stale_tasks.IH tasks_kept_good [OF recovery_cycle_kept [OF stale_tasks.hyps(2)]]])
next
  case (claim d d1 pk corr isofmt now i runner e s')
  show ?case unfolding session_simps
    by (rule good_step_trans [OF claim.IH claim_good [OF claim.hyps(2)]])
next
  case (dispatch d d1 env i x prompt sent s')
  show ?case unfolding session_simps
    by (rule good_step_trans [OF dispatch.IH dispatch_good [OF dispatch.hyps(2)]])
next
  case (stale_executions d d1 th rnd now n s')
  have "committed s' = d1"
    using stale_processing_idle [where th = th and rnd = rnd and now = now and s = "open_session d1"] stale_executions.hyps(2) by simp
  with stale_executions.IH show ?case by simp
next
  case (recover d d1 i e mx rnd now x ph dec e' names res s')
  show ?case unfolding session_simps
    by (rule good_step_trans [OF recover.IH recover_good [OF recover.hyps(2-4)]])
next
  case (recovery_event d d1 i e y)
  show ?case by (rule good_step_trans [OF recovery_event.IH recovery_event_good [OF recovery_event.hyps(2)]])
qed

text \<open>
  A run of the concrete system: the cycle prepares the two planning tasks, and a runner
  claims the first one.
\<close>

definition prepared_run :: db where
  "prepared_run = close_session (fst (snd (run_preparation_cycle sim_env sim_cfg ''/r'' ''w'' 10 (\<lambda>d. d)
     DbOk DbOk 9 ''b'' (open_session planning_db, ([], [], [])))))"

definition claimed_run :: db where
  "claimed_run = close_session (commit (snd (claim_task (Some 7) ''c'' (\<lambda>n. []) 20 1 ''r'' (open_session prepared_run))))"

lemma planning_db_ok: "system_ok planning_db"
  using planning_db_wf
  by (simp add: system_ok_def tasks_ok_def logs_ok_def events_of_def keys_of_tasks_def planning_db_def
      sample_db_def sample_task_def ALLOWED_TASK_TYPES_def)

lemma prepared_run_reached: "system_run sim_env sim_cfg planning_db prepared_run"
proof -
  obtain rs s' g' where r: "run_preparation_cycle sim_env sim_cfg ''/r'' ''w'' 10 (\<lambda>d. d) DbOk DbOk 9 ''b''
      (open_session planning_db, ([], [], [])) = (rs, s', g')" by (metis prod_cases3)
  show ?thesis unfolding prepared_run_def r fst_conv snd_conv
    by (rule cycle [OF start start r])
qed

lemma claimed_run_reached: "system_run sim_env sim_cfg planning_db claimed_run"
proof -
  let ?c = "claim_task (Some 7) ''c'' (\<lambda>n. []) 20 1 ''r'' (open_session prepared_run)"
  have "\<not> isl (fst ?c)" by code_simp
  then obtain e where "fst ?c = Inr e" by (cases "fst ?c") simp_all
  then have "?c = (Inr e, snd ?c)" by (metis prod.collapse)
  then show ?thesis unfolding claimed_run_def by (rule claim [OF prepared_run_reached])
qed

section \<open>Properties\<close>

text \<open>
  C1: The system is safe. Whatever intakes, preparation cycles, recoveries, claims and
  dispatches run, in whatever order and however git, the client and the statements end:
  from a consistent database only consistent ones are reached. No task ever has two active
  executions, task numbers and idempotency keys stay unique, every execution belongs to a
  task and every event to an execution, and the event numbers of each execution increase.
\<close>

theorem lifecycle_safe:
  assumes "system_run E cfg d d'" and "system_ok d"
  shows "system_ok d' \<and> (\<forall>i. length (active_for d' i) \<le> 1) \<and>
    distinct (map t_task_number (tasks d')) \<and> distinct (keys_of_tasks (tasks d')) \<and>
    e_task_id ` set (executions d') \<subseteq> t_id ` set (tasks d') \<and>
    v_execution_id ` set (events d') \<subseteq> e_id ` set (executions d') \<and>
    (\<forall>i. sorted_wrt (<) (map v_sequence (events_of d' i)))"
proof -
  have ok: "system_ok d'" using run_good [OF assms(1)] assms(2) by (simp add: good_step_def)
  then have t: "tasks_ok d'" "logs_ok d'" by (simp_all add: system_ok_def)
  then have "wf_db d'" by (simp add: tasks_ok_def)
  with ok t show ?thesis
    by (auto simp: tasks_ok_def logs_ok_def wf_db_def unique_active_def simp del: One_nat_def)
qed

theorem lifecycle_safe_witness:
  "system_run sim_env sim_cfg planning_db claimed_run \<and> system_ok claimed_run \<and>
   map e_status (active_for claimed_run 1) = [ES_QUEUED] \<and> length (events claimed_run) = 1"
proof -
  have "map e_status (active_for claimed_run 1) = [ES_QUEUED]" "length (events claimed_run) = 1" by code_simp+
  with lifecycle_safe [OF claimed_run_reached planning_db_ok] claimed_run_reached show ?thesis by blast
qed

text \<open>
  C2: History is only extended. In every run from a consistent database the tasks,
  requirements and executions that exist keep their identity and their order, no event is
  changed or removed, and an execution that has ended never becomes active again.
\<close>

theorem history_append_only:
  assumes "system_run E cfg d d'" and "system_ok d"
  shows "prefix (map task_identity (tasks d)) (map task_identity (tasks d')) \<and>
    prefix (requirements d) (requirements d') \<and>
    prefix (map execution_identity (executions d)) (map execution_identity (executions d')) \<and>
    prefix (events d) (events d') \<and>
    (\<forall>i e. get_execution d i = Some e \<and> \<not> is_active e \<longrightarrow>
       (\<exists>e'. get_execution d' i = Some e' \<and> \<not> is_active e'))"
  using run_good [OF assms(1)] assms(2) by (simp add: good_step_def grows_def ended_stay_def)

theorem history_append_only_witness:
  "map task_identity (tasks claimed_run) = map task_identity (tasks planning_db) \<and>
   prefix (events planning_db) (events claimed_run)"
proof -
  have "length (tasks claimed_run) = length (tasks planning_db)" by code_simp
  then have l: "length (map task_identity (tasks claimed_run)) = length (map task_identity (tasks planning_db))" by simp
  note h = history_append_only [OF claimed_run_reached planning_db_ok]
  then obtain us where "map task_identity (tasks claimed_run) = map task_identity (tasks planning_db) @ us"
    by (elim conjE prefixE)
  with l h show ?thesis by simp
qed

text \<open>
  C9: A claimed task can be taken back under its runner. A claim keeps the time at which the
  orchestrator queued the task, so a recovery cycle may find the claimed task stale at once,
  even at the moment of the claim: it puts it back to the backlog or fails it, and the
  execution that the claim created stays active.
\<close>

theorem claimed_task_recovered_while_active:
  assumes wf: "wf_db d" and c: "claim_task pk corr isofmt now i runner (open_session d) = (Inr e, s1)"
    and t: "get_task d i = Some t" "t_queued_at t = Some q" "q \<le> later - microseconds (tm * 60)"
    and r: "run_recovery_cycle tm m later None (open_session (close_session (commit s1))) = (rs, s2)"
  shows "status_in (close_session s2) i \<in> {Some TS_BACKLOG, Some TS_FAILED} \<and>
    active_for (close_session s2) i = [e]"
proof -
  obtain k where k: "k \<notin> e_id ` set (executions d)" "status_in d i = Some TS_PREPARED" "active_for d i = []"
    "e = new_execution k corr now i runner" "working s1 = claimed_db isofmt corr now i runner k d"
    using claim_task_Inr [OF _ c] wf by auto
  let ?d = "working s1"
  note p = claimed_db_props [OF wf k(2,3,1), of isofmt corr now runner, folded k(5)]
  have "get_task ?d i = get_task (claim_update now i d) i" by (simp add: k(5) claimed_db_def get_task_def)
  also have "\<dots> = map_option (\<lambda>t. if t_id t = i \<and> t_status t = TS_PREPARED
      then t\<lparr>t_status := TS_QUEUED, t_updated_at := now\<rparr> else t) (get_task d i)"
    unfolding claim_update_def by (rule get_task_update) simp
  finally have g: "get_task ?d i = Some (t\<lparr>t_status := TS_QUEUED, t_updated_at := now\<rparr>)"
    using t(1) k(2) get_task_Some [OF t(1)] by (simp add: status_in_def)
  have r': "run_recovery_cycle tm m later None (open_session ?d) = (rs, s2)" using r by simp
  have wf': "wf_db (working (open_session ?d))" using p(1) by simp
  from run_recovery_cycle_rows(1) [OF wf' r', of i] g t
  have "get_task (committed s2) i = Some (recovered later m (t\<lparr>t_status := TS_QUEUED, t_updated_at := now\<rparr>))"
    by (simp add: is_stale_queued_def)
  moreover have "active_for (committed s2) i = active_for ?d i"
    using recovery_cycle_kept [OF r'] by (simp add: tasks_kept_def active_for_def)
  ultimately show ?thesis using p(3) recover_task_status
    by (auto simp: status_in_def recovered_def k(4))
qed

theorem claimed_task_recovered_while_active_witness:
  "\<exists>s2. system_run sim_env sim_cfg planning_db (close_session s2) \<and>
     status_in (close_session s2) 1 = Some TS_BACKLOG \<and> active_for (close_session s2) 1 \<noteq> []"
proof -
  let ?c = "claim_task (Some 7) ''c'' (\<lambda>n. []) 20 1 ''r'' (open_session prepared_run)"
  have "\<not> isl (fst ?c)" by code_simp
  then obtain e where "fst ?c = Inr e" by (cases "fst ?c") simp_all
  then have c: "?c = (Inr e, snd ?c)" by (metis prod.collapse)
  obtain t where t: "get_task prepared_run 1 = Some t" "t_queued_at t = Some 9"
  proof -
    have "map_option t_queued_at (get_task prepared_run 1) = Some (Some 9)" by code_simp
    with that show ?thesis by auto
  qed
  have wf: "wf_db prepared_run"
    using run_good [OF prepared_run_reached] planning_db_ok by (simp add: good_step_def system_ok_def tasks_ok_def)
  let ?r = "run_recovery_cycle 30 3 1800000009 None (open_session claimed_run)"
  obtain rs s2 where r: "?r = (rs, s2)" by (metis surj_pair)
  then have r': "run_recovery_cycle 30 3 1800000009 None (open_session (close_session (commit (snd ?c)))) = (rs, s2)"
    by (simp only: claimed_run_def)
  have q: "(9::int) \<le> 1800000009 - microseconds (30 * 60)" by (simp add: microseconds_def)
  note both = claimed_task_recovered_while_active [OF wf c t q r']
  have "status_in (close_session (snd ?r)) 1 = Some TS_BACKLOG" by code_simp
  then have "status_in (close_session s2) 1 = Some TS_BACKLOG" by (simp only: r snd_conv)
  moreover have "system_run sim_env sim_cfg planning_db (close_session s2)"
    by (rule stale_tasks [OF claimed_run_reached r])
  ultimately show ?thesis using both by auto
qed

end
