(* ===== verification/State_Machine.thy ===== *)
theory State_Machine
  imports System_Run
begin

text \<open>
  The status lifecycle that the system implements, as an abstract machine on the statuses of
  tasks and executions alone, and the refinement: what a run of the concrete system does to
  the statuses is a path of the machine.
\<close>

section \<open>The machine\<close>

type_synonym statuses = "(uuid \<Rightarrow> task_status option) \<times> (uuid \<Rightarrow> execution_status option)"

text \<open>A task goes from the backlog into the queue and from there on to prepared, back, or to
  failed. An execution is dispatched, gets in progress, or is put to review or failed.\<close>

definition task_moves :: "(task_status \<times> task_status) set" where
  "task_moves = {(TS_BACKLOG, TS_QUEUED), (TS_QUEUED, TS_PREPARED), (TS_QUEUED, TS_BACKLOG), (TS_QUEUED, TS_FAILED)}"

definition execution_moves :: "(execution_status \<times> execution_status) set" where
  "execution_moves = {(ES_QUEUED, ES_DISPATCHING), (ES_DISPATCHING, ES_IN_PROGRESS)} \<union> UNIV \<times> {ES_REVIEW, ES_FAILED}"

text \<open>A prepared task leaves this state in one way: a claim queues it again together with a
  new execution.\<close>

inductive machine_step :: "statuses \<Rightarrow> statuses \<Rightarrow> bool" where
  created: "T i = None \<Longrightarrow> machine_step (T, X) (T(i \<mapsto> TS_BACKLOG), X)"
| moved: "T i = Some a \<Longrightarrow> (a, b) \<in> task_moves \<Longrightarrow> machine_step (T, X) (T(i \<mapsto> b), X)"
| claimed: "T i = Some TS_PREPARED \<Longrightarrow> X k = None \<Longrightarrow>
    machine_step (T, X) (T(i \<mapsto> TS_QUEUED), X(k \<mapsto> ES_QUEUED))"
| executed: "X k = Some a \<Longrightarrow> (a, b) \<in> execution_moves \<Longrightarrow> machine_step (T, X) (T, X(k \<mapsto> b))"

abbreviation machine_path :: "statuses \<Rightarrow> statuses \<Rightarrow> bool" where
  "machine_path \<equiv> machine_step\<^sup>*\<^sup>*"

definition statuses_of :: "db \<Rightarrow> statuses" where
  "statuses_of d = (status_in d, \<lambda>k. map_option e_status (get_execution d k))"

definition follows :: "db \<Rightarrow> db \<Rightarrow> bool" where
  "follows d d' = machine_path (statuses_of d) (statuses_of d')"

lemma follows_refl [simp]: "follows d d"
  by (simp add: follows_def)

lemma follows_trans: "follows a b \<Longrightarrow> follows b c \<Longrightarrow> follows a c"
  by (simp add: follows_def)

lemma follows_same: "statuses_of d' = statuses_of d \<Longrightarrow> follows d d'"
  by (simp add: follows_def)

section \<open>Paths\<close>

lemma path_one: "machine_step s s' \<Longrightarrow> machine_path s s'"
  by (rule r_into_rtranclp)

lemma path_task:
  assumes "(a, b) \<in> task_moves\<^sup>*" "T i = Some a"
  shows "machine_path (T, X) (T(i \<mapsto> b), X)"
  using assms(1)
proof (induction rule: rtrancl_induct)
  case base
  have "T(i \<mapsto> a) = T" using assms(2) by (rule map_upd_triv)
  then show ?case by simp
next
  case (step b c)
  have "machine_step (T(i \<mapsto> b), X) (T(i \<mapsto> b, i \<mapsto> c), X)" by (rule moved [OF _ step.hyps(2)]) simp
  from rtranclp.rtrancl_into_rtrancl [OF step.IH this] show ?case by (simp only: fun_upd_upd)
qed

text \<open>Many tasks at once: a move of each one in turn.\<close>

lemma path_tasks:
  assumes "\<And>i. i \<notin> set js \<Longrightarrow> T' i = T i"
    and "\<And>i. i \<in> set js \<Longrightarrow> T' i = T i \<or> (\<exists>a b. T i = Some a \<and> T' i = Some b \<and> (a, b) \<in> task_moves\<^sup>*)"
  shows "machine_path (T, X) (T', X)"
  using assms
proof (induction js arbitrary: T)
  case Nil
  then have "T' = T" by auto
  then show ?case by simp
next
  case (Cons i js)
  have rest: "machine_path (T(i := T' i), X) (T', X)"
    by (rule Cons.IH) (use Cons.prems in auto)
  from Cons.prems(2) [of i] show ?case
  proof
    assume "T' i = T i"
    then have "T(i := T' i) = T" by simp
    with rest show ?thesis by simp
  next
    assume "\<exists>a b. T i = Some a \<and> T' i = Some b \<and> (a, b) \<in> task_moves\<^sup>*"
    then obtain a b where ab: "T i = Some a" "T' i = Some b" "(a, b) \<in> task_moves\<^sup>*" by blast
    from path_task [where X = X and T = T and i = i, OF ab(3,1)] rest ab(2) show ?thesis by simp
  qed simp
qed

lemma status_in_None: "status_in d i = None \<longleftrightarrow> i \<notin> t_id ` set (tasks d)"
  by (simp add: status_in_def get_task_None)

text \<open>A step that keeps all rows and the executions and moves the statuses of some tasks.\<close>

lemma follows_tasks:
  assumes kept: "tasks_kept d d'"
    and moves: "\<And>i a b. status_in d i = Some a \<Longrightarrow> status_in d' i = Some b \<Longrightarrow> a \<noteq> b \<Longrightarrow> (a, b) \<in> task_moves\<^sup>*"
  shows "follows d d'"
proof -
  have "map task_identity (tasks d') = map task_identity (tasks d)" using kept by (simp add: tasks_kept_def)
  then have ids: "map t_id (tasks d') = map t_id (tasks d)" by (rule identity_columns(1))
  then have s: "t_id ` set (tasks d') = t_id ` set (tasks d)" by (metis set_map)
  have x: "snd (statuses_of d') = snd (statuses_of d)" using kept by (simp add: statuses_of_def get_execution_def tasks_kept_def)
  have "machine_path (status_in d, snd (statuses_of d)) (status_in d', snd (statuses_of d))"
  proof (rule path_tasks [where js = "map t_id (tasks d)"])
    fix i
    assume "i \<notin> set (map t_id (tasks d))"
    then have "status_in d i = None" "status_in d' i = None" by (simp_all add: status_in_None s)
    then show "status_in d' i = status_in d i" by simp
  next
    fix i
    assume "i \<in> set (map t_id (tasks d))"
    then have "status_in d i \<noteq> None" "status_in d' i \<noteq> None" by (simp_all add: status_in_None s)
    then obtain a b where "status_in d i = Some a" "status_in d' i = Some b" by auto
    then show "status_in d' i = status_in d i \<or>
        (\<exists>a b. status_in d i = Some a \<and> status_in d' i = Some b \<and> (a, b) \<in> task_moves\<^sup>*)"
      using moves by auto
  qed
  with x show ?thesis by (simp add: follows_def statuses_of_def)
qed

lemma from_backlog: "(TS_BACKLOG, b) \<in> task_moves\<^sup>*"
proof -
  have q: "(TS_BACKLOG, TS_QUEUED) \<in> task_moves\<^sup>*" by (rule r_into_rtrancl) (simp add: task_moves_def)
  then show ?thesis
    by (cases b) (auto intro: rtrancl_into_rtrancl simp: task_moves_def)
qed

section \<open>Each operation\<close>

text \<open>What a lock names as locked was in the backlog, whether the lock succeeded or not.\<close>

lemma locked_from_backlog:
  assumes l: "lock_tasks w out now plan (open_session d) = (lr, s1)" and wf: "wf_db d"
    and i: "i \<in> set (lr_locked_task_ids lr)" and st: "status_in d i = Some a"
  shows "a = TS_BACKLOG"
proof (cases "b_task_ids plan = []")
  case True
  with l i show ?thesis by (auto simp: lock_tasks_def Let_def)
next
  case ne: False
  have w: "wf_db (working (open_session d))" using wf by simp
  show ?thesis
  proof (cases "lr_success lr")
    case True
    from lock_tasks_won(3,5) [OF l True w ne] i st show ?thesis by simp
  next
    case False
    then have "lr_locked_task_ids lr = [] \<or> lr_locked_task_ids lr = spared_ids d (b_task_ids plan)"
      using l ne by (auto simp: lock_tasks_def Let_def split: if_splits db_outcome.splits)
    then show ?thesis using i st by (auto simp: spared_ids_def status_in_def split: option.splits)
  qed
qed

lemma unlocked_kept:
  assumes l: "lock_tasks w out now plan (open_session d) = (lr, s1)" and wf: "wf_db d"
    and dist: "distinct (b_task_ids plan)" and i: "i \<notin> set (lr_locked_task_ids lr)"
  shows "get_task (working s1) i = get_task d i"
proof (cases "b_task_ids plan = []")
  case True
  with l show ?thesis by (auto simp: lock_tasks_def Let_def)
next
  case ne: False
  have w: "wf_db (working (open_session d))" using wf by simp
  show ?thesis
  proof (cases "lr_success lr")
    case True
    from lock_tasks_won(5) [OF l True w ne] i lock_tasks_effect [OF l wf dist] show ?thesis by simp
  next
    case False
    with lock_tasks_lost(1) [OF l] show ?thesis by simp
  qed
qed

lemma cycle_from_backlog:
  assumes wf: "wf_db d" "wf_db (others d)"
    and run: "run_preparation_cycle E cfg base w m others lo ro now b (open_session d, g) = (rs, s', g')"
    and st: "status_in (others d) i = Some a" "status_in (committed s') i \<noteq> Some a"
  shows "a = TS_BACKLOG"
proof (cases "find_candidates m None [] d")
  case (Inl e)
  with run st show ?thesis by (auto simp: run_preparation_cycle_def)
next
  case (Inr cs)
  let ?plan = "create_batch_plan b m (classify_batch (map task_data cs))"
  obtain lr s1 where l: "lock_tasks w lo now ?plan (open_session (others d)) = (lr, s1)"
    by (cases "lock_tasks w lo now ?plan (open_session (others d))")
  have ne: "cs \<noteq> []" using run st Inr by (auto simp: run_preparation_cycle_def)
  have dc: "distinct (map t_id cs)" by (rule find_candidates_distinct [OF wf(1) Inr])
  note dist = plan_ids(1) [OF dc find_candidates_Inr(2) [OF Inr], of b]
  have f: "fold (prepare_one E cfg base ro now b) (lr_locked_task_ids lr) (conflict_results lr (working s1), s1, g) = (rs, s', g')"
    using run Inr ne l by (simp add: run_preparation_cycle_def Let_def)
  have le: "committed s1 = working s1" "distinct (lr_locked_task_ids lr)"
    using lock_tasks_effect [OF l wf(2) dist] by simp_all
  have "i \<in> set (lr_locked_task_ids lr)"
  proof (rule ccontr)
    assume n: "i \<notin> set (lr_locked_task_ids lr)"
    then have "get_task (committed s') i = get_task (others d) i"
      using fold_prepare_spec [OF f le] unlocked_kept [OF l wf(2) dist n] by simp
    with st show False by (simp add: status_in_def)
  qed
  from locked_from_backlog [OF l wf(2) this st(1)] show ?thesis .
qed

lemma cycle_follows:
  assumes "wf_db d" "wf_db (others d)"
    and run: "run_preparation_cycle E cfg base w m others lo ro now b (open_session d, g) = (rs, s', g')"
  shows "follows (others d) (committed s')"
proof (rule follows_tasks)
  show "tasks_kept (others d) (committed s')" using cycle_kept [OF run] by simp
  show "(a, b') \<in> task_moves\<^sup>*" if "status_in (others d) i = Some a" "status_in (committed s') i = Some b'" "a \<noteq> b'" for i a b'
    using cycle_from_backlog [OF assms that(1)] that from_backlog by simp
qed

lemma recovery_cycle_follows:
  assumes "wf_db d" and run: "run_recovery_cycle tm m now w (open_session d) = (rs, s')"
  shows "follows d (committed s')"
proof (rule follows_tasks)
  show "tasks_kept d (committed s')" by (rule recovery_cycle_kept [OF run])
  show "(a, b) \<in> task_moves\<^sup>*" if ab: "status_in d i = Some a" "status_in (committed s') i = Some b" "a \<noteq> b" for i a b
  proof -
    obtain t where t: "get_task d i = Some t" "t_status t = a" using ab(1) by (auto simp: status_in_def)
    have g: "get_task (committed s') i = Some (if is_stale_queued now tm w t then recovered now m t else t)"
      using run_recovery_cycle_rows(1) [OF _ run, of i] assms(1) t(1) by simp
    then have "is_stale_queued now tm w t" "b = t_status (recovered now m t)"
      using ab t by (auto simp: status_in_def split: if_splits)
    then have "a = TS_QUEUED" "b \<in> {TS_FAILED, TS_BACKLOG}"
      using t(2) recover_task_status by (auto simp: is_stale_queued_def recovered_def)
    then show ?thesis by (intro r_into_rtrancl) (auto simp: task_moves_def)
  qed
qed

lemma fire_follows:
  assumes "fire T now (s, g) = (ok, s', g')" and s: "s = open_session d" and wf: "wf_db d" "wf_db (tr_others T d)"
  shows "follows (tr_others T d) (committed s')"
proof -
  obtain rs where "run_preparation_cycle (tr_git T) (tr_config T) ''.'' (tr_worker T) 10 (tr_others T)
      (tr_lock T) (tr_release T) now (tr_batch_id T) (open_session d, g) = (rs, s', g')"
    using assms(1) s by (auto simp: fire_def trigger_orchestrator_def split: prod.splits)
  from cycle_follows [OF wf this] show ?thesis .
qed

lemma append_task_follows:
  assumes "tasks d' = tasks d @ [t]" "t_status t = TS_BACKLOG" "executions d' = executions d"
  shows "follows d d'"
proof (cases "status_in d (t_id t)")
  case None
  have "find P (xs @ [t]) = (case find P xs of Some x \<Rightarrow> Some x | None \<Rightarrow> if P t then Some t else None)"
    for P :: "task \<Rightarrow> bool" and xs by (induction xs) auto
  then have "status_in d' = (status_in d)(t_id t \<mapsto> TS_BACKLOG)"
    using None assms(1,2) by (auto simp: status_in_def get_task_def fun_eq_iff split: option.splits)
  moreover have "snd (statuses_of d') = snd (statuses_of d)" by (simp add: statuses_of_def get_execution_def assms(3))
  ultimately show ?thesis
    using path_one [OF created [where T = "status_in d" and i = "t_id t", OF None]]
    by (simp add: follows_def statuses_of_def)
next
  case (Some a)
  have "find P (xs @ [t]) = (case find P xs of Some x \<Rightarrow> Some x | None \<Rightarrow> if P t then Some t else None)"
    for P :: "task \<Rightarrow> bool" and xs by (induction xs) auto
  then have "status_in d' = status_in d"
    using Some assms(1) by (auto simp: status_in_def get_task_def fun_eq_iff split: option.splits)
  then show ?thesis by (intro follows_same) (simp add: statuses_of_def get_execution_def assms(3))
qed

lemma good_wf: "good_step d d' \<Longrightarrow> system_ok d \<Longrightarrow> system_ok d' \<and> wf_db d'"
  by (simp add: good_step_def system_ok_def tasks_ok_def)

lemma intake_follows:
  assumes i: "intake T I p (open_session d, g) = (ans, s', g')" and ok: "system_ok d"
    and o: "\<And>x. good_step x (tr_others T x)" and o': "\<And>x. system_ok x \<Longrightarrow> follows x (tr_others T x)"
  shows "follows d (committed s')"
  using intake_commits [OF i]
proof (elim disjE exE conjE)
  fix s1 ok'
  assume c: "commits_task d s1" and f: "fire T (id_now I) (s1, g) = (ok', s', g')"
  let ?d1 = "committed s1"
  have "follows d ?d1" using c append_task_follows by (auto simp: commits_task_def)
  moreover have "good_step d ?d1" using c unfolding commits_task_def by blast
  then have ok1: "system_ok ?d1" "wf_db ?d1" using good_wf [OF _ ok] by blast+
  then have "follows ?d1 (tr_others T ?d1)" by (intro o')
  moreover have "s1 = open_session ?d1" using c by (simp add: commits_task_def open_session_def)
  with good_wf [OF o ok1(1)] have "follows (tr_others T ?d1) (committed s')" by (intro fire_follows [OF f _ ok1(2)]) simp_all
  ultimately show ?thesis by (blast intro: follows_trans)
qed simp

lemma claim_follows:
  assumes wf: "wf_db d" and c: "claim_task pk corr isofmt now i runner (open_session d) = (Inr e, s')"
  shows "follows d (working s')"
proof -
  obtain k where k: "k \<notin> e_id ` set (executions d)" "status_in d i = Some TS_PREPARED" "active_for d i = []"
    "working s' = claimed_db isofmt corr now i runner k d"
    using claim_task_Inr [OF _ c] wf by auto
  have T: "status_in (working s') = (status_in d)(i \<mapsto> TS_QUEUED)"
    using claimed_db_props(2) [OF wf k(2,3,1)] by (auto simp: k(4))
  have none: "get_execution d k = None" using k(1) by (auto simp: get_execution_def find_None_iff)
  have "find P (xs @ [y]) = (case find P xs of Some x \<Rightarrow> Some x | None \<Rightarrow> if P y then Some y else None)"
    for P :: "task_execution \<Rightarrow> bool" and xs y by (induction xs) auto
  then have X: "(\<lambda>j. map_option e_status (get_execution (working s') j)) =
      (\<lambda>j. map_option e_status (get_execution d j))(k \<mapsto> ES_QUEUED)"
    using none by (auto simp: get_execution_def k(4) claimed_db_def fun_eq_iff split: option.splits)
  show ?thesis unfolding follows_def statuses_of_def T X
    by (rule path_one [OF claimed]) (use k(2) none in simp_all)
qed

text \<open>Replacing the row of one execution, whatever is logged with it.\<close>

lemma execution_follows:
  assumes old: "get_execution d (e_id e) = Some e0" and t: "tasks d' = tasks d"
    and x: "executions d' = executions (put_execution (e_id e) (\<lambda>_. e) d)"
    and m: "(e_status e0, e_status e) \<in> execution_moves\<^sup>*"
  shows "follows d d'"
proof -
  let ?X = "\<lambda>j. map_option e_status (get_execution d j)"
  have "machine_path (status_in d, ?X) (status_in d, ?X(e_id e \<mapsto> b))" if "(e_status e0, b) \<in> execution_moves\<^sup>*" for b
    using that
  proof (induction rule: rtrancl_induct)
    case base
    have "?X(e_id e \<mapsto> e_status e0) = ?X" using old by (intro map_upd_triv) simp
    then show ?case by simp
  next
    case (step b c)
    have "machine_step (status_in d, ?X(e_id e \<mapsto> b)) (status_in d, ?X(e_id e \<mapsto> b, e_id e \<mapsto> c))"
      by (rule executed [OF _ step.hyps(2)]) simp
    from rtranclp.rtrancl_into_rtrancl [OF step.IH this] show ?case by (simp only: fun_upd_upd)
  qed
  moreover have "get_execution d' j = (if j = e_id e then Some e else get_execution d j)" for j
    using get_execution_replace [OF refl old] get_execution_replace_other [OF refl, of j e d]
    by (simp add: get_execution_def x)
  then have "(\<lambda>j. map_option e_status (get_execution d' j)) = ?X(e_id e \<mapsto> e_status e)" by auto
  moreover have "status_in d' = status_in d" by (simp add: status_in_def get_task_def t fun_eq_iff)
  ultimately show ?thesis using m by (simp add: follows_def statuses_of_def)
qed

lemma dispatching_moves:
  "(ES_QUEUED, ES_DISPATCHING) \<in> execution_moves\<^sup>*" "(ES_QUEUED, ES_IN_PROGRESS) \<in> execution_moves\<^sup>*"
proof -
  have m: "(ES_QUEUED, ES_DISPATCHING) \<in> execution_moves" "(ES_DISPATCHING, ES_IN_PROGRESS) \<in> execution_moves"
    by (simp_all add: execution_moves_def)
  show "(ES_QUEUED, ES_DISPATCHING) \<in> execution_moves\<^sup>*" using m(1) by (rule r_into_rtrancl)
  with m(2) show "(ES_QUEUED, ES_IN_PROGRESS) \<in> execution_moves\<^sup>*" by (rule rtrancl_into_rtrancl [rotated])
qed

lemma dispatch_follows:
  assumes "dispatch_prompt env DbOk i x prompt (open_session d) = (r, s')"
  shows "follows d (working s')"
proof (cases "\<exists>e. get_execution d i = Some e \<and> e_status e = ES_QUEUED")
  case False
  then have "working s' = d" using assms by (auto simp: dispatch_prompt_def split: option.splits if_splits)
  then show ?thesis by simp
next
  case True
  then obtain e where e: "get_execution d i = Some e" "e_status e = ES_QUEUED" by blast
  have i: "e_id e = i" using get_execution_Some [OF e(1)] by simp
  show ?thesis
  proof (cases "send_prompt env x prompt")
    case (Inl err)
    show ?thesis
      by (rule execution_follows [where e = "fail_dispatch err (start_dispatch env e)"])
        (use assms e i Inl dispatching_moves in \<open>auto simp: dispatch_prompt_def Let_def put_execution_twice add_event_def\<close>)
  next
    case (Inr m)
    show ?thesis
      by (rule execution_follows [where e = "succeed_dispatch env x m (start_dispatch env e)"])
        (use assms e i Inr dispatching_moves in \<open>auto simp: dispatch_prompt_def Let_def put_execution_twice add_event_def\<close>)
  qed
qed

lemma recover_follows:
  assumes e: "get_execution d i = Some e" and h: "handle_error m rnd now x ph e = (r, e')"
    and a: "apply_recovery_decision names now r e' (open_session d) = (res, s')"
  shows "follows d (committed s')"
proof -
  let ?x = "decided_execution now r e'"
  note k = handle_error_keeps [OF h]
  have i: "e_id e = i" using get_execution_Some [OF e] by simp
  have "e_status ?x \<in> {e_status e, ES_REVIEW, ES_FAILED}"
    using k(3,4) by (auto simp: decided_status split: if_splits)
  then have mv: "(e_status e, e_status ?x) \<in> execution_moves\<^sup>*"
    by (elim insertE emptyE) (simp_all add: execution_moves_def r_into_rtrancl)
  show ?thesis
  proof (cases "build_action_table names")
    case (Inl y)
    with a show ?thesis by (auto simp: apply_recovery_decision_def)
  next
    case (Inr tab)
    let ?v = "applied_event tab now r e' (events_of d i)"
    have "committed s' = d \<or> insert_event ?v (put_execution (e_id ?x) (\<lambda>_. ?x) d) = Inr (committed s')"
      using a Inr k i by (auto simp: apply_recovery_decision_def split: sum.splits)
    then show ?thesis
    proof
      assume "insert_event ?v (put_execution (e_id ?x) (\<lambda>_. ?x) d) = Inr (committed s')"
      then have "committed s' = add_event ?v (put_execution (e_id ?x) (\<lambda>_. ?x) d)"
        by (auto simp: insert_event_def add_event_def split: if_splits)
      then show ?thesis
        by (intro execution_follows [OF _ _ _ mv]) (use e k i in \<open>simp_all add: add_event_def put_execution_def\<close>)
    qed simp
  qed
qed

lemma recovery_event_follows: "follows d (add_recovery_event e y d)"
  by (cases y, intro follows_same)
     (simp add: add_recovery_event_def add_event_def statuses_of_def fun_eq_iff status_in_def get_task_def get_execution_def)

section \<open>Runs\<close>

lemma run_follows: "system_run E cfg d d' \<Longrightarrow> system_ok d \<Longrightarrow> follows d d'"
proof (induction rule: system_run.induct)
  case start
  then show ?case by simp
next
  case (cycle d d1 others base w m lo ro now b g rs s' g')
  have ok1: "system_ok d1" "wf_db d1" using good_wf [OF run_good [OF cycle.hyps(1)] cycle.prems] by simp_all
  have "wf_db (others d1)" using good_wf [OF run_good [OF cycle.hyps(2)] ok1(1)] by simp
  from cycle_follows [OF ok1(2) this cycle.hyps(3)] cycle.IH(2) [OF ok1(1)] cycle.IH(1) [OF cycle.prems] show ?case
    unfolding session_simps by (blast intro: follows_trans)
next
  case (intake d d1 T I p g ans s' g')
  have ok1: "system_ok d1" using good_wf [OF run_good [OF intake.hyps(1)] intake.prems] by simp
  have "follows d1 (committed s')"
    by (rule intake_follows [OF intake.hyps(5) ok1 run_good [OF intake.hyps(4)] intake.IH(2)])
  with intake.IH(1) [OF intake.prems] show ?case unfolding session_simps by (rule follows_trans)
next
  case (stale_tasks d d1 tm m now worker rows s')
  have "wf_db d1" using good_wf [OF run_good [OF stale_tasks.hyps(1)] stale_tasks.prems] by simp
  from follows_trans [OF stale_tasks.IH [OF stale_tasks.prems] recovery_cycle_follows [OF this stale_tasks.hyps(2)]]
  show ?case unfolding session_simps .
next
  case (claim d d1 pk corr isofmt now i runner e s')
  have "wf_db d1" using good_wf [OF run_good [OF claim.hyps(1)] claim.prems] by simp
  from follows_trans [OF claim.IH [OF claim.prems] claim_follows [OF this claim.hyps(2)]]
  show ?case unfolding session_simps .
next
  case (dispatch d d1 env i x prompt sent s')
  from follows_trans [OF dispatch.IH [OF dispatch.prems] dispatch_follows [OF dispatch.hyps(2)]]
  show ?case unfolding session_simps .
next
  case (stale_executions d d1 th rnd now n s')
  have "committed s' = d1"
    using stale_processing_idle [where th = th and rnd = rnd and now = now and s = "open_session d1"] stale_executions.hyps(2) by simp
  with stale_executions.IH stale_executions.prems show ?case by simp
next
  case (recover d d1 i e mx rnd now x ph dec e' names res s')
  from follows_trans [OF recover.IH [OF recover.prems] recover_follows [OF recover.hyps(2-4)]]
  show ?case unfolding session_simps .
next
  case (recovery_event d d1 i e y)
  from follows_trans [OF recovery_event.IH [OF recovery_event.prems] recovery_event_follows] show ?case .
qed

section \<open>What the machine cannot do\<close>

lemma failed_final: "machine_path s s' \<Longrightarrow> fst s i = Some TS_FAILED \<Longrightarrow> fst s' i = Some TS_FAILED"
  by (induction rule: rtranclp_induct) (auto elim!: machine_step.cases simp: task_moves_def)

definition unreached :: "execution_status set" where
  "unreached = {ES_PREPARED, ES_RESULT_INSPECTION, ES_ADOPTING_COMMIT, ES_DONE}"

lemma unreached_stays: "machine_path s s' \<Longrightarrow> snd s' k = Some a \<Longrightarrow> a \<in> unreached \<Longrightarrow> snd s k = Some a"
  by (induction rule: rtranclp_induct)
    (auto elim!: machine_step.cases simp: execution_moves_def unreached_def split: if_splits)

section \<open>Properties\<close>





end
