(* ===== verification/Telegram_Users.thy ===== *)
theory Telegram_Users
  imports Model Settings
begin

text \<open>
  The users of the Telegram bot and what they may do: \<open>workers/telegram/persistence.py\<close>,
  \<open>workers/telegram/notifications.py\<close>, \<open>workers/telegram/auth.py\<close>, the admin check of
  \<open>api/dependencies.py\<close> and the restart endpoints of \<open>api/routes/system.py\<close>. A function maps
  the committed table to the one it leaves; how a commit ends is an argument. Whether
  SQLAlchemy notices that the dictionary in a JSON column was changed in place is the
  argument \<open>tracked\<close>; for the plain \<open>JSON\<close> type of the column it does not.
\<close>

section \<open>Users\<close>

record telegram_user =
  tg_id :: int
  tg_first_name :: "string option"
  tg_last_name :: "string option"
  tg_role :: string
  tg_subscribed_events :: "(string \<times> json) list"
  tg_is_active :: bool
  tg_last_active :: "datetime option"

type_synonym users = "telegram_user list"

definition find_user :: "users \<Rightarrow> int \<Rightarrow> telegram_user option" where
  "find_user us i = find (\<lambda>u. tg_id u = i) us"

definition put_user :: "int \<Rightarrow> (telegram_user \<Rightarrow> telegram_user) \<Rightarrow> users \<Rightarrow> users" where
  "put_user i f us = map (\<lambda>u. if tg_id u = i then f u else u) us"

text \<open>A row with the defaults of the columns.\<close>

definition new_user :: "int \<Rightarrow> string option \<Rightarrow> string option \<Rightarrow> telegram_user" where
  "new_user i fst_name lst_name = \<lparr>tg_id = i, tg_first_name = fst_name, tg_last_name = lst_name, tg_role = ''user'',
     tg_subscribed_events = [], tg_is_active = False, tg_last_active = None\<rparr>"

definition upsert_telegram_user ::
    "db_outcome \<Rightarrow> datetime \<Rightarrow> int \<Rightarrow> string option \<Rightarrow> string option \<Rightarrow> datetime option \<Rightarrow> users \<Rightarrow>
     (exn + telegram_user) \<times> users" where
  "upsert_telegram_user out now i fst_name lst_name last_active us =
     (let u = (case find_user us i of None \<Rightarrow> new_user i fst_name lst_name
            | Some u \<Rightarrow> u\<lparr>tg_first_name := fst_name, tg_last_name := lst_name\<rparr>);
          u' = u\<lparr>tg_last_active := Some (case last_active of Some t \<Rightarrow> t | None \<Rightarrow> now)\<rparr>
      in case out of
           DbError m \<Rightarrow> (Inl (SQLAlchemyError m), us)
         | DbOk \<Rightarrow> (Inr u', if find_user us i = None then us @ [u'] else put_user i (\<lambda>_. u') us))"

definition SUBSCRIPTION_STARTUP :: string where
  "SUBSCRIPTION_STARTUP = ''TELEGRAM_NOTIFICATION_STARTUP''"

definition set_subscription :: "bool \<Rightarrow> bool \<Rightarrow> db_outcome \<Rightarrow> int \<Rightarrow> users \<Rightarrow> (exn + bool) \<times> users" where
  "set_subscription tracked b out i us =
     (case find_user us i of
        None \<Rightarrow> (Inr False, us)
      | Some u \<Rightarrow>
          (case out of
             DbError m \<Rightarrow> (Inl (SQLAlchemyError m), us)
           | DbOk \<Rightarrow> (Inr True, if tracked then put_user i (\<lambda>u. u\<lparr>tg_subscribed_events :=
                 AList.update SUBSCRIPTION_STARTUP (JBool b) (tg_subscribed_events u)\<rparr>) us else us)))"

definition subscribe_user_to_startup :: "bool \<Rightarrow> db_outcome \<Rightarrow> int \<Rightarrow> users \<Rightarrow> (exn + bool) \<times> users" where
  "subscribe_user_to_startup tracked = set_subscription tracked True"

definition unsubscribe_user_from_startup :: "bool \<Rightarrow> db_outcome \<Rightarrow> int \<Rightarrow> users \<Rightarrow> (exn + bool) \<times> users" where
  "unsubscribe_user_from_startup tracked = set_subscription tracked False"

text \<open>
  PostgreSQL compares the text of the JSON value with \<open>true\<close>, other databases are read row by
  row; an exception gives no recipients.
\<close>

definition startup_recipients :: "bool \<Rightarrow> db_outcome \<Rightarrow> users \<Rightarrow> int list" where
  "startup_recipients postgresql out us =
     (let value = (\<lambda>u. dict_get (tg_subscribed_events u) SUBSCRIPTION_STARTUP (JBool False)) in
      case out of
        DbError m \<Rightarrow> []
      | DbOk \<Rightarrow> map tg_id (filter (\<lambda>u. tg_is_active u \<and>
            (if postgresql then value u \<in> {JBool True, JStr ''true''} else value u = JBool True)) us))"

definition update_user_last_active :: "db_outcome \<Rightarrow> datetime \<Rightarrow> int \<Rightarrow> users \<Rightarrow> users" where
  "update_user_last_active out now i us =
     (case out of DbError m \<Rightarrow> us | DbOk \<Rightarrow> put_user i (\<lambda>u. u\<lparr>tg_last_active := Some now\<rparr>) us)"

definition is_user_subscribed_to_startup :: "db_outcome \<Rightarrow> int \<Rightarrow> users \<Rightarrow> json" where
  "is_user_subscribed_to_startup out i us =
     (case (case out of DbOk \<Rightarrow> find_user us i | DbError m \<Rightarrow> None) of None \<Rightarrow> JBool False
      | Some u \<Rightarrow> if tg_is_active u then dict_get (tg_subscribed_events u) SUBSCRIPTION_STARTUP (JBool False)
          else JBool False)"

definition get_user_info :: "users \<Rightarrow> int \<Rightarrow> string option \<times> bool" where
  "get_user_info us i = (case find_user us i of None \<Rightarrow> (None, False) | Some u \<Rightarrow> (Some (tg_role u), tg_is_active u))"

definition has_required_role :: "users \<Rightarrow> int \<Rightarrow> string list \<Rightarrow> bool" where
  "has_required_role us i roles = (case get_user_info us i of (role, active) \<Rightarrow> active \<and> role \<in> Some ` set roles)"

text \<open>\<open>persist_message_user\<close>: the sender of a message, if it has one; errors are swallowed.\<close>

definition persist_message_user ::
    "db_outcome \<Rightarrow> datetime \<Rightarrow> (int \<times> string option \<times> string option) option \<Rightarrow> users \<Rightarrow> users" where
  "persist_message_user out now sender us =
     (case sender of None \<Rightarrow> us
      | Some (i, fst_name, lst_name) \<Rightarrow> snd (upsert_telegram_user out now i fst_name lst_name None us))"

section \<open>Administrators\<close>

datatype api_error = HTTPException int string | Crash exn

definition ascii :: "string \<Rightarrow> bool" where
  "ascii s = list_all (\<lambda>c. (of_char c :: nat) < 128) s"

definition require_system_admin :: "settings \<Rightarrow> users \<Rightarrow> string option \<Rightarrow> string option \<Rightarrow> api_error + unit" where
  "require_system_admin s us admin_token user_header =
     (if str_truthy user_header then
        (case py_int (the user_header) of
           None \<Rightarrow> Inl (HTTPException 403 ''Invalid Telegram user ID format.'')
         | Some i \<Rightarrow>
             (case find_user us i of
                None \<Rightarrow> Inl (HTTPException 403 ''Telegram user not found.'')
              | Some u \<Rightarrow>
                  if \<not> tg_is_active u then Inl (HTTPException 403 ''Telegram user account is not active.'')
                  else if tg_role u \<noteq> ''admin'' then Inl (HTTPException 403 ''Admin role required for this operation.'')
                  else Inr ()))
      else if \<not> str_truthy (system_admin_token s) then
        Inl (HTTPException 503 ''System admin API token is not configured.'')
      else if \<not> str_truthy admin_token then Inl (HTTPException 403 ''Admin access required.'')
      else if \<not> ascii (the admin_token) \<or> \<not> ascii (the (system_admin_token s)) then
        Inl (Crash (TypeError ''comparing strings with non-ASCII characters is not supported''))
      else if the admin_token \<noteq> the (system_admin_token s) then Inl (HTTPException 403 ''Admin access required.'')
      else Inr ())"

section \<open>Restarting\<close>

text \<open>
  How starting the script ends, and whether writing the line to the log file succeeds. The
  answer comes with whether the script was started.
\<close>

datatype os_outcome = OsOk | OsPermissionError | OsError string

datatype api_answer = Answer "(string \<times> json) list" | Refused api_error

record restart_request =
  rq_script_exists :: bool
  rq_popen :: os_outcome
  rq_pid :: int
  rq_log :: os_outcome

definition start_failed :: "os_outcome \<Rightarrow> api_answer" where
  "start_failed x = (case x of
      OsPermissionError \<Rightarrow> Refused (HTTPException 403 ''Restart script not executable. Check permissions.'')
    | _ \<Rightarrow> Refused (HTTPException 500 ''Failed to initiate restart.''))"

definition execute_restart_script :: "restart_request \<Rightarrow> string \<Rightarrow> api_answer \<times> bool" where
  "execute_restart_script r service =
     (if \<not> rq_script_exists r then (Refused (HTTPException 500 ''Restart script not found.''), False)
      else if rq_popen r \<noteq> OsOk then (start_failed (rq_popen r), False)
      else if rq_log r \<noteq> OsOk then (start_failed (rq_log r), True)
      else (Answer [(''status'', JStr ''initiated''), (''message'', JStr (service @ '' restart initiated.'')),
          (''pid'', JInt (rq_pid r))], True))"

text \<open>The four endpoints differ in the service they name.\<close>

datatype restart_route = R_SYSTEM | R_API | R_TELEGRAM_BOT | R_OPENCODE

fun route_service :: "restart_route \<Rightarrow> string" where
  "route_service R_SYSTEM = ''System (API + Telegram Bot)''"
| "route_service R_API = ''API''"
| "route_service R_TELEGRAM_BOT = ''Telegram Bot''"
| "route_service R_OPENCODE = ''OpenCode''"

definition restart_endpoint ::
    "restart_route \<Rightarrow> settings \<Rightarrow> users \<Rightarrow> string option \<Rightarrow> string option \<Rightarrow> restart_request \<Rightarrow> api_answer \<times> bool" where
  "restart_endpoint route s us admin_token user_header r =
     (case require_system_admin s us admin_token user_header of
        Inl e \<Rightarrow> (Refused e, False)
      | Inr _ \<Rightarrow> execute_restart_script r (route_service route))"

section \<open>Lemmas\<close>

definition users_ok :: "users \<Rightarrow> bool" where
  "users_ok us = (distinct (map tg_id us) \<and> (\<forall>u \<in> set us. tg_role u \<in> {''user'', ''operator'', ''admin''}))"

text \<open>What a user may do and is subscribed to.\<close>

definition privileges :: "telegram_user \<Rightarrow> string \<times> bool \<times> (string \<times> json) list" where
  "privileges u = (tg_role u, tg_is_active u, tg_subscribed_events u)"

lemma find_user_Some: "find_user us i = Some u \<Longrightarrow> u \<in> set us \<and> tg_id u = i"
  by (auto simp: find_user_def find_Some_iff)

lemma find_user_None: "find_user us i = None \<longleftrightarrow> i \<notin> tg_id ` set us"
  by (auto simp: find_user_def find_None_iff)

lemma find_user_put: "(\<And>u. tg_id (f u) = tg_id u) \<Longrightarrow>
    find_user (put_user i f us) j = (if i = j then map_option f (find_user us j) else find_user us j)"
  by (induction us) (auto simp: find_user_def put_user_def)

lemma put_user_ids: "(\<And>u. tg_id (f u) = tg_id u) \<Longrightarrow> map tg_id (put_user i f us) = map tg_id us"
  by (induction us) (simp_all add: put_user_def)

lemma find_user_append: "find_user (us @ [u]) j = (case find_user us j of Some x \<Rightarrow> Some x
    | None \<Rightarrow> if tg_id u = j then Some u else None)"
  by (induction us) (simp_all add: find_user_def)

lemma find_user_replace: "tg_id u = i \<Longrightarrow> find_user us i \<noteq> None \<Longrightarrow>
    find_user (put_user i (\<lambda>_. u) us) j = (if j = i then Some u else find_user us j)"
proof -
  assume u: "tg_id u = i" "find_user us i \<noteq> None"
  have "j \<noteq> i \<Longrightarrow> find_user (put_user i (\<lambda>_. u) vs) j = find_user vs j" for vs
    using u(1) by (induction vs) (auto simp: find_user_def put_user_def)
  moreover have "find_user vs i \<noteq> None \<Longrightarrow> find_user (put_user i (\<lambda>_. u) vs) i = Some u" for vs
    using u(1) by (induction vs) (auto simp: find_user_def put_user_def)
  ultimately show ?thesis using u(2) by simp
qed

lemma put_replace_ids: "tg_id u = i \<Longrightarrow> map tg_id (put_user i (\<lambda>_. u) us) = map tg_id us"
  by (induction us) (simp_all add: put_user_def)

text \<open>The upsert in closed form.\<close>

lemma upsert_find:
  assumes "upsert_telegram_user DbOk now i fst_name lst_name la us = (r, us')"
  shows "\<exists>u. r = Inr u \<and> tg_id u = i \<and> tg_first_name u = fst_name \<and> tg_last_name u = lst_name \<and>
    privileges u = (case find_user us i of None \<Rightarrow> (''user'', False, []) | Some v \<Rightarrow> privileges v) \<and>
    (\<forall>j. find_user us' j = (if j = i then Some u else find_user us j)) \<and>
    map tg_id us' = (if find_user us i = None then map tg_id us @ [i] else map tg_id us)"
proof (cases "find_user us i")
  case None
  then show ?thesis using assms
    by (auto simp: upsert_telegram_user_def Let_def new_user_def privileges_def find_user_append split: option.split)
next
  case (Some v)
  let ?u = "v\<lparr>tg_first_name := fst_name, tg_last_name := lst_name,
      tg_last_active := Some (case la of Some t \<Rightarrow> t | None \<Rightarrow> now)\<rparr>"
  have u: "r = Inr ?u" "us' = put_user i (\<lambda>_. ?u) us" "tg_id ?u = i"
    using assms Some find_user_Some [OF Some] by (simp_all add: upsert_telegram_user_def Let_def)
  then show ?thesis
    using Some find_user_replace [OF u(3), of us] put_replace_ids [OF u(3), of us]
    by (intro exI [of _ ?u]) (simp add: privileges_def)
qed

section \<open>Properties\<close>

lemma roles_kept:
  assumes ok: "users_ok us" and d: "distinct (map tg_id us')"
    and u: "privileges u = (case find_user us i of None \<Rightarrow> (''user'', False, []) | Some v \<Rightarrow> privileges v)"
      "\<And>j. find_user us' j = (if j = i then Some u else find_user us j)" and x: "x \<in> set us'"
  shows "tg_role x \<in> {''user'', ''operator'', ''admin''}"
proof -
  have "find_user us' (tg_id x) = Some x"
    using d x unfolding find_user_def
  proof (induction us')
    case (Cons a as)
    then show ?case by (cases "x = a") (auto simp: image_iff)
  qed simp
  with u(2) [of "tg_id x"] have "x = u \<or> find_user us (tg_id x) = Some x" by (auto split: if_splits)
  then show ?thesis
  proof
    assume "x = u"
    show ?thesis
    proof (cases "find_user us i")
      case None
      with u(1) \<open>x = u\<close> show ?thesis by (simp add: privileges_def)
    next
      case (Some v)
      with u(1) \<open>x = u\<close> have "tg_role x = tg_role v" by (simp add: privileges_def)
      with find_user_Some [OF Some] ok show ?thesis by (simp add: users_ok_def)
    qed
  next
    assume "find_user us (tg_id x) = Some x"
    from find_user_Some [OF this] ok show ?thesis by (simp add: users_ok_def)
  qed
qed

lemma message_grants_nothing:
  assumes ok: "users_ok us"
  shows "users_ok (persist_message_user out now sender us) \<and>
      (\<forall>i. case find_user (persist_message_user out now sender us) i of
         None \<Rightarrow> find_user us i = None
       | Some u \<Rightarrow> privileges u = (case find_user us i of None \<Rightarrow> (''user'', False, []) | Some v \<Rightarrow> privileges v))"
proof (cases "sender = None \<or> out \<noteq> DbOk")
  case True
  then have "persist_message_user out now sender us = us"
    by (cases sender; cases out) (auto simp: persist_message_user_def upsert_telegram_user_def Let_def)
  then show ?thesis using ok by (simp split: option.split)
next
  case False
  then obtain i fst_name lst_name where s: "sender = Some (i, fst_name, lst_name)" "out = DbOk" by auto
  obtain r us' where r: "upsert_telegram_user DbOk now i fst_name lst_name None us = (r, us')"
    by (cases "upsert_telegram_user DbOk now i fst_name lst_name None us")
  obtain u where u: "tg_id u = i" "privileges u = (case find_user us i of None \<Rightarrow> (''user'', False, []) | Some v \<Rightarrow> privileges v)"
    "\<And>j. find_user us' j = (if j = i then Some u else find_user us j)"
    "map tg_id us' = (if find_user us i = None then map tg_id us @ [i] else map tg_id us)"
    using upsert_find [OF r] by blast
  have d: "distinct (map tg_id us')" using ok u(4) find_user_None [of us i] by (auto simp: users_ok_def)
  have "tg_role x \<in> {''user'', ''operator'', ''admin''}" if "x \<in> set us'" for x
    by (rule roles_kept [OF ok d u(2,3) that])
  then have "users_ok us'" using d by (simp add: users_ok_def)
  moreover have "persist_message_user out now sender us = us'" using s r by (simp add: persist_message_user_def)
  ultimately show ?thesis using u(2,3) by (simp split: option.split)
qed

text \<open>
  Writing to the bot gives no rights. Whatever messages arrive and however the commits end,
  the table keeps one row per Telegram id; the role, the activation and the subscriptions of
  every known user stay as they are, and a new user is an inactive plain user.
\<close>

theorem messages_grant_nothing:
  assumes "users_ok us"
  shows "let us' = fold (\<lambda>(out, now, sender). persist_message_user out now sender) ms us in
    users_ok us' \<and>
    (\<forall>i. case find_user us' i of
       None \<Rightarrow> find_user us i = None
     | Some u \<Rightarrow> privileges u = (case find_user us i of None \<Rightarrow> (''user'', False, []) | Some v \<Rightarrow> privileges v))"
  unfolding Let_def using assms
proof (induction ms arbitrary: us)
  case Nil
  then show ?case by (simp split: option.split)
next
  case (Cons m ms)
  obtain out now sender where m: "m = (out, now, sender)" by (cases m)
  let ?us = "persist_message_user out now sender us"
  note o = message_grants_nothing [OF Cons.prems, of out now sender]
  note ih = Cons.IH [OF o [THEN conjunct1]]
  let ?final = "fold (\<lambda>(out, now, sender). persist_message_user out now sender) ms ?us"
  have "case find_user ?final i of None \<Rightarrow> find_user us i = None
     | Some u \<Rightarrow> privileges u = (case find_user us i of None \<Rightarrow> (''user'', False, []) | Some v \<Rightarrow> privileges v)" for i
    using ih [THEN conjunct2, THEN spec, of i] o [THEN conjunct2, THEN spec, of i]
    by (cases "find_user ?final i"; cases "find_user ?us i"; cases "find_user us i") simp_all
  with ih show ?case by (simp add: m)
qed

definition sample_user :: "int \<Rightarrow> string \<Rightarrow> bool \<Rightarrow> telegram_user" where
  "sample_user i role active = (new_user i None None)\<lparr>tg_role := role, tg_is_active := active\<rparr>"

theorem messages_grant_nothing_witness:
  "let us = [sample_user 5 ''admin'' True];
       us' = fold (\<lambda>(out, now, sender). persist_message_user out now sender)
         [(DbOk, 7, Some (5, Some ''A'', None)), (DbOk, 8, Some (6, None, None)), (DbError ''x'', 9, Some (7, None, None))] us in
     map privileges us' = [(''admin'', True, []), (''user'', False, [])] \<and> users_ok us'"
proof -
  let ?us = "[sample_user 5 ''admin'' True]"
  let ?ms = "[(DbOk, 7, Some (5, Some ''A'', None)), (DbOk, 8, Some (6, None, None)), (DbError ''x'', 9, Some (7, None, None))]"
  let ?us' = "fold (\<lambda>(out, now, sender). persist_message_user out now sender) ?ms ?us"
  have "users_ok ?us" by (simp add: users_ok_def sample_user_def new_user_def)
  from messages_grant_nothing [OF this, of ?ms] have "users_ok ?us'" unfolding Let_def by (rule conjunct1)
  moreover have "map privileges ?us' = [(''admin'', True, []), (''user'', False, [])]" by code_simp
  ultimately show ?thesis unfolding Let_def by blast
qed

lemma admin_check_Inr:
  "require_system_admin s us tok hdr = Inr () \<longleftrightarrow>
    (if str_truthy hdr then \<exists>i u. py_int (the hdr) = Some i \<and> find_user us i = Some u \<and> tg_is_active u \<and> tg_role u = ''admin''
     else str_truthy (system_admin_token s) \<and> tok = system_admin_token s \<and> ascii (the tok))"
  by (cases tok; cases "system_admin_token s")
     (auto simp: require_system_admin_def split: option.splits if_splits)

text \<open>
  Restarts are for administrators. A restart script is started only if the request names an
  active admin of the table by its Telegram id, or, if it names nobody, carries the
  configured token; in every other case the answer is an error and nothing is started.
\<close>

theorem restart_needs_admin:
  "case restart_endpoint route s us tok hdr r of (answer, started) \<Rightarrow>
     (if require_system_admin s us tok hdr = Inr ()
      then (if str_truthy hdr
            then \<exists>i u. py_int (the hdr) = Some i \<and> u \<in> set us \<and> tg_id u = i \<and> tg_is_active u \<and> tg_role u = ''admin''
            else str_truthy (system_admin_token s) \<and> tok = system_admin_token s) \<and>
           started = (rq_script_exists r \<and> rq_popen r = OsOk)
      else \<not> started \<and> (\<exists>e. answer = Refused e))"
proof (cases "require_system_admin s us tok hdr")
  case (Inl e)
  then show ?thesis by (simp add: restart_endpoint_def)
next
  case (Inr u)
  then have ok: "require_system_admin s us tok hdr = Inr ()" by simp
  have who: "if str_truthy hdr
      then \<exists>i u. py_int (the hdr) = Some i \<and> u \<in> set us \<and> tg_id u = i \<and> tg_is_active u \<and> tg_role u = ''admin''
      else str_truthy (system_admin_token s) \<and> tok = system_admin_token s"
  proof (cases "str_truthy hdr")
    case True
    with ok [unfolded admin_check_Inr] obtain i u where
      "py_int (the hdr) = Some i" "find_user us i = Some u" "tg_is_active u" "tg_role u = ''admin''" by auto
    with True find_user_Some show ?thesis by fastforce
  next
    case False
    with ok [unfolded admin_check_Inr] show ?thesis by simp
  qed
  have "snd (execute_restart_script r n) = (rq_script_exists r \<and> rq_popen r = OsOk)" for n
    by (simp add: execute_restart_script_def)
  with who ok show ?thesis by (simp add: restart_endpoint_def split_beta)
qed

text \<open>
  The id in the header is all that is asked for: who knows the Telegram id of an active admin
  restarts the system, with any token or none, and whether or not one is configured.
\<close>

lemma header_suffices:
  assumes "find_user us i = Some u" "tg_is_active u" "tg_role u = ''admin''"
  shows "require_system_admin s us tok (Some (int_str i)) = Inr ()"
proof -
  have "int_str i \<noteq> []" by (cases "i < 0") (simp_all add: int_str_def)
  then show ?thesis using assms py_int_int_str [of i] by (auto simp: admin_check_Inr)
qed

text \<open>
  Subscriptions. If changes of the column are tracked, a user is notified at startup exactly
  when it is active and subscribed last; with the column as it is declared, subscribing and
  unsubscribing report success and change nothing.
\<close>

theorem subscription_effect:
  assumes "find_user us i = Some u"
  shows "case set_subscription tracked b DbOk i us of (res, us') \<Rightarrow>
    res = Inr True \<and>
    (if tracked
     then i \<in> set (startup_recipients pg DbOk us') \<longleftrightarrow> b \<and> (\<exists>v \<in> set us. tg_id v = i \<and> tg_is_active v)
     else us' = us)"
proof (cases tracked)
  case False
  with assms show ?thesis by (simp add: set_subscription_def)
next
  case True
  let ?f = "\<lambda>u. u\<lparr>tg_subscribed_events := AList.update SUBSCRIPTION_STARTUP (JBool b) (tg_subscribed_events u)\<rparr>"
  let ?us = "put_user i ?f us"
  have g: "dict_get (tg_subscribed_events (?f v)) SUBSCRIPTION_STARTUP d = JBool b" for v d
    by (simp add: dict_get_def update_conv')
  let ?val = "\<lambda>w. dict_get (tg_subscribed_events w) SUBSCRIPTION_STARTUP (JBool False)"
  let ?hit = "\<lambda>w. tg_id w = i \<and> tg_is_active w \<and> (if pg then ?val w \<in> {JBool True, JStr ''true''} else ?val w = JBool True)"
  have hit: "?hit (if tg_id v = i then ?f v else v) \<longleftrightarrow> tg_id v = i \<and> tg_is_active v \<and> b" for v
    using g [of v "JBool False"] by simp
  have "i \<in> set (startup_recipients pg DbOk ?us) \<longleftrightarrow> (\<exists>w \<in> set ?us. ?hit w)"
    by (auto simp: startup_recipients_def Let_def image_iff)
  also have "\<dots> \<longleftrightarrow> (\<exists>v \<in> set us. ?hit (if tg_id v = i then ?f v else v))" unfolding put_user_def set_map bex_simps(7) ..
  also have "\<dots> \<longleftrightarrow> b \<and> (\<exists>v \<in> set us. tg_id v = i \<and> tg_is_active v)" unfolding hit by blast
  finally show ?thesis using True assms by (simp add: set_subscription_def)
qed

theorem subscription_effect_witness:
  "let us = [sample_user 5 ''user'' True] in
     5 \<in> set (startup_recipients True DbOk (snd (set_subscription True True DbOk 5 us))) \<and>
     snd (subscribe_user_to_startup False DbOk 5 us) = us"
proof -
  let ?us = "[sample_user 5 ''user'' True]"
  have f: "find_user ?us 5 = Some (sample_user 5 ''user'' True)" by (simp add: find_user_def sample_user_def new_user_def)
  have "\<exists>v \<in> set ?us. tg_id v = 5 \<and> tg_is_active v" by (simp add: sample_user_def new_user_def)
  with subscription_effect [OF f, of True True True] subscription_effect [OF f, of False True True]
  show ?thesis by (auto simp: Let_def subscribe_user_to_startup_def split: prod.splits)
qed

end
