(* ===== verification/Health.thy ===== *)
theory Health
  imports Settings
begin

text \<open>
  The health checks: \<open>health/models.py\<close>, \<open>health/registry.py\<close> and \<open>health/service.py\<close> with the
  component checks \<open>api/health.py\<close>, \<open>db/health.py\<close>, \<open>opencode/health.py\<close> and
  \<open>workers/telegram/health.py\<close> and the endpoints of \<open>api/routes/health.py\<close>. What the probes
  meet (an HTTP answer, a database session, a file, the clock) is an argument. Texts with
  symbols beyond Latin-1 are lists of code points. Of a pydantic error only the fact that it
  is raised is modelled, not its text.
\<close>

section \<open>Models\<close>

datatype health_status = H_OK | H_DEGRADED | H_ERROR

fun health_status_value :: "health_status \<Rightarrow> string" where
  "health_status_value H_OK = ''OK''"
| "health_status_value H_DEGRADED = ''DEGRADED''"
| "health_status_value H_ERROR = ''ERROR''"

text \<open>\<open>HealthStatus(v)\<close>: the member with this value, or an exception.\<close>

fun health_status_of :: "json \<Rightarrow> health_status option" where
  "health_status_of (JStr s) = (if s = ''OK'' then Some H_OK else if s = ''DEGRADED'' then Some H_DEGRADED
     else if s = ''ERROR'' then Some H_ERROR else None)"
| "health_status_of _ = None"

lemma health_status_of_value [simp]: "health_status_of (JStr (health_status_value h)) = Some h"
  by (cases h) simp_all

record health_result =
  hr_component :: string
  hr_status :: health_status
  hr_detail :: "string option"
  hr_state :: "string option"

record health_summary =
  hs_status :: health_status
  hs_checks :: "(string \<times> health_result) list"

text \<open>
  What a check may hand over: a result, or a dictionary or any other object, of which the
  keys or attributes that are present count.
\<close>

datatype component_data = Checked health_result | Loose "(string \<times> json) list"

definition health_result_of :: "string \<Rightarrow> health_status \<Rightarrow> string \<Rightarrow> health_result" where
  "health_result_of c h d = \<lparr>hr_component = c, hr_status = h, hr_detail = Some d, hr_state = None\<rparr>"

section \<open>Normalisation\<close>

definition py_or :: "json \<Rightarrow> json \<Rightarrow> json" where
  "py_or a b = (if truthy a then a else b)"

text \<open>\<open>HealthCheckResult(component=..., status=..., detail=...)\<close> refuses values of other types.\<close>

fun new_result :: "json \<Rightarrow> health_status \<Rightarrow> json \<Rightarrow> exn + health_result" where
  "new_result (JStr c) h (JStr d) = Inr (health_result_of c h d)"
| "new_result (JStr c) h JNull = Inr \<lparr>hr_component = c, hr_status = h, hr_detail = None, hr_state = None\<rparr>"
| "new_result _ h _ = Inl (ValueError ''validation error for HealthCheckResult'')"

fun raw_component :: "string \<Rightarrow> component_data \<Rightarrow> json \<times> json \<times> json" where
  "raw_component fb (Checked r) = (JStr (hr_component r), JStr (health_status_value (hr_status r)),
     (case hr_detail r of None \<Rightarrow> JNull | Some d \<Rightarrow> JStr d))"
| "raw_component fb (Loose d) = (py_or (dict_get d ''component'' JNull) (py_or (dict_get d ''name'' JNull) (JStr fb)),
     dict_get d ''status'' JNull, dict_get d ''detail'' JNull)"

definition INCOMPLETE_COMPONENT_DETAIL :: string where
  "INCOMPLETE_COMPONENT_DETAIL = ''Component health data is incomplete.''"

definition MISSING_STATUS_DETAIL :: string where
  "MISSING_STATUS_DETAIL = ''Component health data is incomplete: missing status.''"

definition normalize_health_component :: "component_data \<Rightarrow> string \<Rightarrow> exn + health_result" where
  "normalize_health_component c fb =
     (case raw_component fb c of (com, st, det) \<Rightarrow>
       (let name = py_or com (JStr fb) in
        if st = JNull then new_result name H_DEGRADED (JStr MISSING_STATUS_DETAIL)
        else case health_status_of st of
            None \<Rightarrow> new_result name H_ERROR (JStr (''Unknown health status: '' @ json_repr st @ ''.''))
          | Some h \<Rightarrow>
              if \<not> truthy com \<or> det = JNull then
                new_result name (if h = H_ERROR then H_ERROR else H_DEGRADED)
                  (JStr (if h = H_ERROR then ''Component reported an error without further detail.''
                         else INCOMPLETE_COMPONENT_DETAIL))
              else new_result com h det))"

fun normalize_all :: "nat \<Rightarrow> component_data list \<Rightarrow> exn + health_result list" where
  "normalize_all n [] = Inr []"
| "normalize_all n (c # cs) =
     (case normalize_health_component c (''component_'' @ nat_str n) of
        Inl x \<Rightarrow> Inl x
      | Inr r \<Rightarrow> (case normalize_all (n + 1) cs of Inl x \<Rightarrow> Inl x | Inr rs \<Rightarrow> Inr (r # rs)))"

section \<open>Aggregation\<close>

definition OPTIONAL_COMPONENTS :: "string list" where
  "OPTIONAL_COMPONENTS = [''opencode'']"

definition is_optional_component :: "string \<Rightarrow> bool" where
  "is_optional_component n = (lower n \<in> set OPTIONAL_COMPONENTS)"

definition aggregate_results :: "bool \<Rightarrow> health_result list \<Rightarrow> health_status" where
  "aggregate_results exclude_optional rs =
     (if rs = [] then H_ERROR
      else (let core = (if exclude_optional then filter (\<lambda>r. \<not> is_optional_component (hr_component r)) rs else rs)
            in if core = [] then H_OK
               else if list_ex (\<lambda>r. hr_status r = H_ERROR) core then H_ERROR
               else if list_ex (\<lambda>r. hr_status r = H_DEGRADED) core then H_DEGRADED
               else H_OK))"

definition aggregate_system_status :: "component_data list \<Rightarrow> bool \<Rightarrow> exn + health_status" where
  "aggregate_system_status cs exclude_optional =
     (case normalize_all 1 cs of Inl x \<Rightarrow> Inl x | Inr rs \<Rightarrow> Inr (aggregate_results exclude_optional rs))"

section \<open>Reports\<close>

type_synonym code_points = "nat list"

definition cp :: "string \<Rightarrow> code_points" where
  "cp s = map of_char s"

definition status_to_emoji :: "json \<Rightarrow> code_points" where
  "status_to_emoji st = (case health_status_of st of
      Some H_OK \<Rightarrow> [0x1F7E2] | Some H_DEGRADED \<Rightarrow> [0x1F7E1] | Some H_ERROR \<Rightarrow> [0x1F534] | None \<Rightarrow> [0x1F534])"

definition format_status_label :: "json \<Rightarrow> string" where
  "format_status_label st = (case health_status_of st of
      Some H_OK \<Rightarrow> ''OK'' | Some H_DEGRADED \<Rightarrow> ''Degraded'' | Some H_ERROR \<Rightarrow> ''Error'' | None \<Rightarrow> ''Error'')"

definition format_component_name :: "string \<Rightarrow> string" where
  "format_component_name n = dict_get [(''api'', ''API''), (''database'', ''Database''),
      (''telegram_bot'', ''Telegram Bot''), (''opencode'', ''OpenCode'')] n
      (title_from False (map (\<lambda>c. if c = CHR ''_'' then CHR '' '' else c) n))"

fun join_lines :: "code_points list \<Rightarrow> code_points" where
  "join_lines [] = []"
| "join_lines [l] = l"
| "join_lines (l # ls) = l @ [10] @ join_lines ls"

definition status_json :: "health_status \<Rightarrow> json" where
  "status_json h = JStr (health_status_value h)"

definition report_line :: "health_result \<Rightarrow> code_points" where
  "report_line r = status_to_emoji (status_json (hr_status r)) @ cp '' '' @
     cp (format_component_name (hr_component r)) @ [32, 0x2014, 32] @
     cp (format_status_label (status_json (hr_status r)))"

definition render_health_report :: "component_data list \<Rightarrow> exn + code_points" where
  "render_health_report cs =
     (case normalize_all 1 cs of
        Inl x \<Rightarrow> Inl x
      | Inr rs \<Rightarrow>
          (case aggregate_system_status (map Checked rs) True of
             Inl x \<Rightarrow> Inl x
           | Inr h \<Rightarrow> Inr (join_lines ([status_to_emoji (status_json h) @ cp '' *System Health*'', [],
               replicate 20 0x2501, []] @ map report_line rs))))"

section \<open>Overall health\<close>

text \<open>A check returns component data, runs into a timeout or raises anything else.\<close>

datatype check_outcome = Returned component_data | TimedOut | Raised exn

definition removeprefix :: "string \<Rightarrow> string \<Rightarrow> string" where
  "removeprefix p s = (if take (length p) s = p then drop (length p) s else s)"

definition removesuffix :: "string \<Rightarrow> string \<Rightarrow> string" where
  "removesuffix p s = (if p \<noteq> [] \<and> length p \<le> length s \<and> drop (length s - length p) s = p
     then take (length s - length p) s else s)"

definition derive_component_name :: "string \<Rightarrow> nat \<Rightarrow> string" where
  "derive_component_name fn i =
     (let raw = (if fn \<noteq> [] then fn else ''component_'' @ nat_str i);
          n = removesuffix ''_healthcheck'' (removeprefix ''get_'' raw)
      in if n \<noteq> [] then n else ''component_'' @ nat_str i)"

definition run_check :: "string \<Rightarrow> check_outcome \<Rightarrow> health_result" where
  "run_check name out =
     (case out of
        Returned c \<Rightarrow>
          (case normalize_health_component c name of
             Inr r \<Rightarrow> r | Inl x \<Rightarrow> health_result_of name H_ERROR ''Health check failed.'')
      | TimedOut \<Rightarrow> health_result_of name H_ERROR ''Health check timed out.''
      | Raised x \<Rightarrow> health_result_of name H_ERROR ''Health check failed.'')"

definition record_check :: "nat \<times> string \<times> check_outcome \<Rightarrow> (string \<times> health_result) list \<Rightarrow> (string \<times> health_result) list" where
  "record_check x results = (case x of (i, fn, out) \<Rightarrow>
     (let r = run_check (derive_component_name fn i) out in AList.update (hr_component r) r results))"

definition get_overall_health :: "(string \<times> check_outcome) list \<Rightarrow> exn + health_summary" where
  "get_overall_health checks =
     (let results = fold record_check (zip [1..<length checks + 1] checks) []
      in case aggregate_system_status (map (\<lambda>(n, r). Checked r) results) True of
           Inl x \<Rightarrow> Inl x | Inr h \<Rightarrow> Inr \<lparr>hs_status = h, hs_checks = results\<rparr>)"

text \<open>\<open>get_registered_healthchecks\<close>: the checks that take part, in their order.\<close>

definition registered_healthchecks :: "check_outcome \<Rightarrow> check_outcome \<Rightarrow> check_outcome \<Rightarrow> check_outcome \<Rightarrow>
    (string \<times> check_outcome) list" where
  "registered_healthchecks api database telegram opencode =
     [(''get_api_healthcheck'', api), (''get_database_healthcheck'', database),
      (''get_telegram_bot_healthcheck'', telegram), (''get_opencode_healthcheck'', opencode)]"

section \<open>Component checks\<close>

datatype http_probe = Answered int | TimeoutExc string | ConnectExc string | InvalidURLExc string | OtherExc string

definition result_of :: "string \<Rightarrow> health_status \<Rightarrow> string \<Rightarrow> string option \<Rightarrow> health_result" where
  "result_of c h d st = (health_result_of c h d)\<lparr>hr_state := st\<rparr>"

definition api_url :: "settings \<Rightarrow> string" where
  "api_url s = ''http://'' @ execqueue_api_host s @ '':'' @ int_str (execqueue_api_port s)"

definition get_api_healthcheck :: "settings \<Rightarrow> (string \<Rightarrow> http_probe) \<Rightarrow> health_result" where
  "get_api_healthcheck s http_get =
     (case http_get (api_url s @ ''/openapi.json'') of
        TimeoutExc m \<Rightarrow> health_result_of ''api'' H_DEGRADED ''API health check timed out.''
      | ConnectExc m \<Rightarrow> health_result_of ''api'' H_DEGRADED (''API health check failed: '' @ m)
      | InvalidURLExc m \<Rightarrow> health_result_of ''api'' H_DEGRADED (''API health check failed: '' @ m)
      | OtherExc m \<Rightarrow> health_result_of ''api'' H_DEGRADED (''API health check failed: '' @ m)
      | Answered code \<Rightarrow>
          if code = 200 then health_result_of ''api'' H_OK ''API responded successfully.''
          else health_result_of ''api'' H_DEGRADED (''API health check returned status '' @ int_str code @ ''.''))"

datatype session_probe = SessionError exn | SelectRuns | SelectFails exn

fun is_sqlalchemy_error :: "exn \<Rightarrow> bool" where
  "is_sqlalchemy_error (SQLAlchemyError m) = True"
| "is_sqlalchemy_error (IntegrityError m) = True"
| "is_sqlalchemy_error _ = False"

definition get_database_healthcheck :: "session_probe \<Rightarrow> health_result" where
  "get_database_healthcheck p =
     (case p of
        SessionError (ValueError m) \<Rightarrow>
          health_result_of ''database'' H_DEGRADED ''Database health check is not fully configured.''
      | SessionError x \<Rightarrow> health_result_of ''database'' H_DEGRADED
          ''Database health check could not initialize its database driver.''
      | SelectRuns \<Rightarrow> health_result_of ''database'' H_OK ''Database connectivity check succeeded.''
      | SelectFails x \<Rightarrow> health_result_of ''database'' H_DEGRADED
          (if is_sqlalchemy_error x then ''Database connectivity check failed.''
           else ''Database health check encountered an unexpected error.''))"

subsection \<open>OpenCode\<close>

record reachability =
  or_state :: string
  or_reachable :: bool
  or_detail :: string
  or_latency_ms :: "rat option"
  or_http_status :: "int option"

definition ends_with :: "string \<Rightarrow> string \<Rightarrow> bool" where
  "ends_with suf s = (length suf \<le> length s \<and> drop (length s - length suf) s = suf)"

definition build_probe_url :: "string \<Rightarrow> exn + string" where
  "build_probe_url base =
     (case urlsplit base of
        Inl x \<Rightarrow> Inl x
      | Inr u \<Rightarrow> Inr (if ends_with ''/health'' (rstrip_slash (u_path u)) then base
          else rstrip_slash base @ ''/health''))"

definition map_http_status_to_state :: "int \<Rightarrow> string \<times> bool \<times> string" where
  "map_http_status_to_state code =
     (if 200 \<le> code \<and> code < 300 then
        (''available'', True, ''OpenCode endpoint is available ('' @ int_str code @ '').'')
      else (''unexpected_response'', False, ''OpenCode endpoint responded unexpectedly ('' @ int_str code @ '').''))"

definition map_exception_to_state :: "http_probe \<Rightarrow> settings \<Rightarrow> string \<times> bool \<times> string" where
  "map_exception_to_state x s =
     (case x of
        TimeoutExc m \<Rightarrow> (''timeout'', False,
          ''OpenCode endpoint probe timed out after '' @ int_str (opencode_timeout_ms s) @ ''ms.'')
      | ConnectExc m \<Rightarrow> (''unreachable'', False, ''OpenCode endpoint is not reachable (connection refused).'')
      | InvalidURLExc m \<Rightarrow> (''invalid_config'', False, ''OpenCode configuration is invalid (URL malformed).'')
      | _ \<Rightarrow> (''unreachable'', False, ''OpenCode endpoint probe failed.''))"

text \<open>\<open>latency\<close> is the measured time in milliseconds, already rounded.\<close>

definition probe_opencode_endpoint :: "settings \<Rightarrow> (string \<Rightarrow> http_probe) \<Rightarrow> rat \<Rightarrow> exn + reachability" where
  "probe_opencode_endpoint s http_get latency =
     (if opencode_mode s = OM_DISABLED then
        Inr \<lparr>or_state = ''disabled'', or_reachable = False, or_detail = ''OpenCode integration is disabled.'',
          or_latency_ms = None, or_http_status = None\<rparr>
      else
        (case build_probe_url (opencode_base_url s) of
           Inl x \<Rightarrow> Inl x
         | Inr url \<Rightarrow>
             (case http_get url of
                Answered code \<Rightarrow>
                  (case map_http_status_to_state code of (st, re, det) \<Rightarrow>
                     Inr \<lparr>or_state = st, or_reachable = re, or_detail = det,
                       or_latency_ms = Some latency, or_http_status = Some code\<rparr>)
              | x \<Rightarrow>
                  (case map_exception_to_state x s of (st, re, det) \<Rightarrow>
                     Inr \<lparr>or_state = st, or_reachable = re, or_detail = det,
                       or_latency_ms = None, or_http_status = None\<rparr>))))"

definition state_to_health_status :: "string \<Rightarrow> health_status" where
  "state_to_health_status st =
     (if st = ''available'' then H_OK else if st = ''disabled'' then H_DEGRADED else H_DEGRADED)"

definition get_opencode_healthcheck :: "settings \<Rightarrow> (string \<Rightarrow> http_probe) \<Rightarrow> rat \<Rightarrow> exn + health_result" where
  "get_opencode_healthcheck s http_get latency =
     (case probe_opencode_endpoint s http_get latency of
        Inl x \<Rightarrow> Inl x
      | Inr r \<Rightarrow> Inr (result_of ''opencode'' (state_to_health_status (or_state r)) (or_detail r) (Some (or_state r))))"

subsection \<open>Telegram bot\<close>

text \<open>
  The health file: missing, unreadable, or a text that \<open>json.loads\<close> refuses or decodes. Of
  \<open>datetime.fromisoformat\<close> the outcome counts: no date, one without zone, which cannot be
  subtracted from an aware one, or a point in time.
\<close>

datatype health_file = NoFile | Unreadable exn | BadJson string | Decoded json

datatype iso_time = NotIso | Naive | Aware datetime

definition BOT_HEALTH_STALE_THRESHOLD :: int where
  "BOT_HEALTH_STALE_THRESHOLD = 60"

definition bot_stale :: "datetime \<Rightarrow> iso_time \<Rightarrow> bool" where
  "bot_stale now x = (case x of Aware t \<Rightarrow> now - t > microseconds BOT_HEALTH_STALE_THRESHOLD | _ \<Rightarrow> False)"

definition stale_bot :: "datetime \<Rightarrow> iso_time \<Rightarrow> health_result" where
  "stale_bot now x = health_result_of ''telegram_bot'' H_ERROR (''Bot health status is stale ('' @
     int_str (case x of Aware t \<Rightarrow> (now - t) div 1000000 | _ \<Rightarrow> 0) @ ''s old). Bot may have crashed.'')"

definition bot_status :: "json \<Rightarrow> exn + health_status" where
  "bot_status st =
     (case st of
        JList _ \<Rightarrow> Inl (TypeError ''unhashable type'')
      | JObj _ \<Rightarrow> Inl (TypeError ''unhashable type'')
      | _ \<Rightarrow> Inr (if st = JStr ''ok'' then H_OK else if st = JStr ''degraded'' then H_DEGRADED else H_ERROR))"

definition bot_reported :: "(string \<Rightarrow> iso_time) \<Rightarrow> datetime \<Rightarrow> (string \<times> json) list \<Rightarrow> exn + health_result" where
  "bot_reported fromisoformat now d =
     (let det = dict_get d ''detail'' (JStr ''Unknown status'');
          last = dict_get d ''last_check'' (JStr []);
          finish = (\<lambda>det. case bot_status (dict_get d ''status'' (JStr ''not_ok'')) of
              Inl x \<Rightarrow> Inl x | Inr h \<Rightarrow> new_result (JStr ''telegram_bot'') h det)
      in if \<not> truthy last then finish det
         else (case last of
             JStr l \<Rightarrow>
               (let x = fromisoformat (concat (map (\<lambda>c. if c = CHR ''Z'' then ''+00:00'' else [c]) l)) in
                if bot_stale now x then Inr (stale_bot now x)
                else finish (JStr (json_str det @ '' (last check: '' @ l @ '')'')))
           | _ \<Rightarrow> Inl (AttributeError ''object has no attribute replace'')))"

definition get_telegram_bot_healthcheck :: "(string \<Rightarrow> iso_time) \<Rightarrow> datetime \<Rightarrow> health_file \<Rightarrow> health_result" where
  "get_telegram_bot_healthcheck fromisoformat now f =
     (case f of
        NoFile \<Rightarrow> health_result_of ''telegram_bot'' H_ERROR
          ''Bot health file not found. Bot may not be running or health reporting not configured.''
      | Unreadable x \<Rightarrow> health_result_of ''telegram_bot'' H_ERROR (''Failed to read bot health: '' @ exn_str x)
      | BadJson m \<Rightarrow> health_result_of ''telegram_bot'' H_ERROR (''Bot health file contains invalid JSON: '' @ m)
      | Decoded j \<Rightarrow>
          (case (case j of JObj d \<Rightarrow> bot_reported fromisoformat now d
                 | _ \<Rightarrow> Inl (AttributeError ''object has no attribute get'')) of
             Inr r \<Rightarrow> r
           | Inl x \<Rightarrow> health_result_of ''telegram_bot'' H_ERROR (''Failed to read bot health: '' @ exn_str x)))"

section \<open>Endpoints\<close>

definition explicit_healthchecks :: "health_result \<Rightarrow> health_result \<Rightarrow> health_result \<Rightarrow> exn + health_result \<Rightarrow>
    (string \<times> health_result) list" where
  "explicit_healthchecks api database telegram opencode =
     [(''api'', api), (''database'', database), (''telegram_bot'', telegram),
      (''opencode'', case opencode of Inr r \<Rightarrow> r
         | Inl x \<Rightarrow> result_of ''opencode'' H_ERROR (''OpenCode health check failed: '' @ exn_str x) (Some ''unreachable''))]"

definition model_dump :: "health_result \<Rightarrow> json" where
  "model_dump r = JObj [(''component'', JStr (hr_component r)), (''status'', status_json (hr_status r)),
     (''detail'', case hr_detail r of None \<Rightarrow> JNull | Some d \<Rightarrow> JStr d),
     (''state'', case hr_state r of None \<Rightarrow> JNull | Some d \<Rightarrow> JStr d)]"

definition healthcheck :: "(string \<times> health_result) list \<Rightarrow> exn + json" where
  "healthcheck checks =
     (case aggregate_system_status (map (\<lambda>(n, r). Checked r) checks) True of
        Inl x \<Rightarrow> Inl x
      | Inr h \<Rightarrow> Inr (JObj [(''status'', status_json h),
          (''checks'', JObj (map (\<lambda>(n, r). (n, model_dump r)) checks))]))"

section \<open>Lemmas\<close>

text \<open>Severity orders the states linearly: \<open>OK\<close>, then \<open>DEGRADED\<close>, then \<open>ERROR\<close>.\<close>

fun health_severity :: "health_status \<Rightarrow> nat" where
  "health_severity H_OK = 0" | "health_severity H_DEGRADED = 1" | "health_severity H_ERROR = 2"

lemma health_severity_inject [simp]: "health_severity a = health_severity b \<longleftrightarrow> a = b"
  by (cases a; cases b) simp_all

instantiation health_status :: linorder
begin

definition less_eq_health_status :: "health_status \<Rightarrow> health_status \<Rightarrow> bool" where
  "less_eq_health_status a b = (health_severity a \<le> health_severity b)"

definition less_health_status :: "health_status \<Rightarrow> health_status \<Rightarrow> bool" where
  "less_health_status a b = (health_severity a < health_severity b)"

instance
  by standard (auto simp: less_eq_health_status_def less_health_status_def)

end

lemma health_bounds [simp]: "H_OK \<le> h" "h \<le> H_ERROR" "h \<le> H_DEGRADED \<longleftrightarrow> h \<noteq> H_ERROR"
  by (cases h; simp add: less_eq_health_status_def)+

lemma worst_status:
  assumes "finite A"
  shows "Max (insert H_OK A) = (if H_ERROR \<in> A then H_ERROR else if H_DEGRADED \<in> A then H_DEGRADED else H_OK)"
proof (intro Max_eqI)
  fix h assume "h \<in> insert H_OK A"
  then show "h \<le> (if H_ERROR \<in> A then H_ERROR else if H_DEGRADED \<in> A then H_DEGRADED else H_OK)"
    by (cases h) (auto simp: less_eq_health_status_def)
qed (use assms in auto)

text \<open>What a normalised result looks like, and that normalising it again changes nothing.\<close>

lemma new_result_Inr:
  "new_result c h (JStr d) = Inr r \<Longrightarrow> \<exists>n. c = JStr n \<and> r = health_result_of n h d"
  by (cases c) simp_all

lemma normalized_shape:
  assumes "normalize_health_component c fb = Inr r" "fb \<noteq> []"
  shows "hr_component r \<noteq> [] \<and> hr_detail r \<noteq> None \<and> hr_state r = None"
proof -
  obtain com st det where raw: "raw_component fb c = (com, st, det)" by (cases "raw_component fb c")
  have name: "py_or com (JStr fb) = JStr n \<Longrightarrow> n \<noteq> []" for n
    using assms(2) by (auto simp: py_or_def split: if_splits)
  have fixed: "new_result (py_or com (JStr fb)) h (JStr d) = Inr r \<Longrightarrow> ?thesis" for h d
    using new_result_Inr [of "py_or com (JStr fb)" h d r] name by (auto simp: health_result_of_def)
  show ?thesis
  proof (cases "st = JNull \<or> health_status_of st = None \<or> \<not> truthy com \<or> det = JNull")
    case True
    then show ?thesis using assms(1) fixed
      by (auto simp: normalize_health_component_def raw Let_def split: option.splits if_splits)
  next
    case False
    then obtain h where "new_result com h det = Inr r"
      using assms(1) by (auto simp: normalize_health_component_def raw Let_def)
    with False show ?thesis by (cases com; cases det) (auto simp: health_result_of_def)
  qed
qed

lemma normalize_complete [simp]:
  "hr_component r \<noteq> [] \<Longrightarrow> hr_detail r = Some d \<Longrightarrow>
    normalize_health_component (Checked r) fb = Inr (health_result_of (hr_component r) (hr_status r) d)"
  by (cases "hr_status r") (simp_all add: normalize_health_component_def Let_def)

lemma normalize_checked: "hr_component r \<noteq> [] \<Longrightarrow>
    \<exists>q. normalize_health_component (Checked r) fb = Inr q \<and> hr_component q = hr_component r"
  by (cases "hr_detail r"; cases "hr_status r")
     (simp_all add: normalize_health_component_def Let_def py_or_def health_result_of_def)

lemma normalize_again:
  assumes "normalize_health_component c fb = Inr r" "fb \<noteq> []"
  shows "normalize_health_component (Checked r) fb' = Inr r"
  using normalized_shape [OF assms]
  by (cases r) (auto simp: health_result_of_def)

lemma four_components:
  assumes n: "\<And>fb. normalize_health_component c1 fb = Inr r1" "\<And>fb. normalize_health_component c2 fb = Inr r2"
      "\<And>fb. normalize_health_component c3 fb = Inr r3" "\<And>fb. normalize_health_component c4 fb = Inr r4"
    and c: "hr_component r1 = ''api''" "hr_component r2 = ''database''" "hr_component r3 = ''telegram_bot''"
      "hr_component r4 = ''opencode''"
  shows "aggregate_system_status [c1, c2, c3, c4] True = Inr (max (hr_status r1) (max (hr_status r2) (hr_status r3)))"
proof -
  have o: "\<not> is_optional_component ''api''" "\<not> is_optional_component ''database''"
    "\<not> is_optional_component ''telegram_bot''" "is_optional_component ''opencode''" by code_simp+
  have "aggregate_system_status [c1, c2, c3, c4] True = Inr (aggregate_results True [r1, r2, r3, r4])"
    by (simp add: aggregate_system_status_def n)
  also have "\<dots> = Inr (max (hr_status r1) (max (hr_status r2) (hr_status r3)))"
    unfolding aggregate_results_def c o Let_def
    by (cases "hr_status r1"; cases "hr_status r2"; cases "hr_status r3")
       (simp_all add: c o max_def less_eq_health_status_def)
  finally show ?thesis .
qed

lemma run_check_Checked:
  assumes "hr_component r = name" "name \<noteq> []"
  shows "normalize_health_component (Checked r) fb = Inr (run_check name (Returned (Checked r))) \<and>
    hr_component (run_check name (Returned (Checked r))) = name \<and> hr_detail (run_check name (Returned (Checked r))) \<noteq> None \<and>
    hr_state (run_check name (Returned (Checked r))) = None"
  using assms
  by (cases "hr_detail r"; cases "hr_status r")
     (auto simp: run_check_def normalize_health_component_def Let_def py_or_def health_result_of_def)

lemma complete_is_normal: "hr_component r \<noteq> [] \<Longrightarrow> hr_detail r \<noteq> None \<Longrightarrow> hr_state r = None \<Longrightarrow>
    normalize_health_component (Checked r) fb = Inr r"
  by (cases r) (auto simp: health_result_of_def)

lemma component_names:
  "hr_component (get_api_healthcheck s h) = ''api''" "hr_component (get_database_healthcheck p) = ''database''"
  "get_opencode_healthcheck s h l = Inr r \<Longrightarrow> hr_component r = ''opencode''"
  by (auto simp: get_api_healthcheck_def get_database_healthcheck_def get_opencode_healthcheck_def result_of_def
      health_result_of_def split: http_probe.split session_probe.split exn.split sum.splits)

lemma telegram_component: "hr_component (get_telegram_bot_healthcheck parse now f) = ''telegram_bot''"
proof -
  have f: "(case bot_status st of Inl x \<Rightarrow> Inl x | Inr h \<Rightarrow> new_result (JStr c) h det) = Inr r \<Longrightarrow> hr_component r = c" for st c det r
    by (cases "bot_status st"; cases det) (auto simp: health_result_of_def)
  have "bot_reported parse now d = Inr r \<Longrightarrow> hr_component r = ''telegram_bot''" for d r
    unfolding bot_reported_def Let_def
    by (auto simp: stale_bot_def health_result_of_def dest: f split: if_splits json.splits)
  then show ?thesis
    by (auto simp: get_telegram_bot_healthcheck_def health_result_of_def split: health_file.split sum.split json.split)
qed

section \<open>Properties\<close>

text \<open>
  Aggregation. The status of the system is the worst one of the normalised components that
  count, and \<open>OK\<close> if none of them counts; without any component it is an error.
\<close>

theorem aggregate_is_worst:
  "aggregate_system_status cs ex =
    (case normalize_all 1 cs of
       Inl x \<Rightarrow> Inl x
     | Inr rs \<Rightarrow> Inr (if rs = [] then H_ERROR
         else Max (insert H_OK (hr_status ` {r \<in> set rs. \<not> (ex \<and> is_optional_component (hr_component r))}))))"
proof -
  have "aggregate_results ex rs = Max (insert H_OK (hr_status ` {r \<in> set rs. \<not> (ex \<and> is_optional_component (hr_component r))}))"
    if "rs \<noteq> []" for rs
  proof -
    define A where "A = {r \<in> set rs. \<not> (ex \<and> is_optional_component (hr_component r))}"
    define core where "core = (if ex then filter (\<lambda>r. \<not> is_optional_component (hr_component r)) rs else rs)"
    have c: "set core = A" by (auto simp: core_def A_def)
    have im: "(\<exists>r \<in> A. hr_status r = h) \<longleftrightarrow> h \<in> hr_status ` A" for h by auto
    have ex: "list_ex (\<lambda>r. hr_status r = h) core \<longleftrightarrow> h \<in> hr_status ` A" for h unfolding list_ex_iff c im ..
    have e: "core = [] \<longleftrightarrow> A = {}" unfolding c [symmetric] by simp
    have "aggregate_results ex rs = (if core = [] then H_OK
        else if list_ex (\<lambda>r. hr_status r = H_ERROR) core then H_ERROR
        else if list_ex (\<lambda>r. hr_status r = H_DEGRADED) core then H_DEGRADED else H_OK)"
      using that by (simp add: aggregate_results_def Let_def core_def)
    also have "\<dots> = (if H_ERROR \<in> hr_status ` A then H_ERROR
        else if H_DEGRADED \<in> hr_status ` A then H_DEGRADED else H_OK)"
      unfolding ex e by (cases "A = {}") simp_all
    also have "\<dots> = Max (insert H_OK (hr_status ` A))"
      by (rule worst_status [symmetric]) (simp add: A_def)
    finally show ?thesis unfolding A_def .
  qed
  then show ?thesis
    unfolding aggregate_system_status_def by (cases "normalize_all 1 cs") (simp_all add: aggregate_results_def)
qed

lemma registered_results:
  assumes "run_check ''api'' (Returned (Checked A)) = A" "run_check ''database'' (Returned (Checked D)) = D"
    and "run_check ''telegram_bot'' (Returned (Checked T)) = RT" "run_check ''opencode'' out = RO"
    and c: "hr_component A = ''api''" "hr_component D = ''database''" "hr_component RT = ''telegram_bot''" "hr_component RO = ''opencode''"
  shows "(let checks = registered_healthchecks (Returned (Checked A)) (Returned (Checked D)) (Returned (Checked T)) out
     in fold record_check (zip [1..<length checks + 1] checks) []) =
    [(''api'', A), (''database'', D), (''telegram_bot'', RT), (''opencode'', RO)]"
proof -
  have names: "derive_component_name ''get_api_healthcheck'' 1 = ''api''"
    "derive_component_name ''get_database_healthcheck'' 2 = ''database''"
    "derive_component_name ''get_telegram_bot_healthcheck'' 3 = ''telegram_bot''"
    "derive_component_name ''get_opencode_healthcheck'' 4 = ''opencode''" by code_simp+
  let ?checks = "registered_healthchecks (Returned (Checked A)) (Returned (Checked D)) (Returned (Checked T)) out"
  have "[1..<length ?checks + 1] = [1, 2, 3, 4]" by (simp add: registered_healthchecks_def upt_rec)
  then have z: "zip [1..<length ?checks + 1] ?checks =
      [(1, ''get_api_healthcheck'', Returned (Checked A)), (2, ''get_database_healthcheck'', Returned (Checked D)),
       (3, ''get_telegram_bot_healthcheck'', Returned (Checked T)), (4, ''get_opencode_healthcheck'', out)]"
    by (simp add: registered_healthchecks_def)
  have step: "record_check (i, fn, ou) rs = AList.update (hr_component r) r rs"
    if "run_check (derive_component_name fn i) ou = r" for i fn ou r rs
    using that by (simp add: record_check_def Let_def)
  have res: "fold record_check (zip [1..<length ?checks + 1] ?checks) [] =
      [(''api'', A), (''database'', D), (''telegram_bot'', RT), (''opencode'', RO)]"
    unfolding z fold_simps comp_def id_def
    by (simp only: step names assms(1-4)) (use c in simp)
  show ?thesis unfolding Let_def by (rule res)
qed

lemma opencode_views:
  assumes oc: "\<And>r. OC = Inr r \<Longrightarrow> hr_component r = ''opencode''"
    and RO: "RO = run_check ''opencode'' (case OC of Inl x \<Rightarrow> Raised x | Inr r \<Rightarrow> Returned (Checked r))"
  shows "hr_component RO = ''opencode'' \<and> hr_detail RO \<noteq> None \<and> hr_state RO = None"
    "hr_component (snd (explicit_healthchecks A D T OC ! 3)) = ''opencode''"
proof -
  show "hr_component RO = ''opencode'' \<and> hr_detail RO \<noteq> None \<and> hr_state RO = None"
  proof (cases OC)
    case (Inl x)
    then show ?thesis by (simp add: RO run_check_def health_result_of_def)
  next
    case (Inr r)
    with run_check_Checked [OF oc [OF Inr]] show ?thesis by (simp add: RO)
  qed
  show "hr_component (snd (explicit_healthchecks A D T OC ! 3)) = ''opencode''"
    by (cases OC) (simp_all add: explicit_healthchecks_def oc result_of_def health_result_of_def)
qed

text \<open>
  Both health views agree. Whatever the probes meet, \<open>get_overall_health\<close> and the \<open>/health\<close>
  endpoint answer without raising and with the same status: the worst of the API, the
  database and the Telegram bot, in which OpenCode has no say; all four are listed.
\<close>

theorem health_views_agree:
  "let a = get_api_healthcheck s http_get; d = get_database_healthcheck p;
       t = get_telegram_bot_healthcheck parse now f; oc = get_opencode_healthcheck s' http_get' latency;
       core = max (hr_status a) (max (hr_status d) (hr_status (run_check ''telegram_bot'' (Returned (Checked t)))))
   in \<exists>S checks. get_overall_health (registered_healthchecks (Returned (Checked a)) (Returned (Checked d))
          (Returned (Checked t)) (case oc of Inl x \<Rightarrow> Raised x | Inr r \<Rightarrow> Returned (Checked r))) = Inr S \<and>
        hs_status S = core \<and> map fst (hs_checks S) = [''api'', ''database'', ''telegram_bot'', ''opencode''] \<and>
        healthcheck (explicit_healthchecks a d t oc) =
          Inr (JObj [(''status'', status_json core), (''checks'', JObj checks)]) \<and> map fst checks = map fst (hs_checks S)"
proof -
  define A where "A = get_api_healthcheck s http_get"
  define D where "D = get_database_healthcheck p"
  define T where "T = get_telegram_bot_healthcheck parse now f"
  define OC where "OC = get_opencode_healthcheck s' http_get' latency"
  define out where "out = (case OC of Inl x \<Rightarrow> Raised x | Inr r \<Rightarrow> Returned (Checked r))"
  define RT where "RT = run_check ''telegram_bot'' (Returned (Checked T))"
  define RO where "RO = run_check ''opencode'' out"
  define E where "E = snd (explicit_healthchecks A D T OC ! 3)"
  define core where "core = max (hr_status A) (max (hr_status D) (hr_status RT))"
  have a: "run_check ''api'' (Returned (Checked A)) = A" and d: "run_check ''database'' (Returned (Checked D)) = D"
    by (auto simp: run_check_def A_def D_def get_api_healthcheck_def get_database_healthcheck_def health_result_of_def
        split: http_probe.split session_probe.split exn.split)
  have ca: "hr_component A = ''api''" "hr_component D = ''database''" "hr_component T = ''telegram_bot''"
    by (simp_all add: A_def D_def T_def component_names telegram_component)
  have some: "''api'' \<noteq> []" "''database'' \<noteq> []" "''telegram_bot'' \<noteq> []" "''opencode'' \<noteq> []" by simp_all
  note na = run_check_Checked [OF ca(1) some(1), unfolded a] and nd = run_check_Checked [OF ca(2) some(2), unfolded d]
  note nt = run_check_Checked [OF ca(3) some(3), folded RT_def]
  have oc: "hr_component r = ''opencode''" if "OC = Inr r" for r
    using component_names(3) that by (simp add: OC_def)
  note ro = opencode_views(1) [OF oc RO_def [unfolded out_def]]
  have ce: "hr_component E = ''opencode''" unfolding E_def by (rule opencode_views(2) [OF oc refl])
  have fresh: "normalize_health_component (Checked RT) fb = Inr RT" "normalize_health_component (Checked RO) fb = Inr RO" for fb
    by (rule complete_is_normal; use nt ro in simp)+
  note ne = run_check_Checked [OF ce some(4)]
  have agg1: "aggregate_system_status [Checked A, Checked D, Checked RT, Checked RO] True = Inr core"
    unfolding core_def
    by (rule four_components [OF na [THEN conjunct1] nd [THEN conjunct1] fresh ca(1,2)
        nt [THEN conjunct2, THEN conjunct1] ro [THEN conjunct1]])
  have agg2: "aggregate_system_status [Checked A, Checked D, Checked T, Checked E] True = Inr core"
    unfolding core_def
    by (rule four_components [OF na [THEN conjunct1] nd [THEN conjunct1] nt [THEN conjunct1] ne [THEN conjunct1] ca(1,2)
        nt [THEN conjunct2, THEN conjunct1] ne [THEN conjunct2, THEN conjunct1]])
  let ?checks = "registered_healthchecks (Returned (Checked A)) (Returned (Checked D)) (Returned (Checked T)) out"
  have res: "fold record_check (zip [1..<length ?checks + 1] ?checks) [] =
      [(''api'', A), (''database'', D), (''telegram_bot'', RT), (''opencode'', RO)]"
    by (rule registered_results [OF a d RT_def [symmetric] RO_def [symmetric] ca(1,2)
        nt [THEN conjunct2, THEN conjunct1] ro [THEN conjunct1], unfolded Let_def])
  define S where "S = \<lparr>hs_status = core, hs_checks = [(''api'', A), (''database'', D), (''telegram_bot'', RT), (''opencode'', RO)]\<rparr>"
  define cs where "cs = map (\<lambda>(n, r). (n, model_dump r)) (explicit_healthchecks A D T OC)"
  have e4: "explicit_healthchecks A D T OC = [(''api'', A), (''database'', D), (''telegram_bot'', T), (''opencode'', E)]"
    by (simp add: explicit_healthchecks_def E_def)
  have 1: "get_overall_health ?checks = Inr S"
    unfolding get_overall_health_def res Let_def using agg1 by (simp add: S_def)
  have 2: "healthcheck (explicit_healthchecks A D T OC) = Inr (JObj [(''status'', status_json core), (''checks'', JObj cs)])"
    using agg2 by (simp add: healthcheck_def e4 cs_def)
  have "map fst cs = map fst (hs_checks S)" by (simp add: cs_def e4 S_def)
  moreover have "hs_status S = core" "map fst (hs_checks S) = [''api'', ''database'', ''telegram_bot'', ''opencode'']"
    by (simp_all add: S_def)
  ultimately show ?thesis using 1 2
    unfolding Let_def A_def [symmetric] D_def [symmetric] T_def [symmetric] OC_def [symmetric] out_def [symmetric]
      RT_def [symmetric] core_def [symmetric]
    by - (rule exI [of _ S], rule exI [of _ cs], intro conjI, assumption+)
qed

text \<open>
  A silent bot is never healthy. A report of the Telegram bot whose time stamp lies more than
  a minute back is an error, whatever status it holds; so is a missing or broken file, and a
  status the checks do not know, as the \<open>starting\<close> that the bot writes first.
\<close>

theorem stale_bot_is_error:
  assumes "f = Decoded (JObj d)" and "dict_get d ''last_check'' (JStr []) = JStr l" "l \<noteq> []"
    and "parse (concat (map (\<lambda>c. if c = CHR ''Z'' then ''+00:00'' else [c]) l)) = Aware t" "now - t > 60000000"
  shows "hr_status (get_telegram_bot_healthcheck parse now f) = H_ERROR"
  using assms by (simp add: get_telegram_bot_healthcheck_def bot_reported_def bot_stale_def
      BOT_HEALTH_STALE_THRESHOLD_def microseconds_def stale_bot_def health_result_of_def)

theorem stale_bot_is_error_witness:
  "hr_status (get_telegram_bot_healthcheck (\<lambda>s. if s = ''1'' then Aware 0 else NotIso) 61000000
     (Decoded (JObj [(''status'', JStr ''ok''), (''last_check'', JStr ''1'')]))) = H_ERROR"
proof -
  have "dict_get [(''status'', JStr ''ok''), (''last_check'', JStr ''1'')] ''last_check'' (JStr []) = JStr ''1''" by code_simp
  then show ?thesis by (intro stale_bot_is_error [where l = "''1''" and t = 0]) simp_all
qed

end
