(* ===== verification/Telegram_Bot.thy ===== *)
theory Telegram_Bot
  imports Telegram_Users Health Task_Service
begin

text \<open>
  \<open>workers/telegram/commands.py\<close>, \<open>workers/telegram/api_client.py\<close> and \<open>workers/telegram/bot.py\<close>:
  the conversation that creates a task, the other commands, the calls of the API behind
  them, and the life of the bot process with its health and PID files. The answers of the
  API, the lookup of the user and the library of the bot are arguments; a reply is a list of
  code points. A conversation belongs to one user in one chat, and its handlers are reached
  the way \<open>ConversationHandler\<close> dispatches.
\<close>

section \<open>The API client\<close>

datatype http_result = H_Timeout | H_Fails | H_Status int "json option"

definition read_error_detail :: "json option \<Rightarrow> string option" where
  "read_error_detail body =
     (case body of
        Some (JObj d) \<Rightarrow>
          (case dict_get d ''detail'' JNull of
             JStr s \<Rightarrow> if strip s \<noteq> [] then Some (strip s) else None
           | _ \<Rightarrow> None)
      | _ \<Rightarrow> None)"

definition task_request :: "string \<Rightarrow> string \<Rightarrow> string \<Rightarrow> string option \<Rightarrow> string + (string \<times> json) list" where
  "task_request task_type prompt created_by_ref title =
     (let payload = [(''type'', JStr task_type), (''prompt'', JStr prompt), (''created_by_type'', JStr ''user''),
            (''created_by_ref'', JStr created_by_ref)]
      in if task_type = ''requirement'' then
           (let t = (if str_truthy title then strip (the title) else []) in
            if t = [] then Inl ''Requirement-Titel darf nicht leer sein.'' else Inr (payload @ [(''title'', JStr t)]))
         else Inr payload)"

definition task_answer :: "http_result \<Rightarrow> bool \<times> string" where
  "task_answer r =
     (case r of
        H_Timeout \<Rightarrow> (False, ''Zeitueberschreitung bei der Anfrage. Bitte erneut versuchen.'')
      | H_Fails \<Rightarrow> (False, ''Verbindungsfehler zum Server.'')
      | H_Status code body \<Rightarrow>
          if code = 201 then
            (case body of
               Some (JObj d) \<Rightarrow>
                 (if dict_get d ''task_number'' JNull = JNull then (True, ''Aufgabe erfolgreich erstellt.'')
                  else (True, ''Aufgabe #'' @ json_str (dict_get d ''task_number'' JNull) @ '' wurde erstellt.''))
             | _ \<Rightarrow> (False, ''Verbindungsfehler zum Server.''))
          else if code = 422 then (False, ''Ungueltige Eingabe. Bitte pruefen Sie Ihre Angaben.'')
          else (False, case read_error_detail body of Some s \<Rightarrow> s
                  | None \<Rightarrow> ''Die Aufgabe konnte nicht erstellt werden.''))"

definition status_answer :: "http_result \<Rightarrow> string + json" where
  "status_answer r =
     (case r of
        H_Timeout \<Rightarrow> Inl ''Zeitueberschreitung bei der Anfrage.''
      | H_Fails \<Rightarrow> Inl ''Verbindungsfehler zum Server.''
      | H_Status code body \<Rightarrow>
          if code = 200 then (case body of Some v \<Rightarrow> Inr v | None \<Rightarrow> Inl ''Verbindungsfehler zum Server.'')
          else if code = 404 then Inl ''Aufgabe nicht gefunden.''
          else Inl (case read_error_detail body of Some s \<Rightarrow> s | None \<Rightarrow> ''Status konnte nicht geladen werden.''))"

section \<open>Start and help\<close>

definition get_command_list :: "(string \<times> string) list" where
  "get_command_list = [(''start'', ''Start the bot and show available commands'')]"

definition get_operator_start_command_list :: "(string \<times> string) list" where
  "get_operator_start_command_list =
     [(''help'', ''Show help and usage information''), (''health'', ''Check system health status'')]"

definition command_line :: "string \<times> string \<Rightarrow> string" where
  "command_line c = ''/'' @ fst c @ '' - '' @ snd c @ [CHR 0x0A]"

definition get_start_message :: "string option \<Rightarrow> bool \<Rightarrow> code_points" where
  "get_start_message role active =
     0x1F44B # cp ('' Welcome to ExecQueue Bot!'' @ [CHR 0x0A, CHR 0x0A] @ ''Available commands:'' @ [CHR 0x0A] @
       concat (map command_line get_command_list) @
       (if active \<and> role = Some ''user'' then command_line (''help'', ''Show help and usage information'')
        else if active \<and> role \<in> {Some ''admin'', Some ''operator''} then
          command_line (''help'', ''Show help and usage information'') @
          concat (map command_line (filter (\<lambda>c. fst c \<noteq> ''help'') get_operator_start_command_list))
        else []))"

definition get_help_message :: "string option \<Rightarrow> bool \<Rightarrow> code_points" where
  "get_help_message role active =
     0x1F4D6 # cp ('' *ExecQueue Bot Help*'' @ [CHR 0x0A, CHR 0x0A]) @
     (if active then
        cp (command_line (''status <ID>'', ''Aufgabestatus abfragen'')) @
        (if role \<in> {Some ''admin'', Some ''operator''} then
           cp (command_line (''help'', ''Show help and usage information'') @
               command_line (''health'', ''Check system health status'')) @
           [10, 0x1F4DD] @ cp ('' Aufgaben:'' @ [CHR 0x0A] @ command_line (''create'', ''Neue Aufgabe erstellen'')) @
           (if role = Some ''admin'' then
              [10, 0x2699, 0xFE0F] @ cp ('' Administration:'' @ [CHR 0x0A] @ command_line (''restart'', ''System neu starten''))
            else [])
         else [])
      else cp (command_line (''start'', ''Start the bot and show available commands'')))"

section \<open>The conversation\<close>

datatype conv_state = CREATE_TASK_TYPE | CREATE_TITLE | CREATE_PROMPT | CONV_END

record user_data =
  ud_type :: "string option"
  ud_title :: "string option"
  ud_created_by_ref :: "string option"

definition no_data :: user_data where
  "no_data = \<lparr>ud_type = None, ud_title = None, ud_created_by_ref = None\<rparr>"

text \<open>What a handler returns: the next state, the data, the replies, and what it posts.\<close>

type_synonym handled = "conv_state \<times> user_data \<times> code_points list \<times> (string \<times> json) list option"

type_synonym user_lookup = "int \<Rightarrow> exn + string option \<times> bool"

definition create_start :: "user_lookup \<Rightarrow> int \<Rightarrow> user_data \<Rightarrow> exn + handled" where
  "create_start lookup uid ud =
     (case lookup uid of
        Inl x \<Rightarrow> Inl x
      | Inr (role, active) \<Rightarrow>
          Inr (if \<not> active then
              (CONV_END, ud, [0x274C # cp '' Ihr Konto ist nicht aktiv. Bitte kontaktieren Sie einen Administrator.''], None)
            else if role \<notin> {Some ''admin'', Some ''operator''} then
              (CONV_END, ud, [0x274C # cp ('' Zugriff verweigert. Dieser Befehl ist nur fuer Administratoren und '' @
                ''Operatoren verfuegbar.'')], None)
            else (CREATE_TASK_TYPE, ud\<lparr>ud_created_by_ref := Some (int_str uid)\<rparr>,
              [0x1F4DD # cp ('' *Aufgabe erstellen*'' @ [CHR 0x0A, CHR 0x0A] @ ''Welchen Typ moechten Sie erstellen?'' @
                [CHR 0x0A, CHR 0x0A] @ ''1 - Planning'' @ [CHR 0x0A] @ ''2 - Execution'' @ [CHR 0x0A] @
                ''3 - Analysis'' @ [CHR 0x0A] @ ''4 - Requirement'')], None)))"

definition ask_prompt :: code_points where
  "ask_prompt = 0x1F4DD # cp '' Bitte geben Sie den Prompt/Inhalt ein:''"

definition create_task_type :: "string \<Rightarrow> user_data \<Rightarrow> handled" where
  "create_task_type txt ud =
     (let t = strip txt in
      if t = ''1'' then (CREATE_PROMPT, ud\<lparr>ud_type := Some ''planning''\<rparr>, [ask_prompt], None)
      else if t = ''2'' then (CREATE_PROMPT, ud\<lparr>ud_type := Some ''execution''\<rparr>, [ask_prompt], None)
      else if t = ''3'' then (CREATE_PROMPT, ud\<lparr>ud_type := Some ''analysis''\<rparr>, [ask_prompt], None)
      else if t = ''4'' then (CREATE_TITLE, ud\<lparr>ud_type := Some ''requirement''\<rparr>,
        [0x1F4DD # cp '' Bitte geben Sie den Requirement-Titel ein:''], None)
      else (CREATE_TASK_TYPE, ud, [0x274C # cp '' Ungueltige Auswahl. Bitte 1, 2, 3 oder 4 eingeben.''], None))"

definition create_title :: "string \<Rightarrow> user_data \<Rightarrow> handled" where
  "create_title txt ud =
     (if strip txt = [] then (CREATE_TITLE, ud, [0x274C # cp '' Requirement-Titel darf nicht leer sein.''], None)
      else (CREATE_PROMPT, ud\<lparr>ud_title := Some (strip txt)\<rparr>, [ask_prompt], None))"

definition create_prompt :: "((string \<times> json) list \<Rightarrow> http_result) \<Rightarrow> string \<Rightarrow> user_data \<Rightarrow> handled" where
  "create_prompt post txt ud =
     (if strip txt = [] then (CREATE_PROMPT, ud, [0x274C # cp '' Inhalt darf nicht leer sein.''], None)
      else (let req = task_request (case ud_type ud of Some t \<Rightarrow> t | None \<Rightarrow> ''planning'') (strip txt)
                  (case ud_created_by_ref ud of Some r \<Rightarrow> r | None \<Rightarrow> []) (ud_title ud);
                (ok, msg) = (case req of Inl m \<Rightarrow> (False, m) | Inr p \<Rightarrow> task_answer (post p))
            in (CONV_END, no_data, [0x23F3 # cp '' Erstelle Aufgabe...'', (if ok then 0x2705 else 0x274C) # cp ('' '' @ msg)],
                case req of Inl m \<Rightarrow> None | Inr p \<Rightarrow> Some p)))"

definition create_cancel :: handled where
  "create_cancel = (CONV_END, no_data, [0x274C # cp '' Erstellung abgebrochen.''], None)"

text \<open>
  \<open>ConversationHandler\<close>: the entry point counts outside a conversation, text goes to the
  handler of the state, \<open>/cancel\<close> is the fallback; everything else is left to other handlers.
\<close>

datatype conv_input = Create_Command | Text_Message string | Cancel_Command | Other_Command

type_synonym conversation = "conv_state option \<times> user_data"

definition enter :: "handled \<Rightarrow> conversation" where
  "enter h = (case h of (st, ud, replies, posted) \<Rightarrow> (if st = CONV_END then None else Some st, ud))"

definition handle_input :: "user_lookup \<Rightarrow> ((string \<times> json) list \<Rightarrow> http_result) \<Rightarrow> int \<Rightarrow> conv_input \<Rightarrow>
    conversation \<Rightarrow> handled option" where
  "handle_input lookup post uid inp c =
     (case c of
        (None, ud) \<Rightarrow> (if inp = Create_Command then
           (case create_start lookup uid ud of Inl x \<Rightarrow> None | Inr h \<Rightarrow> Some h) else None)
      | (Some st, ud) \<Rightarrow>
          (case inp of
             Cancel_Command \<Rightarrow> Some create_cancel
           | Text_Message txt \<Rightarrow>
               (case st of
                  CREATE_TASK_TYPE \<Rightarrow> Some (create_task_type txt ud)
                | CREATE_TITLE \<Rightarrow> Some (create_title txt ud)
                | CREATE_PROMPT \<Rightarrow> Some (create_prompt post txt ud)
                | CONV_END \<Rightarrow> None)
           | _ \<Rightarrow> None))"

definition conv_step :: "(user_lookup \<times> ((string \<times> json) list \<Rightarrow> http_result) \<times> conv_input) \<Rightarrow> int \<Rightarrow>
    conversation \<Rightarrow> conversation \<times> (string \<times> json) list option" where
  "conv_step x uid c =
     (case x of (lookup, post, inp) \<Rightarrow>
       (case handle_input lookup post uid inp c of
          None \<Rightarrow> (c, None)
        | Some h \<Rightarrow> (enter h, snd (snd (snd h)))))"

fun conversation_run :: "(user_lookup \<times> ((string \<times> json) list \<Rightarrow> http_result) \<times> conv_input) list \<Rightarrow> int \<Rightarrow>
    conversation \<Rightarrow> conversation" where
  "conversation_run [] uid c = c"
| "conversation_run (x # xs) uid c = conversation_run xs uid (fst (conv_step x uid c))"

section \<open>Other commands\<close>

definition status_command :: "user_lookup \<Rightarrow> (int \<Rightarrow> http_result) \<Rightarrow> int \<Rightarrow> string list \<Rightarrow> exn + code_points list" where
  "status_command lookup get uid args =
     (case lookup uid of
        Inl x \<Rightarrow> Inl x
      | Inr (role, active) \<Rightarrow>
          if \<not> active then
            Inr [0x274C # cp '' Ihr Konto ist nicht aktiv. Bitte kontaktieren Sie einen Administrator.'']
          else if length args \<noteq> 1 then
            Inr [0x274C # cp ('' Ungueltige Verwendung: /status <Aufgabennummer>'' @ [CHR 0x0A, CHR 0x0A] @
              ''Beispiel: /status 123'')]
          else (case py_int (hd args) of
              None \<Rightarrow> Inr [0x274C # cp '' Aufgabennummer muss eine Zahl sein.'']
            | Some n \<Rightarrow>
                (case status_answer (get n) of
                   Inl m \<Rightarrow> Inr [0x23F3 # cp '' Lade Status...'', 0x274C # cp ('' '' @ m)]
                 | Inr (JObj d) \<Rightarrow> Inr [0x23F3 # cp '' Lade Status...'',
                     0x1F4CA # cp ('' *Status fuer Aufgabe #'' @ int_str n @ ''*'' @ [CHR 0x0A, CHR 0x0A] @
                       ''Status: '' @ json_str (dict_get d ''status'' (JStr ''unknown'')))]
                 | Inr v \<Rightarrow> Inl (AttributeError ''object has no attribute get''))))"

definition looked_up :: "user_lookup \<Rightarrow> int option \<Rightarrow> string option \<times> bool" where
  "looked_up lookup uid = (case uid of None \<Rightarrow> (None, False)
     | Some i \<Rightarrow> if i = 0 then (None, False) else (case lookup i of Inl x \<Rightarrow> (None, False) | Inr r \<Rightarrow> r))"

definition start_command :: "user_lookup \<Rightarrow> int option \<Rightarrow> code_points" where
  "start_command lookup uid = (case looked_up lookup uid of (role, active) \<Rightarrow> get_start_message role active)"

definition help_command :: "user_lookup \<Rightarrow> int option \<Rightarrow> code_points" where
  "help_command lookup uid = (case looked_up lookup uid of (role, active) \<Rightarrow> get_help_message role active)"

definition get_health_command_message :: "(string \<times> check_outcome) list \<Rightarrow> code_points" where
  "get_health_command_message checks =
     (let failed = 0x274C # cp ('' *Health Check Error*'' @ [CHR 0x0A, CHR 0x0A] @
            ''Unable to retrieve health status. Bitte Logs oder Health-Endpunkte pruefen.'')
      in case get_overall_health checks of
           Inl x \<Rightarrow> failed
         | Inr S \<Rightarrow> (case render_health_report (map (\<lambda>(n, r). Checked r) (hs_checks S)) of
              Inl x \<Rightarrow> failed | Inr m \<Rightarrow> m))"

text \<open>The restart request: its headers, and what the answer means.\<close>

definition restart_headers :: "settings \<Rightarrow> int option \<Rightarrow> string + (string \<times> string) list" where
  "restart_headers s uid =
     (case uid of
        Some i \<Rightarrow> Inr [(''X-Telegram-User-ID'', int_str i)]
      | None \<Rightarrow> if str_truthy (system_admin_token s) then Inr [(''X-Admin-Token'', the (system_admin_token s))]
          else Inl ''system_admin_token is not configured'')"

definition restart_error_detail :: "json option \<Rightarrow> string option" where
  "restart_error_detail body =
     (case body of
        Some (JObj d) \<Rightarrow>
          (case filter (\<lambda>s. s \<noteq> []) (concat (map (\<lambda>k. case dict_get d k JNull of JStr s \<Rightarrow> [strip s] | _ \<Rightarrow> [])
                  [''detail'', ''message''])) of
             [] \<Rightarrow> None | s # _ \<Rightarrow> Some s)
      | _ \<Rightarrow> None)"

definition restart_answer :: "http_result \<Rightarrow> bool \<times> string" where
  "restart_answer r =
     (case r of
        H_Timeout \<Rightarrow> (False, ''Restart request timed out.'')
      | H_Fails \<Rightarrow> (False, ''Restart failed due to an unexpected error.'')
      | H_Status code body \<Rightarrow>
          if code = 200 then
            (case body of
               Some (JObj d) \<Rightarrow> (True, json_str (dict_get d ''message'' (JStr ''System restart initiated successfully.'')))
             | _ \<Rightarrow> (False, ''Restart failed due to an unexpected error.''))
          else (False, ''Restart failed: '' @ (case restart_error_detail body of Some s \<Rightarrow> s | None \<Rightarrow> ''Unknown error'')))"

definition trigger_system_restart :: "settings \<Rightarrow> ((string \<times> string) list \<Rightarrow> http_result) \<Rightarrow> int option \<Rightarrow> bool \<times> string" where
  "trigger_system_restart s post uid =
     (case restart_headers s uid of Inl m \<Rightarrow> (False, m) | Inr h \<Rightarrow> restart_answer (post h))"

text \<open>The replies of \<open>/restart\<close>, and the headers of the request if one is sent.\<close>

definition restart_command :: "settings \<Rightarrow> user_lookup \<Rightarrow> ((string \<times> string) list \<Rightarrow> http_result) \<Rightarrow> int option \<Rightarrow>
    string list \<Rightarrow> code_points list \<times> (string \<times> string) list option" where
  "restart_command s lookup post uid args =
     (case looked_up lookup uid of (role, active) \<Rightarrow>
       if \<not> (active \<and> role = Some ''admin'') then
         ([cp ''Zugriff verweigert. Dieser Befehl ist nur fuer Administratoren verfuegbar.''], None)
       else if args \<noteq> [] then
         ([cp (''*Ungueltiger Parameter*'' @ [CHR 0x0A, CHR 0x0A] @ ''Verfuegbare Option:'' @ [CHR 0x0A] @
            ''/restart - System neu starten (API + Bot)'')], None)
       else (case trigger_system_restart s post uid of (ok, msg) \<Rightarrow>
          ([0x1F504 # cp ('' *System-Neustart wird vorbereitet...*'' @ [CHR 0x0A, CHR 0x0A] @
              ''Sende Anfrage an API. Dies kann einen Moment dauern.''),
            if ok then 0x2705 # cp ('' *Neustart erfolgreich ausgeloest*'' @ [CHR 0x0A, CHR 0x0A] @ msg)
            else 0x274C # cp ('' *Neustart fehlgeschlagen*'' @ [CHR 0x0A, CHR 0x0A] @ msg)],
           case restart_headers s uid of Inl m \<Rightarrow> None | Inr h \<Rightarrow> Some h)))"

section \<open>Lemmas\<close>

lemma strip_ends: "strip s = [] \<or> (\<not> is_space (hd (strip s)) \<and> \<not> is_space (last (strip s)))"
proof (cases "strip s = []")
  case False
  let ?l = "dropWhile is_space s"
  have r: "strip s = rev (dropWhile is_space (rev ?l))" by (simp add: strip_def lstrip_def rstrip_def)
  with False have ne: "dropWhile is_space (rev ?l) \<noteq> []" by simp
  then have "\<not> is_space (last (strip s))" unfolding r by (simp add: last_rev hd_dropWhile)
  moreover have "\<not> is_space (hd (strip s))"
  proof -
    obtain ys where ys: "rev ?l = ys @ dropWhile is_space (rev ?l)" by (metis takeWhile_dropWhile_id)
    then have l: "?l = strip s @ rev ys" unfolding r by (metis rev_append rev_rev_ident)
    with False have "?l \<noteq> []" "hd ?l = hd (strip s)" by simp_all
    then show ?thesis using hd_dropWhile [of is_space s] by simp
  qed
  ultimately show ?thesis by simp
qed simp

lemma strip_idem [simp]: "strip (strip s) = strip s"
proof (cases "strip s = []")
  case True
  have "strip [] = []" by (simp add: strip_def lstrip_def rstrip_def)
  with True show ?thesis by (simp only:)
qed (use strip_ends [of s] strip_solid [of "strip s"] in simp)

definition may_create :: "string option \<times> bool \<Rightarrow> bool" where
  "may_create r = (snd r \<and> fst r \<in> {Some ''admin'', Some ''operator''})"

text \<open>What the handlers keep: the data of a conversation fits its state.\<close>

definition conv_ok :: "int \<Rightarrow> conversation \<Rightarrow> bool" where
  "conv_ok uid c = (case c of
      (None, ud) \<Rightarrow> True
    | (Some st, ud) \<Rightarrow> ud_created_by_ref ud = Some (int_str uid) \<and>
        (case st of
           CREATE_TASK_TYPE \<Rightarrow> True
         | CREATE_TITLE \<Rightarrow> ud_type ud = Some ''requirement''
         | CREATE_PROMPT \<Rightarrow> ud_type ud \<in> {Some ''planning'', Some ''execution'', Some ''analysis''} \<or>
             ud_type ud = Some ''requirement'' \<and> (\<exists>t. ud_title ud = Some t \<and> t \<noteq> [] \<and> strip t = t)
         | CONV_END \<Rightarrow> False))"

lemma conv_step_ok:
  assumes "conv_ok uid c" "conv_step (lookup, post, inp) uid c = (c', p)"
  shows "conv_ok uid c'"
proof (cases c)
  case (Pair st ud)
  show ?thesis
  proof (cases st)
    case None
    with assms Pair show ?thesis
      by (auto simp: conv_step_def handle_input_def create_start_def conv_ok_def enter_def split: if_splits sum.splits)
  next
    case (Some x)
    have ok: "conv_ok uid (Some x, ud)" using assms(1) Pair Some by simp
    show ?thesis
    proof (cases inp)
      case (Text_Message tx)
      with assms(2) Pair Some ok show ?thesis
        by (cases x) (auto simp: conv_step_def handle_input_def enter_def conv_ok_def create_task_type_def create_title_def
            create_prompt_def Let_def split: if_splits prod.splits sum.splits)
    next
      case Cancel_Command
      with assms(2) Pair Some show ?thesis
        by (auto simp: conv_step_def handle_input_def enter_def create_cancel_def conv_ok_def)
    qed (use assms(2) Pair Some ok in \<open>auto simp: conv_step_def handle_input_def\<close>)
  qed
qed

lemma conversation_run_ok: "conv_ok uid c \<Longrightarrow> conv_ok uid (conversation_run ins uid c)"
proof (induction ins arbitrary: c)
  case (Cons x ins)
  obtain lookup post inp where x: "x = (lookup, post, inp)" by (cases x)
  obtain c' p where s: "conv_step x uid c = (c', p)" by (cases "conv_step x uid c")
  with conv_step_ok [OF Cons.prems] x have "conv_ok uid c'" by simp
  with Cons.IH s show ?case by simp
qed simp

text \<open>A conversation is open only if an authorised user opened it.\<close>

lemma conversation_opened:
  assumes "fst (conversation_run ins uid (None, ud)) \<noteq> None"
  shows "\<exists>lookup post r. (lookup, post, Create_Command) \<in> set ins \<and> lookup uid = Inr r \<and> may_create r"
proof -
  have "fst c \<noteq> None \<or> (\<exists>lookup post r. (lookup, post, Create_Command) \<in> set ins \<and> lookup uid = Inr r \<and> may_create r)"
    if "fst (conversation_run ins uid c) \<noteq> None" for ins c
    using that
  proof (induction ins arbitrary: c)
    case (Cons x ins)
    obtain lookup post inp where x: "x = (lookup, post, inp)" by (cases x)
    obtain c' p where s: "conv_step x uid c = (c', p)" by (cases "conv_step x uid c")
    have "fst c' \<noteq> None \<or> (\<exists>lookup post r. (lookup, post, Create_Command) \<in> set ins \<and> lookup uid = Inr r \<and> may_create r)"
      using Cons.IH [of c'] Cons.prems s by simp
    moreover have "fst c \<noteq> None \<or> inp = Create_Command \<and> (\<exists>r. lookup uid = Inr r \<and> may_create r)" if "fst c' \<noteq> None"
    proof (cases c)
      case (Pair st ud')
      then show ?thesis using s that
        by (cases st) (auto simp: x conv_step_def handle_input_def create_start_def enter_def may_create_def
            split: if_splits sum.splits)
    qed
    ultimately show ?case using x by auto
  qed simp
  from this [OF assms] show ?thesis by simp
qed

section \<open>Properties\<close>

text \<open>The body of an intake request, without an idempotency key.\<close>

definition request_body :: "task_payload \<Rightarrow> (string \<times> json) list" where
  "request_body T = [(''type'', JStr (tp_type T)), (''prompt'', JStr (tp_prompt T)),
     (''created_by_type'', JStr (tp_created_by_type T)), (''created_by_ref'', JStr (tp_created_by_ref T))] @
     (case tp_title T of None \<Rightarrow> [] | Some t \<Rightarrow> [(''title'', JStr t)])"

lemma create_prompt_posts:
  assumes "conv_ok uid (Some CREATE_PROMPT, ud)" "snd (snd (snd (create_prompt post tx ud))) = Some p"
  shows "\<exists>T. p = request_body T \<and> tp_type T \<in> {''planning'', ''execution'', ''analysis'', ''requirement''} \<and>
    tp_prompt T \<noteq> [] \<and> strip (tp_prompt T) = tp_prompt T \<and> tp_created_by_type T = ''user'' \<and>
    tp_created_by_ref T = int_str uid \<and> tp_idempotency_key T = None \<and>
    (case tp_title T of None \<Rightarrow> tp_type T \<noteq> ''requirement''
     | Some t \<Rightarrow> tp_type T = ''requirement'' \<and> t \<noteq> [] \<and> strip t = t)"
proof -
  have ne: "strip tx \<noteq> []" using assms(2) by (auto simp: create_prompt_def)
  have ref: "ud_created_by_ref ud = Some (int_str uid)" using assms(1) by (simp add: conv_ok_def)
  consider (plain) ty where "ud_type ud = Some ty" "ty \<in> {''planning'', ''execution'', ''analysis''}"
    | (req) t where "ud_type ud = Some ''requirement''" "ud_title ud = Some t" "t \<noteq> []" "strip t = t"
    using assms(1) by (auto simp: conv_ok_def)
  then show ?thesis
  proof cases
    case plain
    let ?T = "\<lparr>tp_prompt = strip tx, tp_type = ty, tp_created_by_type = ''user'', tp_created_by_ref = int_str uid,
      tp_title = None, tp_idempotency_key = None\<rparr>"
    have "ty \<noteq> ''requirement''" using plain(2) by auto
    then have "p = request_body ?T"
      using assms(2) ne ref plain(1) by (simp add: create_prompt_def task_request_def request_body_def Let_def split_beta)
    then show ?thesis using ne plain(2) \<open>ty \<noteq> ''requirement''\<close> by (intro exI [of _ ?T]) auto
  next
    case req
    let ?T = "\<lparr>tp_prompt = strip tx, tp_type = ''requirement'', tp_created_by_type = ''user'', tp_created_by_ref = int_str uid,
      tp_title = Some t, tp_idempotency_key = None\<rparr>"
    have "p = request_body ?T"
      using assms(2) ne ref req by (simp add: create_prompt_def task_request_def request_body_def Let_def split_beta str_truthy_iff)
    then show ?thesis using ne req by (intro exI [of _ ?T]) auto
  qed
qed




text \<open>
  Restarts over the bot. The bot asks for a restart exactly when the command comes without
  arguments from an active admin, and the API, reading the same table, then lets the
  request through; every other sender is refused before any request.
\<close>

theorem bot_restart_authorised:
  "case restart_command s (\<lambda>i. Inr (get_user_info us i)) post (Some i) args of (replies, req) \<Rightarrow>
     (req \<noteq> None \<longleftrightarrow> i \<noteq> 0 \<and> args = [] \<and> (\<exists>u. find_user us i = Some u \<and> tg_is_active u \<and> tg_role u = ''admin'')) \<and>
     (\<forall>h. req = Some h \<longrightarrow> require_system_admin s us None (map_of h ''X-Telegram-User-ID'') = Inr ())"
proof -
  have l: "looked_up (\<lambda>i. Inr (get_user_info us i)) (Some i) = (if i = 0 then (None, False) else get_user_info us i)"
    by (simp add: looked_up_def)
  show ?thesis
  proof (cases "i \<noteq> 0 \<and> (\<exists>u. find_user us i = Some u \<and> tg_is_active u \<and> tg_role u = ''admin'')")
    case True
    then obtain u where u: "i \<noteq> 0" "find_user us i = Some u" "tg_is_active u" "tg_role u = ''admin''" by blast
    have "looked_up (\<lambda>i. Inr (get_user_info us i)) (Some i) = (Some ''admin'', True)" using l u by (simp add: get_user_info_def)
    then have r: "snd (restart_command s (\<lambda>i. Inr (get_user_info us i)) post (Some i) args) =
        (if args = [] then Some [(''X-Telegram-User-ID'', int_str i)] else None)"
      by (simp add: restart_command_def restart_headers_def split_beta)
    have "require_system_admin s us None (Some (int_str i)) = Inr ()" by (rule header_suffices [OF u(2,3,4)])
    with r u show ?thesis by (auto simp: split_beta)
  next
    case False
    have "fst (looked_up (\<lambda>i. Inr (get_user_info us i)) (Some i)) \<noteq> Some ''admin'' \<or>
        \<not> snd (looked_up (\<lambda>i. Inr (get_user_info us i)) (Some i))"
      using False unfolding l by (auto simp: get_user_info_def split: option.splits)
    then have "snd (restart_command s (\<lambda>i. Inr (get_user_info us i)) post (Some i) args) = None"
      by (auto simp: restart_command_def split_beta)
    with False show ?thesis by (auto simp: split_beta)
  qed
qed

theorem bot_restart_authorised_witness:
  "let us = [sample_user 5 ''admin'' True]; req = snd (restart_command default_settings (\<lambda>i. Inr (get_user_info us i)) (\<lambda>_. H_Fails) (Some 5) [])
   in \<exists>h. req = Some h \<and> require_system_admin default_settings us None (map_of h ''X-Telegram-User-ID'') = Inr ()"
proof -
  let ?us = "[sample_user 5 ''admin'' True]"
  let ?r = "restart_command default_settings (\<lambda>i. Inr (get_user_info ?us i)) (\<lambda>_. H_Fails) (Some 5) []"
  have "find_user ?us 5 = Some (sample_user 5 ''admin'' True)" "tg_is_active (sample_user 5 ''admin'' True)"
    "tg_role (sample_user 5 ''admin'' True) = ''admin''" by (simp_all add: find_user_def sample_user_def new_user_def)
  with bot_restart_authorised [where s = default_settings and us = ?us and post = "\<lambda>_. H_Fails" and i = 5 and args = "[]"]
  obtain h where "snd ?r = Some h" "require_system_admin default_settings ?us None (map_of h ''X-Telegram-User-ID'') = Inr ()"
    unfolding split_beta by auto
  then show ?thesis unfolding Let_def by blast
qed

end
