(* ===== verification/Api_Service.thy ===== *)
theory Api_Service
  imports Telegram_Bot
begin

text \<open>
  The intake as its client sees it: reading a request body and writing an answer, and the
  Telegram bot at the other end of the connection. A request may be lost, and so may its answer.
  JSON arrives as it was sent, as an object.
\<close>

section \<open>Bodies and answers\<close>

text \<open>The fields of \<open>TaskCreateRequest\<close>: four strings, and two that may be missing or null.\<close>

definition str_field :: "(string \<times> json) list \<Rightarrow> string \<Rightarrow> string option" where
  "str_field b k = (case map_of b k of Some (JStr s) \<Rightarrow> Some s | _ \<Rightarrow> None)"

definition opt_field :: "(string \<times> json) list \<Rightarrow> string \<Rightarrow> string option option" where
  "opt_field b k = (case map_of b k of None \<Rightarrow> Some None | Some JNull \<Rightarrow> Some None | Some (JStr s) \<Rightarrow> Some (Some s) | _ \<Rightarrow> None)"

definition read_request :: "(string \<times> json) list \<Rightarrow> task_payload option" where
  "read_request b =
     (case (str_field b ''prompt'', str_field b ''type'', str_field b ''created_by_type'', str_field b ''created_by_ref'',
            opt_field b ''title'', opt_field b ''idempotency_key'') of
        (Some p, Some t, Some cb, Some cr, Some ti, Some k) \<Rightarrow>
          Some \<lparr>tp_prompt = p, tp_type = t, tp_created_by_type = cb, tp_created_by_ref = cr, tp_title = ti,
            tp_idempotency_key = k\<rparr>
      | _ \<Rightarrow> None)"

fun http_body :: "http_answer \<Rightarrow> http_result" where
  "http_body (Http_Created n st) = H_Status 201 (Some (JObj [(''task_number'', JInt n), (''status'', JStr st)]))"
| "http_body (Http_Ok v) = H_Status 200 (Some v)"
| "http_body (Http_Error code detail) = H_Status code (Some (JObj [(''detail'', detail)]))"

text \<open>Each request has a session of its own, which is closed afterwards.\<close>

definition serve_create :: "'g trigger \<Rightarrow> intake_db \<Rightarrow> (string \<times> json) list \<Rightarrow> db \<times> 'g \<Rightarrow> http_result \<times> db \<times> 'g" where
  "serve_create T I body dg =
     (case dg of (d, g) \<Rightarrow>
       (case read_request body of
          None \<Rightarrow> (H_Status 422 (Some (JObj [(''detail'', JStr ''validation error'')])), d, g)
        | Some p \<Rightarrow> (case intake T I p (open_session d, g) of (a, s', g') \<Rightarrow> (http_body a, close_session s', g'))))"

definition serve_status :: "db \<Rightarrow> int \<Rightarrow> http_result" where
  "serve_status d n = (case get_task_status_endpoint d n of Inl x \<Rightarrow> H_Status 500 None | Inr a \<Rightarrow> http_body a)"

section \<open>The bot and the service\<close>

text \<open>What the connection does with a request: the flag is whether the client's time runs out.\<close>

datatype delivery = Delivered | Request_Lost bool | Answer_Lost bool

fun reaches :: "delivery \<Rightarrow> bool" where
  "reaches (Request_Lost t) = False"
| "reaches _ = True"

fun transmit :: "delivery \<Rightarrow> http_result \<Rightarrow> http_result" where
  "transmit Delivered r = r"
| "transmit (Request_Lost t) r = (if t then H_Timeout else H_Fails)"
| "transmit (Answer_Lost t) r = (if t then H_Timeout else H_Fails)"

definition bot_creates :: "delivery \<Rightarrow> 'g trigger \<Rightarrow> intake_db \<Rightarrow> string \<Rightarrow> user_data \<Rightarrow> db \<times> 'g \<Rightarrow> handled \<times> db \<times> 'g" where
  "bot_creates del T I tx ud dg =
     (let h = create_prompt (\<lambda>b. transmit del (fst (serve_create T I b dg))) tx ud
      in (h, case snd (snd (snd h)) of
               None \<Rightarrow> dg
             | Some b \<Rightarrow> if reaches del then snd (serve_create T I b dg) else dg))"

definition bot_asks :: "delivery \<Rightarrow> user_lookup \<Rightarrow> int \<Rightarrow> string list \<Rightarrow> db \<Rightarrow> exn + code_points list" where
  "bot_asks del lookup uid args d = status_command lookup (\<lambda>n. transmit del (serve_status d n)) uid args"

section \<open>Lemmas\<close>

lemma read_request_body:
  "tp_idempotency_key p = None \<Longrightarrow> read_request (request_body p) = Some p"
  by (cases p) (auto simp: read_request_def request_body_def str_field_def opt_field_def split: option.split)

text \<open>No error of the intake has the code of success.\<close>

lemma intake_answers: "fst (intake T I p sg) = Http_Error c x \<Longrightarrow> c \<in> {409, 422, 500}"
proof -
  assume h: "fst (intake T I p sg) = Http_Error c x"
  have r: "requirement_error y = Http_Error c x \<Longrightarrow> c \<in> {409, 422, 500}" for y
    by (cases y) (auto simp: intake_validation_error_def idempotency_conflict_def internal_error_def split: if_splits)
  have t: "task_error y = Http_Error c x \<Longrightarrow> c \<in> {409, 422, 500}" for y
    by (cases y) (auto simp: idempotency_conflict_def internal_error_def)
  show ?thesis using h r t
    by (auto simp: intake_def create_task_endpoint_def intake_validation_error_def created_def
        split: if_splits sum.splits prod.splits)
qed

definition wait_reply :: code_points where
  "wait_reply = 0x23F3 # cp '' Erstelle Aufgabe...''"

definition result_reply :: "bool \<times> string \<Rightarrow> code_points" where
  "result_reply a = (if fst a then 0x2705 else 0x274C) # cp ('' '' @ snd a)"

text \<open>The last message of a well-typed conversation is posted, and the replies follow the answer.\<close>

lemma create_prompt_sends:
  assumes ok: "conv_ok uid (Some CREATE_PROMPT, ud)" and ne: "strip tx \<noteq> []"
  shows "\<exists>p. create_prompt post tx ud = (CONV_END, no_data,
      [wait_reply, result_reply (task_answer (post (request_body p)))], Some (request_body p)) \<and>
    tp_created_by_ref p = int_str uid \<and> tp_idempotency_key p = None"
proof -
  let ?ty = "case ud_type ud of Some t \<Rightarrow> t | None \<Rightarrow> ''planning''"
  let ?ref = "case ud_created_by_ref ud of Some r \<Rightarrow> r | None \<Rightarrow> []"
  have "\<exists>b. task_request ?ty (strip tx) ?ref (ud_title ud) = Inr b"
    using ok by (auto simp: conv_ok_def task_request_def Let_def str_truthy_iff)
  then obtain b where b: "task_request ?ty (strip tx) ?ref (ud_title ud) = Inr b" by blast
  have h: "create_prompt post tx ud = (CONV_END, no_data, [wait_reply, result_reply (task_answer (post b))], Some b)"
    using ne b by (simp add: create_prompt_def Let_def wait_reply_def result_reply_def split_beta)
  from create_prompt_posts [OF ok, of post tx b] h obtain p where
    "b = request_body p" "tp_created_by_ref p = int_str uid" "tp_idempotency_key p = None" by auto
  with h show ?thesis by auto
qed

lemma created_answer:
  "task_answer (http_body (Http_Created n st)) = (True, ''Aufgabe #'' @ int_str n @ '' wurde erstellt.'')"
  by (simp add: task_answer_def dict_get_def)

lemma refused_answer: "c \<noteq> 201 \<Longrightarrow> \<not> fst (task_answer (H_Status c b))"
  by (simp add: task_answer_def)

text \<open>What serving a creation does: it stores the task that the answer names, or nothing.\<close>

lemma serve_create_effect:
  assumes "serve_create T I body (d, g) = (r, d', g')"
  obtains (stored) p t st s1 ok s' where "read_request body = Some p" "r = http_body (Http_Created (t_task_number t) st)"
      "committed_intake p d t (committed s1)" "fire T (id_now I) (s1, g) = (ok, s', g')" "d' = committed s'"
    | (refused) c x where "r = H_Status c x" "c \<noteq> 201" "d' = d" "g' = g"
proof (cases "read_request body")
  case None
  with assms show thesis by (auto simp: serve_create_def intro: refused)
next
  case (Some p)
  obtain a s' g2 where i: "intake T I p (open_session d, g) = (a, s', g2)" by (metis prod_cases3)
  have v: "r = http_body a" "d' = committed s'" "g' = g2" using assms Some i by (auto simp: serve_create_def)
  note out = intake_outcome [OF i]
  show thesis
  proof (cases a)
    case (Http_Created n st)
    with out v Some show thesis by (auto intro: stored)
  next
    case (Http_Ok x)
    with out v show thesis by (auto intro: refused)
  next
    case (Http_Error c x)
    then have "c \<noteq> 201" using intake_answers [of T I p "(open_session d, g)" c x] i by auto
    with out v Http_Error show thesis by (auto intro: refused)
  qed
qed

lemma lost_answer: "\<not> fst (task_answer (transmit (Request_Lost x) r))" "\<not> fst (task_answer (transmit (Answer_Lost x) r))"
  by (simp_all add: task_answer_def)

section \<open>Properties\<close>


definition asking :: user_data where
  "asking = \<lparr>ud_type = Some ''analysis'', ud_title = None, ud_created_by_ref = Some (int_str 7)\<rparr>"


text \<open>
  What the bot says about a task. An active user who asks for the number of an existing task,
  and gets an answer at all, is told the status that the database holds at that moment; for any
  other number the bot reports that the task was not found.
\<close>

theorem bot_reports_status:
  assumes "tasks_ok d" and "lookup uid = Inr (role, True)" and "py_int a = Some n"
  shows "bot_asks Delivered lookup uid [a] d = Inr [0x23F3 # cp '' Lade Status...'',
    case find (\<lambda>t. t_task_number t = n) (tasks d) of
      Some t \<Rightarrow> 0x1F4CA # cp ('' *Status fuer Aufgabe #'' @ int_str n @ ''*'' @ [CHR 0x0A, CHR 0x0A] @
        ''Status: '' @ task_status_value (t_status t))
    | None \<Rightarrow> 0x274C # cp '' Aufgabe nicht gefunden.'']"
proof (cases "find (\<lambda>t. t_task_number t = n) (tasks d)")
  case None
  then have "filter (\<lambda>t. t_task_number t = n) (tasks d) = []" by (auto simp: find_None_iff filter_empty_conv)
  with None assms(2,3) show ?thesis
    by (simp add: bot_asks_def status_command_def serve_status_def get_task_status_endpoint_def get_task_status_def
        status_answer_def)
next
  case (Some t)
  have dist: "distinct (map t_task_number (tasks d))" using assms(1) by (simp add: tasks_ok_def)
  have "find P xs = Some t \<Longrightarrow> distinct (map t_task_number xs) \<Longrightarrow> (\<And>x. P x = (t_task_number x = n)) \<Longrightarrow> filter P xs = [t]" for P xs
    by (induction xs) (auto simp: filter_empty_conv image_iff split: if_splits)
  then have f: "filter (\<lambda>t. t_task_number t = n) (tasks d) = [t]" using Some dist by blast
  moreover have "t_task_number t = n" using Some by (auto simp: find_Some_iff)
  ultimately show ?thesis using Some assms(2,3)
    by (simp add: bot_asks_def status_command_def serve_status_def get_task_status_endpoint_def get_task_status_def
        status_answer_def dict_get_def)
qed

theorem bot_reports_status_witness:
  "bot_asks Delivered (\<lambda>_. Inr (Some ''user'', True)) 7 [int_str 4] sample_db =
     Inr [0x23F3 # cp '' Lade Status...'', 0x274C # cp '' Aufgabe nicht gefunden.'']"
proof -
  have "tasks_ok sample_db"
    using sample_db_wf by (simp add: tasks_ok_def keys_of_tasks_def sample_db_def sample_task_def ALLOWED_TASK_TYPES_def)
  moreover have "find (\<lambda>t. t_task_number t = 4) (tasks sample_db) = None" by code_simp
  ultimately show ?thesis using bot_reports_status [where n = 4 and a = "int_str 4" and d = sample_db and uid = 7]
    by (simp add: py_int_int_str)
qed

text \<open>
  A client that gives up does not stop the service: after a timeout the bot reports a failure,
  and a user who tries again gets a second task, since the bot sends no idempotency key.
\<close>

lemma retry_after_timeout_duplicates:
  "let (h, d, g) = bot_creates (Answer_Lost True) sample_trigger sample_intake ''do'' asking (sample_db, ([], [], []))
   in hd (last (fst (snd (snd h)))) = 0x274C \<and> length (tasks d) = length (tasks sample_db) + 1"
  by code_simp

end
