(* ===== verification/Api_Application.thy ===== *)
theory Api_Application
  imports Api_Service
begin

text \<open>
  The application of \<open>main.py\<close>, from requests to answers: the routers of
  \<open>api/router.py\<close> and \<open>api/routes/\<close>, the endpoints, the admin check that guards the restarts,
  and the state that an answer leaves behind. Which route FastAPI takes, and what the health
  probes and the operating system answer, is an argument; the pages that FastAPI adds for its
  documentation are left out.
\<close>

section \<open>Routes\<close>

datatype http_method = GET | POST

datatype segment = Fixed string | Number

datatype endpoint =
    E_Health | E_Api_Health | E_Db_Health | E_Bot_Health | E_Opencode_Health
  | E_Restart restart_route | E_Create_Task | E_Task_Status int

record route =
  rt_method :: http_method
  rt_path :: "segment list"
  rt_endpoint :: "int \<Rightarrow> endpoint"

type_synonym router = "route list"

definition route_at :: "http_method \<Rightarrow> segment list \<Rightarrow> (int \<Rightarrow> endpoint) \<Rightarrow> route" where
  "route_at m p e = \<lparr>rt_method = m, rt_path = p, rt_endpoint = e\<rparr>"

definition health_router :: router where
  "health_router =
     [route_at GET [Fixed ''health''] (\<lambda>_. E_Health),
      route_at GET [Fixed ''api'', Fixed ''health''] (\<lambda>_. E_Api_Health),
      route_at GET [Fixed ''db'', Fixed ''health''] (\<lambda>_. E_Db_Health),
      route_at GET [Fixed ''telegram-bot'', Fixed ''health''] (\<lambda>_. E_Bot_Health),
      route_at GET [Fixed ''opencode'', Fixed ''health''] (\<lambda>_. E_Opencode_Health)]"

definition system_routes_router :: router where
  "system_routes_router = health_router @
     [route_at POST [Fixed ''restart''] (\<lambda>_. E_Restart R_SYSTEM),
      route_at POST [Fixed ''api'', Fixed ''restart''] (\<lambda>_. E_Restart R_API),
      route_at POST [Fixed ''telegram_bot'', Fixed ''restart''] (\<lambda>_. E_Restart R_TELEGRAM_BOT),
      route_at POST [Fixed ''opencode'', Fixed ''restart''] (\<lambda>_. E_Restart R_OPENCODE)]"

definition with_prefix :: "segment list \<Rightarrow> router \<Rightarrow> router" where
  "with_prefix p rs = map (\<lambda>r. r\<lparr>rt_path := p @ rt_path r\<rparr>) rs"

definition future_domain_router :: router where
  "future_domain_router = with_prefix [Fixed ''api'']
     [route_at POST [Fixed ''task''] (\<lambda>_. E_Create_Task),
      route_at GET [Fixed ''task'', Number, Fixed ''status''] E_Task_Status]"

definition api_router :: router where
  "api_router = system_routes_router @ future_domain_router"

text \<open>When a path fits a template, and the segment that stands for its number.\<close>

fun fits_path :: "segment list \<Rightarrow> string list \<Rightarrow> bool" where
  "fits_path [] [] = True"
| "fits_path (Fixed s # ps) (w # ws) = (s = w \<and> fits_path ps ws)"
| "fits_path (Number # ps) (w # ws) = (w \<noteq> [] \<and> fits_path ps ws)"
| "fits_path _ _ = False"

fun number_in :: "segment list \<Rightarrow> string list \<Rightarrow> string option" where
  "number_in (Number # ps) (w # ws) = Some w"
| "number_in (Fixed s # ps) (w # ws) = number_in ps ws"
| "number_in _ _ = None"

text \<open>
  The framework chooses the endpoint, so its choice is an argument of the model. What the program
  relies on: the endpoint belongs to a route whose method and path fit, with the number read
  from the path, and a route that is the only one to fit is taken.
\<close>

datatype routed = To endpoint | Rejected int

type_synonym routing = "(string \<Rightarrow> int option) \<Rightarrow> router \<Rightarrow> http_method \<Rightarrow> string list \<Rightarrow> routed"

definition serves :: "(string \<Rightarrow> int option) \<Rightarrow> route \<Rightarrow> http_method \<Rightarrow> string list \<Rightarrow> endpoint \<Rightarrow> bool" where
  "serves as_int r m ws ep =
     (rt_method r = m \<and> fits_path (rt_path r) ws \<and>
      (case number_in (rt_path r) ws of None \<Rightarrow> ep = rt_endpoint r 0
       | Some w \<Rightarrow> (case as_int w of None \<Rightarrow> False | Some n \<Rightarrow> ep = rt_endpoint r n)))"

definition routes_as_documented :: "routing \<Rightarrow> bool" where
  "routes_as_documented R = (\<forall>as_int rs m ws ep.
     (R as_int rs m ws = To ep \<longrightarrow> (\<exists>r \<in> set rs. serves as_int r m ws ep)) \<and>
     (\<forall>r \<in> set rs. serves as_int r m ws ep \<and>
        (\<forall>r' \<in> set rs. rt_method r' = m \<and> fits_path (rt_path r') ws \<longrightarrow> r' = r) \<longrightarrow> R as_int rs m ws = To ep))"

text \<open>A routing that does so: the first route whose path and method fit; one whose path alone fits
  gives 405, and a segment that is no number gives 422.\<close>

definition dispatch_request :: routing where
  "dispatch_request as_int rs m ws =
     (case filter (\<lambda>r. fits_path (rt_path r) ws) rs of
        [] \<Rightarrow> Rejected 404
      | fitting \<Rightarrow>
          (case filter (\<lambda>r. rt_method r = m) fitting of
             [] \<Rightarrow> Rejected 405
           | r # _ \<Rightarrow>
               (case number_in (rt_path r) ws of
                  None \<Rightarrow> To (rt_endpoint r 0)
                | Some w \<Rightarrow> (case as_int w of None \<Rightarrow> Rejected 422 | Some n \<Rightarrow> To (rt_endpoint r n)))))"

text \<open>The path of a URL: the segments after the address of the service.\<close>

definition segments :: "string \<Rightarrow> string list" where
  "segments path = (case split_on CHR ''/'' path of [] \<Rightarrow> [] | w # ws \<Rightarrow> ws)"

definition status_path :: "int \<Rightarrow> string" where
  "status_path n = ''/api/task/'' @ int_str n @ ''/status''"

section \<open>Requests\<close>

record http_request =
  hq_method :: http_method
  hq_path :: "string list"
  hq_admin_token :: "string option"
  hq_user_header :: "string option"
  hq_body :: "(string \<times> json) list"

text \<open>What the endpoints find when they look around, and how \<open>int\<close> is read from a path.\<close>

record surroundings =
  su_settings :: settings
  su_route :: routing
  su_as_int :: "string \<Rightarrow> int option"
  su_api_probe :: "string \<Rightarrow> http_probe"
  su_db_probe :: session_probe
  su_isoformat :: "string \<Rightarrow> iso_time"
  su_now :: datetime
  su_bot_file :: health_file
  su_opencode_probe :: "string \<Rightarrow> http_probe"
  su_latency :: rat
  su_users :: users
  su_restart :: restart_request

section \<open>Endpoints\<close>

definition api_component_health :: "surroundings \<Rightarrow> json" where
  "api_component_health e = model_dump (get_api_healthcheck (su_settings e) (su_api_probe e))"

definition database_component_health :: "surroundings \<Rightarrow> json" where
  "database_component_health e = model_dump (get_database_healthcheck (su_db_probe e))"

definition telegram_bot_component_health :: "surroundings \<Rightarrow> json" where
  "telegram_bot_component_health e = model_dump (get_telegram_bot_healthcheck (su_isoformat e) (su_now e) (su_bot_file e))"

definition opencode_component_health :: "surroundings \<Rightarrow> exn + json" where
  "opencode_component_health e =
     (case get_opencode_healthcheck (su_settings e) (su_opencode_probe e) (su_latency e) of
        Inl x \<Rightarrow> Inl x | Inr r \<Rightarrow> Inr (model_dump r))"

definition global_health :: "surroundings \<Rightarrow> exn + json" where
  "global_health e = healthcheck (explicit_healthchecks (get_api_healthcheck (su_settings e) (su_api_probe e))
     (get_database_healthcheck (su_db_probe e)) (get_telegram_bot_healthcheck (su_isoformat e) (su_now e) (su_bot_file e))
     (get_opencode_healthcheck (su_settings e) (su_opencode_probe e) (su_latency e)))"

text \<open>An exception that no handler knows is answered by a server error.\<close>

fun answered :: "exn + json \<Rightarrow> http_result" where
  "answered (Inr v) = H_Status 200 (Some v)"
| "answered (Inl x) = H_Status 500 None"

fun restart_reply :: "api_answer \<Rightarrow> http_result" where
  "restart_reply (Answer v) = H_Status 200 (Some (JObj v))"
| "restart_reply (Refused (HTTPException code detail)) = H_Status code (Some (JObj [(''detail'', JStr detail)]))"
| "restart_reply (Refused (Crash x)) = H_Status 500 None"

section \<open>The application\<close>

text \<open>The answer, whether a restart script was started, and the state afterwards. The framework
  writes the body of a rejection, which no client here reads.\<close>

definition serve_endpoint ::
    "surroundings \<Rightarrow> 'g trigger \<Rightarrow> intake_db \<Rightarrow> http_request \<Rightarrow> db \<times> 'g \<Rightarrow> endpoint \<Rightarrow> http_result \<times> bool \<times> db \<times> 'g" where
  "serve_endpoint e T I q dg ep =
     (case ep of
        E_Health \<Rightarrow> (answered (global_health e), False, dg)
      | E_Api_Health \<Rightarrow> (answered (Inr (api_component_health e)), False, dg)
      | E_Db_Health \<Rightarrow> (answered (Inr (database_component_health e)), False, dg)
      | E_Bot_Health \<Rightarrow> (answered (Inr (telegram_bot_component_health e)), False, dg)
      | E_Opencode_Health \<Rightarrow> (answered (opencode_component_health e), False, dg)
      | E_Restart r \<Rightarrow>
          (case restart_endpoint r (su_settings e) (su_users e) (hq_admin_token q) (hq_user_header q) (su_restart e) of
             (a, started) \<Rightarrow> (restart_reply a, started, dg))
      | E_Create_Task \<Rightarrow> (case serve_create T I (hq_body q) dg of (r, dg') \<Rightarrow> (r, False, dg'))
      | E_Task_Status n \<Rightarrow> (serve_status (fst dg) n, False, dg))"

definition create_app :: "surroundings \<Rightarrow> 'g trigger \<Rightarrow> intake_db \<Rightarrow> http_request \<Rightarrow> db \<times> 'g \<Rightarrow> http_result \<times> bool \<times> db \<times> 'g" where
  "create_app e T I q dg =
     (case su_route e (su_as_int e) api_router (hq_method q) (hq_path q) of
        Rejected code \<Rightarrow> (H_Status code None, False, dg)
      | To ep \<Rightarrow> serve_endpoint e T I q dg ep)"

section \<open>Lemmas\<close>

text \<open>The global health endpoint always answers, with the worst state of the core.\<close>

lemma global_health_answers: "\<exists>v. global_health e = Inr v"
  using health_views_agree [where s = "su_settings e" and http_get = "su_api_probe e" and p = "su_db_probe e" and
      parse = "su_isoformat e" and now = "su_now e" and f = "su_bot_file e" and s' = "su_settings e" and
      http_get' = "su_opencode_probe e" and latency = "su_latency e"]
  unfolding global_health_def Let_def by blast

lemma split_on_append: "c \<notin> set w \<Longrightarrow> split_on c (w @ c # s) = w # split_on c s"
  by (induction w) auto

lemma digit_no_slash: "j < 10 \<Longrightarrow> digit_char j \<noteq> CHR ''/''"
proof
  assume j: "j < 10" "digit_char j = CHR ''/''"
  have "(of_char (digit_char j) :: nat) = 48 + j" using j(1) by (simp add: digit_char_def)
  then show False unfolding j(2) by simp
qed

lemma int_str_no_slash: "CHR ''/'' \<notin> set (int_str n)"
proof -
  have "CHR ''/'' \<notin> set (nat_str k)" for k
  proof (induction k rule: nat_str.induct)
    case (1 k)
    have "CHR ''/'' \<noteq> digit_char (k mod 10)" "k < 10 \<Longrightarrow> CHR ''/'' \<noteq> digit_char k"
      using digit_no_slash by (metis mod_less_divisor zero_less_numeral)+
    with 1 show ?case by (subst nat_str.simps) auto
  qed
  then show ?thesis by (auto simp: int_str_def)
qed

lemma status_segments: "segments (status_path n) = [''api'', ''task'', int_str n, ''status'']"
  by (simp add: segments_def status_path_def split_on_append int_str_no_slash)

text \<open>The routes of the application, with the paths that fit them.\<close>

lemma fits_one: "fits_path [Fixed a] ws \<longleftrightarrow> ws = [a]"
  by (cases ws; cases "tl ws") auto

lemma fits_two: "fits_path [Fixed a, Fixed b] ws \<longleftrightarrow> ws = [a, b]"
  by (cases ws; cases "tl ws"; cases "tl (tl ws)") auto

lemma fits_four: "fits_path [Fixed a, Fixed b, Number, Fixed c] ws \<longleftrightarrow> (\<exists>w. w \<noteq> [] \<and> ws = [a, b, w, c])"
  by (cases ws; cases "tl ws"; cases "tl (tl ws)"; cases "tl (tl (tl ws))"; cases "tl (tl (tl (tl ws)))") auto

lemmas app_routes = api_router_def system_routes_router_def health_router_def future_domain_router_def
  with_prefix_def route_at_def fits_one fits_two fits_four

text \<open>At most one route fits a request, so the order in which the routers are included is of no
  importance.\<close>

lemma one_route_fits:
  "length (filter (\<lambda>r. rt_method r = m \<and> fits_path (rt_path r) ws) api_router) \<le> 1"
proof (cases "\<exists>w. ws = [''api'', ''task'', w, ''status'']")
  case True
  then show ?thesis by (auto simp: app_routes)
next
  case False
  then have "\<not> fits_path [Fixed ''api'', Fixed ''task'', Number, Fixed ''status''] ws" by (auto simp: fits_four)
  then show ?thesis by (auto simp: app_routes)
qed

lemma routed_there:
  assumes "routes_as_documented R" "r \<in> set api_router" "serves as_int r m ws ep"
  shows "R as_int api_router m ws = To ep"
proof -
  let ?f = "filter (\<lambda>r. rt_method r = m \<and> fits_path (rt_path r) ws) api_router"
  have "r \<in> set ?f" using assms(2,3) by (simp add: serves_def)
  moreover have "length ?f \<le> 1" by (rule one_route_fits)
  ultimately have "set ?f = {r}" by (cases ?f) (auto simp del: filter_set)
  then have "\<forall>r' \<in> set api_router. rt_method r' = m \<and> fits_path (rt_path r') ws \<longrightarrow> r' = r" by auto
  with assms show ?thesis unfolding routes_as_documented_def by blast
qed

lemma api_routes:
  assumes "routes_as_documented R" "R as_int api_router m ws = To ep"
  shows "ep = E_Create_Task \<Longrightarrow> m = POST \<and> ws = [''api'', ''task'']"
    and "ep = E_Restart x \<Longrightarrow> m = POST \<and> last ws = ''restart'' \<and> length ws \<le> 2"
proof -
  have "\<exists>r \<in> set api_router. serves as_int r m ws ep"
    using assms unfolding routes_as_documented_def by blast
  then obtain r n where r: "r \<in> set api_router" "fits_path (rt_path r) ws" "rt_method r = m" "ep = rt_endpoint r n"
    by (auto simp: serves_def split: option.splits)
  show "m = POST \<and> ws = [''api'', ''task'']" if "ep = E_Create_Task"
    using r that by (auto simp: app_routes)
  show "m = POST \<and> last ws = ''restart'' \<and> length ws \<le> 2" if "ep = E_Restart x"
    using r that by (auto simp: app_routes)
qed

lemma dispatch_documented: "routes_as_documented dispatch_request"
  unfolding routes_as_documented_def
proof (intro allI conjI ballI impI)
  fix as_int and rs :: router and m ws ep
  let ?f = "filter (\<lambda>r. rt_method r = m) (filter (\<lambda>r. fits_path (rt_path r) ws) rs)"
  show "\<exists>r \<in> set rs. serves as_int r m ws ep" if h: "dispatch_request as_int rs m ws = To ep"
  proof -
    obtain r rest where f: "?f = r # rest" "(case number_in (rt_path r) ws of None \<Rightarrow> To (rt_endpoint r 0)
        | Some w \<Rightarrow> (case as_int w of None \<Rightarrow> Rejected 422 | Some n \<Rightarrow> To (rt_endpoint r n))) = To ep"
      using h unfolding dispatch_request_def by (simp split: list.splits del: filter_filter)
    then have "r \<in> set ?f" by simp
    then have "r \<in> set rs \<and> rt_method r = m \<and> fits_path (rt_path r) ws" by simp
    with f(2) show ?thesis by (auto simp: serves_def split: option.splits)
  qed
  fix r
  assume r: "r \<in> set rs" and s: "serves as_int r m ws ep \<and>
    (\<forall>r' \<in> set rs. rt_method r' = m \<and> fits_path (rt_path r') ws \<longrightarrow> r' = r)"
  have fit: "rt_method r = m" "fits_path (rt_path r) ws" using s [THEN conjunct1] by (simp_all add: serves_def)
  have only: "x = r" if "x \<in> set ?f" for x using s [THEN conjunct2] that by simp
  have "r \<in> set ?f" using r fit by simp
  then obtain y rest where y: "?f = y # rest" by (metis list.set_cases)
  have "y = r" by (rule only) (simp add: y del: filter_filter)
  then have f: "?f = r # rest" using y by (simp del: filter_filter)
  then obtain x xs where x: "filter (\<lambda>r. fits_path (rt_path r) ws) rs = x # xs"
    by (cases "filter (\<lambda>r. fits_path (rt_path r) ws) rs") (simp_all del: filter_filter)
  have "(case number_in (rt_path r) ws of None \<Rightarrow> To (rt_endpoint r 0)
      | Some w \<Rightarrow> (case as_int w of None \<Rightarrow> Rejected 422 | Some n \<Rightarrow> To (rt_endpoint r n))) = To ep"
    using s [THEN conjunct1] unfolding serves_def by (auto split: option.splits)
  then show "dispatch_request as_int rs m ws = To ep"
    using f unfolding dispatch_request_def x by (simp only: list.case)
qed

text \<open>The requests of the bot reach the endpoints they are meant for.\<close>

lemma bot_requests_served:
  assumes "routes_as_documented (su_route e)"
  shows "hq_method q = POST \<Longrightarrow> hq_path q = segments ''/api/task'' \<Longrightarrow>
     create_app e T I q dg = (case serve_create T I (hq_body q) dg of (r, dg') \<Rightarrow> (r, False, dg'))"
    and "hq_method q = GET \<Longrightarrow> hq_path q = segments (status_path n) \<Longrightarrow> su_as_int e (int_str n) = Some n \<Longrightarrow>
     create_app e T I q dg = (serve_status (fst dg) n, False, dg)"
proof -
  note there = routed_there [OF assms]
  let ?r = "route_at POST [Fixed ''api'', Fixed ''task''] (\<lambda>_. E_Create_Task)"
  assume q: "hq_method q = POST" "hq_path q = segments ''/api/task''"
  have "?r \<in> set api_router" by (simp add: app_routes)
  from there [OF this, of "su_as_int e" POST "segments ''/api/task''" E_Create_Task]
  have "su_route e (su_as_int e) api_router POST (segments ''/api/task'') = To E_Create_Task"
    by (simp add: serves_def route_at_def segments_def)
  with q show "create_app e T I q dg = (case serve_create T I (hq_body q) dg of (r, dg') \<Rightarrow> (r, False, dg'))"
    by (simp add: create_app_def serve_endpoint_def)
next
  note there = routed_there [OF assms]
  let ?r = "route_at GET [Fixed ''api'', Fixed ''task'', Number, Fixed ''status''] E_Task_Status"
  assume q: "hq_method q = GET" "hq_path q = segments (status_path n)" and n: "su_as_int e (int_str n) = Some n"
  have ne: "int_str n \<noteq> []" by (cases "n < 0") (simp_all add: int_str_def)
  have "?r \<in> set api_router" by (simp add: app_routes)
  from there [OF this, of "su_as_int e" GET "segments (status_path n)" "E_Task_Status n"]
  have "su_route e (su_as_int e) api_router GET (segments (status_path n)) = To (E_Task_Status n)"
    unfolding status_segments by (simp add: serves_def route_at_def n ne)
  with q show "create_app e T I q dg = (serve_status (fst dg) n, False, dg)"
    by (simp add: create_app_def serve_endpoint_def)
qed

section \<open>Properties\<close>


definition sample_surroundings :: surroundings where
  "sample_surroundings = \<lparr>su_settings = default_settings, su_route = dispatch_request, su_as_int = py_int, su_api_probe = (\<lambda>_. Answered 200),
     su_db_probe = SelectRuns, su_isoformat = (\<lambda>_. NotIso), su_now = 0, su_bot_file = NoFile,
     su_opencode_probe = (\<lambda>_. Answered 200), su_latency = 0, su_users = [sample_user 5 ''admin'' True],
     su_restart = \<lparr>rq_script_exists = True, rq_popen = OsOk, rq_pid = 9, rq_log = OsError ''disk full''\<rparr>\<rparr>"

definition sample_request :: http_request where
  "sample_request = \<lparr>hq_method = POST, hq_path = segments ''/api/task'', hq_admin_token = None, hq_user_header = None,
     hq_body = [(''prompt'', JStr ''do''), (''type'', JStr ''analysis''), (''created_by_type'', JStr ''user''),
       (''created_by_ref'', JStr ''7'')]\<rparr>"


text \<open>A health question is always answered, and with no effect.\<close>

lemma health_is_readable:
  assumes "routes_as_documented (su_route e)" and "hq_method q = GET" and "hq_path q = [''health'']"
  shows "\<exists>v. create_app e T I q dg = (H_Status 200 (Some v), False, dg)"
proof -
  obtain v where "global_health e = Inr v" using global_health_answers by blast
  moreover have "route_at GET [Fixed ''health''] (\<lambda>_. E_Health) \<in> set api_router" by (simp add: app_routes)
  from routed_there [OF assms(1) this, of "su_as_int e" GET "[''health'']" E_Health]
  have "su_route e (su_as_int e) api_router GET [''health''] = To E_Health" by (simp add: serves_def route_at_def)
  ultimately show ?thesis using assms(2,3) by (simp add: create_app_def serve_endpoint_def)
qed

section \<open>A restart over the bot\<close>

definition restart_http :: "(string \<times> string) list \<Rightarrow> http_request" where
  "restart_http h = \<lparr>hq_method = POST, hq_path = segments ''/restart'', hq_admin_token = map_of h ''X-Admin-Token'',
     hq_user_header = map_of h ''X-Telegram-User-ID'', hq_body = []\<rparr>"

definition bot_restarts ::
    "delivery \<Rightarrow> surroundings \<Rightarrow> 'g trigger \<Rightarrow> intake_db \<Rightarrow> int \<Rightarrow> string list \<Rightarrow> db \<times> 'g \<Rightarrow> code_points list \<times> bool" where
  "bot_restarts del e T I uid args dg =
     (case restart_command (su_settings e) (\<lambda>i. Inr (get_user_info (su_users e) i))
             (\<lambda>h. transmit del (fst (create_app e T I (restart_http h) dg))) (Some uid) args of
        (replies, req) \<Rightarrow>
          (replies, case req of None \<Rightarrow> False
             | Some h \<Rightarrow> reaches del \<and> fst (snd (create_app e T I (restart_http h) dg))))"

definition announces_restart :: "code_points list \<Rightarrow> bool" where
  "announces_restart replies = (\<exists>m. last replies = 0x2705 # m \<and> replies \<noteq> [])"

lemma restart_over_http:
  assumes "routes_as_documented (su_route e)"
  shows "create_app e T I (restart_http h) dg =
     (case restart_endpoint R_SYSTEM (su_settings e) (su_users e) (map_of h ''X-Admin-Token'')
        (map_of h ''X-Telegram-User-ID'') (su_restart e) of (a, started) \<Rightarrow> (restart_reply a, started, dg))"
proof -
  have "route_at POST [Fixed ''restart''] (\<lambda>_. E_Restart R_SYSTEM) \<in> set api_router" by (simp add: app_routes)
  from routed_there [OF assms this, of "su_as_int e" POST "[''restart'']" "E_Restart R_SYSTEM"]
  have "su_route e (su_as_int e) api_router POST [''restart''] = To (E_Restart R_SYSTEM)" by (simp add: serves_def route_at_def)
  then show ?thesis by (simp add: create_app_def restart_http_def segments_def serve_endpoint_def)
qed

lemma restart_answer_ok:
  "fst (restart_answer (restart_reply a)) \<longleftrightarrow> (\<exists>v. a = Answer v) \<or> (\<exists>x. a = Refused (HTTPException 200 x))"
proof (cases a)
  case (Refused x)
  then show ?thesis by (cases x) (auto simp: restart_answer_def)
qed (simp add: restart_answer_def)

lemma script_answers:
  "fst (execute_restart_script r n) = Refused (HTTPException c x) \<Longrightarrow> c \<in> {403, 500}"
  "fst (execute_restart_script r n) = Answer v \<Longrightarrow> snd (execute_restart_script r n) \<and> rq_log r = OsOk"
  "snd (execute_restart_script r n) \<Longrightarrow> rq_log r = OsOk \<Longrightarrow> \<exists>v. fst (execute_restart_script r n) = Answer v"
  by (auto simp: execute_restart_script_def start_failed_def split: if_splits os_outcome.splits)

text \<open>What the command of an active admin does.\<close>

lemma admin_restarts:
  assumes doc: "routes_as_documented (su_route e)"
    and u: "find_user (su_users e) uid = Some u" "tg_is_active u" "tg_role u = ''admin''" and "uid \<noteq> 0"
  defines "a \<equiv> execute_restart_script (su_restart e) (route_service R_SYSTEM)"
  shows "announces_restart (fst (bot_restarts del e T I uid [] dg)) \<longleftrightarrow> fst (restart_answer (transmit del (restart_reply (fst a))))"
    and "snd (bot_restarts del e T I uid [] dg) \<longleftrightarrow> reaches del \<and> snd a"
proof -
  have l: "looked_up (\<lambda>i. Inr (get_user_info (su_users e) i)) (Some uid) = (Some ''admin'', True)"
    using u \<open>uid \<noteq> 0\<close> by (simp add: looked_up_def get_user_info_def)
  have adm: "require_system_admin (su_settings e) (su_users e) None (Some (int_str uid)) = Inr ()"
    by (rule header_suffices [OF u])
  have c: "create_app e T I (restart_http [(''X-Telegram-User-ID'', int_str uid)]) dg = (restart_reply (fst a), snd a, dg)"
    by (simp add: restart_over_http [OF doc] restart_endpoint_def adm a_def split_beta)
  show "announces_restart (fst (bot_restarts del e T I uid [] dg)) \<longleftrightarrow> fst (restart_answer (transmit del (restart_reply (fst a))))"
    by (simp add: l bot_restarts_def restart_command_def announces_restart_def trigger_system_restart_def
        restart_headers_def c split_beta)
  show "snd (bot_restarts del e T I uid [] dg) \<longleftrightarrow> reaches del \<and> snd a"
    by (simp add: l bot_restarts_def restart_command_def restart_headers_def c split_beta)
qed

lemma other_restarts:
  assumes "\<not> (uid \<noteq> 0 \<and> args = [] \<and> (\<exists>u. find_user (su_users e) uid = Some u \<and> tg_is_active u \<and> tg_role u = ''admin''))"
  shows "\<not> snd (bot_restarts del e T I uid args dg)" "\<not> announces_restart (fst (bot_restarts del e T I uid args dg))"
proof -
  have "\<not> (snd l \<and> fst l = Some ''admin'') \<or> args \<noteq> []"
    if "l = looked_up (\<lambda>i. Inr (get_user_info (su_users e) i)) (Some uid)" for l
    using assms unfolding that by (auto simp: looked_up_def get_user_info_def split: option.splits)
  then show "\<not> snd (bot_restarts del e T I uid args dg)" "\<not> announces_restart (fst (bot_restarts del e T I uid args dg))"
    by (auto simp: bot_restarts_def restart_command_def announces_restart_def cp_def split_beta)
qed

text \<open>
  What the bot says about a restart. Only an active admin can start the script over the bot. If
  the bot announces the restart, the script has been started; if the script has been started,
  the bot announces it, with two exceptions: the answer was lost, or the line could not be
  written to the log file.
\<close>

theorem bot_restart_is_true:
  assumes "routes_as_documented (su_route e)"
  shows "case bot_restarts del e T I uid args dg of (replies, started) \<Rightarrow>
     (started \<longrightarrow> (\<exists>u. find_user (su_users e) uid = Some u \<and> tg_is_active u \<and> tg_role u = ''admin'') \<and> args = []) \<and>
     (announces_restart replies \<longrightarrow> started) \<and>
     (started \<and> \<not> announces_restart replies \<longrightarrow> (\<exists>x. del = Answer_Lost x) \<or> rq_log (su_restart e) \<noteq> OsOk)"
proof (cases "uid \<noteq> 0 \<and> args = [] \<and> (\<exists>u. find_user (su_users e) uid = Some u \<and> tg_is_active u \<and> tg_role u = ''admin'')")
  case False
  from other_restarts [OF this, of del T I dg] show ?thesis by (simp add: split_beta)
next
  case True
  then obtain u where u: "find_user (su_users e) uid = Some u" "tg_is_active u" "tg_role u = ''admin''" "uid \<noteq> 0" by blast
  have args: "args = []" using True by blast
  note s = script_answers [of "su_restart e" "route_service R_SYSTEM"]
  show ?thesis unfolding split_beta args admin_restarts [OF assms u] using u(1-3) s
    by (cases del) (auto simp: restart_answer_ok, auto simp: restart_answer_def)
qed

text \<open>The second exception: the script runs, and the admin is told that the restart failed.\<close>

lemma restart_reported_as_failed:
  "snd (bot_restarts Delivered sample_surroundings T I 5 [] dg) \<and>
   \<not> announces_restart (fst (bot_restarts Delivered sample_surroundings T I 5 [] dg))"
proof -
  have u: "find_user (su_users sample_surroundings) 5 = Some (sample_user 5 ''admin'' True)"
    "tg_is_active (sample_user 5 ''admin'' True)" "tg_role (sample_user 5 ''admin'' True) = ''admin''" "(5 :: int) \<noteq> 0"
    by (simp_all add: sample_surroundings_def find_user_def sample_user_def new_user_def)
  have doc: "routes_as_documented (su_route sample_surroundings)" using dispatch_documented by (simp add: sample_surroundings_def)
  show ?thesis unfolding admin_restarts [OF doc u]
    by (simp add: sample_surroundings_def execute_restart_script_def start_failed_def restart_answer_def)
qed

end
