(* ===== verification/Sse_Handler.thy ===== *)
theory Sse_Handler
  imports Opencode_Client
begin

text \<open>
  \<open>runner/sse_handler.py\<close>: the normalisation of the events of the OpenCode stream, the
  truncation of large payloads, the detection of duplicates after a reconnect and the
  numbering of what is passed on. The time of receipt is an argument.
\<close>

section \<open>The JSON encoder\<close>

text \<open>\<open>json.dumps\<close> with its default settings: ASCII only, and blanks after separators.\<close>

fun dump_char :: "char \<Rightarrow> string" where
  "dump_char c =
     (if c = CHR 0x22 then [CHR 0x5C, CHR 0x22]
      else if c = CHR 0x5C then [CHR 0x5C, CHR 0x5C]
      else if c = CHR 0x0A then [CHR 0x5C, CHR ''n'']
      else if c = CHR 0x0D then [CHR 0x5C, CHR ''r'']
      else if c = CHR 0x09 then [CHR 0x5C, CHR ''t'']
      else if c = CHR 0x08 then [CHR 0x5C, CHR ''b'']
      else if c = CHR 0x0C then [CHR 0x5C, CHR ''f'']
      else if (of_char c :: nat) < 32 \<or> (of_char c :: nat) > 126
        then [CHR 0x5C, CHR ''u''] @ hex_str 4 (of_char c)
      else [c])"

definition dump_str :: "string \<Rightarrow> string" where
  "dump_str s = [CHR 0x22] @ concat (map dump_char s) @ [CHR 0x22]"

fun json_dumps :: "json \<Rightarrow> string" where
  "json_dumps JNull = ''null''"
| "json_dumps (JBool b) = (if b then ''true'' else ''false'')"
| "json_dumps (JInt i) = int_str i"
| "json_dumps (JStr s) = dump_str s"
| "json_dumps (JList xs) = ''['' @ join_with '', '' (map json_dumps xs) @ '']''"
| "json_dumps (JObj d) = ''{'' @ join_with '', '' (map (\<lambda>(k, v). dump_str k @ '': '' @ json_dumps v) d) @ ''}''"

section \<open>Normalised events\<close>

definition MAX_PAYLOAD_SIZE :: nat where
  "MAX_PAYLOAD_SIZE = 1024"

record normalized_event =
  ne_event_type :: string
  ne_message_id :: json
  ne_session_id :: json
  ne_payload :: "(string \<times> json) list"
  ne_sequence :: int
  ne_received_at :: datetime
  ne_is_heartbeat :: bool

text \<open>\<open>NormalizedEvent.__post_init__\<close>.\<close>

definition truncate_payload :: "(string \<times> json) list \<Rightarrow> (string \<times> json) list" where
  "truncate_payload p = (let s = json_dumps (JObj p) in
     if p \<noteq> [] \<and> length s > MAX_PAYLOAD_SIZE then
       [(''_truncated'', JBool True), (''_original_size'', JInt (int (length s))),
        (''_content'', JStr (take (MAX_PAYLOAD_SIZE - 100) s @ ''...[truncated]''))]
     else p)"

section \<open>SSEEventHandler\<close>

definition HEARTBEAT_EVENT_TYPES :: "string list" where
  "HEARTBEAT_EVENT_TYPES = [''heartbeat'', ''stream.heartbeat'']"

definition TERMINAL_EVENT_TYPES :: "string list" where
  "TERMINAL_EVENT_TYPES = [''message.completed'', ''message.failed'', ''message.cancelled'',
     ''execution.completed'', ''execution.failed'']"

text \<open>
  The state of a handler; \<open>ss_seen\<close> is a set of identifiers, held as a list without
  repetitions. The client passes on only events whose data are a dictionary
  (\<open>client_events_have_objects\<close> below).
\<close>

record sse_state =
  ss_sequence :: int
  ss_seen :: "json list"
  ss_terminal :: bool

definition init_handler :: sse_state where
  "init_handler = \<lparr>ss_sequence = 0, ss_seen = [], ss_terminal = False\<rparr>"

fun event_data :: "opencode_event \<Rightarrow> (string \<times> json) list" where
  "event_data e = (case oe_data e of JObj d \<Rightarrow> d | _ \<Rightarrow> [])"

definition json_or :: "json \<Rightarrow> json \<Rightarrow> json" where
  "json_or a b = (if truthy a then a else b)"

definition normalize_event :: "datetime \<Rightarrow> int \<Rightarrow> opencode_event \<Rightarrow> normalized_event" where
  "normalize_event now sequ e = (let d = event_data e in
     \<lparr>ne_event_type = oe_type e,
      ne_message_id = json_or (json_or (oe_message_id e) (dict_get d ''id'' JNull)) (dict_get d ''message_id'' JNull),
      ne_session_id = json_or (oe_session_id e) (dict_get d ''session_id'' JNull),
      ne_payload = truncate_payload d, ne_sequence = sequ, ne_received_at = now,
      ne_is_heartbeat = (oe_type e \<in> set HEARTBEAT_EVENT_TYPES)\<rparr>)"

text \<open>The identifier of an event, as a member of a Python set: \<open>True\<close> and \<open>1\<close> are the same.\<close>

definition event_id :: "opencode_event \<Rightarrow> json" where
  "event_id e = (let d = event_data e in
     if dict_has d ''id'' then dict_get d ''id'' JNull
     else if dict_has d ''message_id'' then dict_get d ''message_id'' JNull else JNull)"

fun hash_key :: "json \<Rightarrow> exn + json" where
  "hash_key (JList _) = Inl (TypeError ''unhashable type: list'')"
| "hash_key (JObj _) = Inl (TypeError ''unhashable type: dict'')"
| "hash_key (JBool b) = Inr (JInt (if b then 1 else 0))"
| "hash_key v = Inr v"

definition is_duplicate :: "opencode_event \<Rightarrow> json list \<Rightarrow> exn + bool \<times> json list" where
  "is_duplicate e seen =
     (if truthy (event_id e) then
        (case hash_key (event_id e) of
           Inl x \<Rightarrow> Inl x
         | Inr k \<Rightarrow>
             if k \<in> set seen then Inr (True, seen)
             else (let seen' = k # seen in Inr (False, if length seen' > 100 then [] else seen')))
      else Inr (False, seen))"

definition is_terminal_event :: "opencode_event \<Rightarrow> bool" where
  "is_terminal_event e = (oe_type e \<in> set TERMINAL_EVENT_TYPES)"

text \<open>
  The loop over the raw events: what is yielded, what is raised, and the handler's state at
  the end. \<open>broken\<close> is what the client raises after the last event, if anything.
\<close>

fun stream_internal :: "datetime \<Rightarrow> client_exn option \<Rightarrow> opencode_event list \<Rightarrow> sse_state \<Rightarrow>
    normalized_event list \<times> client_exn option \<times> sse_state" where
  "stream_internal now broken [] s = ([], broken, s)"
| "stream_internal now broken (e # es) s =
     (let s1 = (if is_terminal_event e then s\<lparr>ss_terminal := True\<rparr> else s) in
      case is_duplicate e (ss_seen s1) of
        Inl x \<Rightarrow> ([], Some (PyExn x), s1)
      | Inr (True, seen) \<Rightarrow> stream_internal now broken es (s1\<lparr>ss_seen := seen\<rparr>)
      | Inr (False, seen) \<Rightarrow>
          (case stream_internal now broken es (s1\<lparr>ss_seen := seen, ss_sequence := ss_sequence s1 + 1\<rparr>) of
             (ns, x, t) \<Rightarrow> (normalize_event now (ss_sequence s1) e # ns, x, t)))"

text \<open>
  The public \<open>stream_events\<close> hands the generator to \<open>asyncio.create_task\<close>, which takes
  coroutines only.
\<close>

datatype awaitable = Coroutine | AsyncGenerator

fun asyncio_create_task :: "awaitable \<Rightarrow> exn + unit" where
  "asyncio_create_task Coroutine = Inr ()"
| "asyncio_create_task AsyncGenerator = Inl (TypeError ''a coroutine was expected, got an async_generator'')"

definition stream_events :: "datetime \<Rightarrow> client_exn option \<Rightarrow> opencode_event list \<Rightarrow> sse_state \<Rightarrow>
    normalized_event list \<times> client_exn option \<times> sse_state" where
  "stream_events now broken es s = (case asyncio_create_task AsyncGenerator of
       Inl x \<Rightarrow> ([], Some (PyExn x), s)
     | Inr _ \<Rightarrow> stream_internal now broken es s)"

definition get_heartbeat_info :: "(datetime \<Rightarrow> string) \<Rightarrow> normalized_event \<Rightarrow> exn + (string \<times> json) list" where
  "get_heartbeat_info isofmt n = (if \<not> ne_is_heartbeat n then Inl (ValueError ''Event is not a heartbeat'')
     else Inr [(''event_type'', JStr (ne_event_type n)), (''received_at'', JStr (isofmt (ne_received_at n))),
       (''sequence'', JInt (ne_sequence n)), (''payload'', JObj (ne_payload n))])"

definition reset_sequence :: "sse_state \<Rightarrow> sse_state" where
  "reset_sequence s = s\<lparr>ss_sequence := 0, ss_seen := [], ss_terminal := False\<rparr>"

section \<open>Lemmas\<close>

lemma client_events_have_objects: "e \<in> set (fst (parse_sse loads ty ls)) \<Longrightarrow> \<exists>d. oe_data e = JObj d"
proof (induction ls arbitrary: ty)
  case (Cons l ls)
  have obj: "sse_event loads t s = Inr x \<Longrightarrow> \<exists>d. oe_data x = JObj d" for t s x
    by (auto simp: sse_event_def split: option.splits json.splits)
  from Cons show ?case
    by (auto split: if_splits option.splits sum.splits prod.splits dest: obj simp del: prefix_code)
       (metis fst_conv)+
qed simp

lemma is_duplicate_cases:
  "is_duplicate e seen = Inr (dup, seen') \<Longrightarrow> distinct seen \<Longrightarrow> length seen \<le> 100 \<Longrightarrow>
    distinct seen' \<and> length seen' \<le> 100 \<and> (dup \<longrightarrow> seen' = seen)"
  by (auto simp: is_duplicate_def Let_def split: if_splits sum.splits)

lemma stream_numbers:
  "stream_internal now broken es s = (ns, x, t) \<Longrightarrow>
    map ne_sequence ns = map (\<lambda>i. ss_sequence s + int i) [0..<length ns] \<and>
    ss_sequence t = ss_sequence s + int (length ns)"
proof (induction es arbitrary: s ns x t)
  case (Cons e es)
  let ?s1 = "if is_terminal_event e then s\<lparr>ss_terminal := True\<rparr> else s"
  have sq: "ss_sequence ?s1 = ss_sequence s" by simp
  show ?case
  proof (cases "is_duplicate e (ss_seen ?s1)")
    case (Inl y)
    with Cons.prems show ?thesis by (auto simp: Let_def)
  next
    case (Inr r)
    obtain dup seen where r: "r = (dup, seen)" by (cases r)
    show ?thesis
    proof (cases dup)
      case True
      with Cons.prems Inr r have "stream_internal now broken es (?s1\<lparr>ss_seen := seen\<rparr>) = (ns, x, t)"
        by (simp only: stream_internal.simps Let_def sum.case prod.case bool.case)
      from Cons.IH [OF this] sq show ?thesis by simp
    next
      case False
      let ?s2 = "?s1\<lparr>ss_seen := seen, ss_sequence := ss_sequence ?s1 + 1\<rparr>"
      obtain ms y u where m: "stream_internal now broken es ?s2 = (ms, y, u)"
        by (cases "stream_internal now broken es ?s2")
      with Cons.prems Inr r False have n: "ns = normalize_event now (ss_sequence s) e # ms" "x = y" "t = u"
        by (auto simp: Let_def)
      have "map ne_sequence ms = map (\<lambda>i. ss_sequence s + 1 + int i) [0..<length ms]"
          "ss_sequence u = ss_sequence s + 1 + int (length ms)"
        using Cons.IH [OF m] sq by simp_all
      then show ?thesis
        by (simp add: n normalize_event_def Let_def upt_conv_Cons map_Suc_upt [symmetric] o_def algebra_simps
            del: upt_Suc)
    qed
  qed
qed simp

text \<open>
  The reference for the deduplication: the first delivery of every identifier, and all
  events without one.
\<close>

definition event_key :: "opencode_event \<Rightarrow> json" where
  "event_key e = (case hash_key (event_id e) of Inl _ \<Rightarrow> JNull | Inr k \<Rightarrow> k)"

definition identified :: "opencode_event list \<Rightarrow> opencode_event list" where
  "identified es = filter (\<lambda>e. truthy (event_id e)) es"

fun first_deliveries :: "json list \<Rightarrow> opencode_event list \<Rightarrow> opencode_event list" where
  "first_deliveries seen [] = []"
| "first_deliveries seen (e # es) =
     (if \<not> truthy (event_id e) then e # first_deliveries seen es
      else if event_key e \<in> set seen then first_deliveries seen es
      else e # first_deliveries (event_key e # seen) es)"

fun number_events :: "datetime \<Rightarrow> int \<Rightarrow> opencode_event list \<Rightarrow> normalized_event list" where
  "number_events now n [] = []"
| "number_events now n (e # es) = normalize_event now n e # number_events now (n + 1) es"

lemma first_deliveries_distinct:
  "distinct seen \<Longrightarrow> distinct (map event_key (identified (first_deliveries seen es))) \<and>
     set (map event_key (identified (first_deliveries seen es))) \<inter> set seen = {} \<and>
     set (map event_key (identified (first_deliveries seen es))) \<union> set seen =
       set (map event_key (identified es)) \<union> set seen"
proof (induction es arbitrary: seen)
  case (Cons e es)
  show ?case
  proof (cases "truthy (event_id e) \<and> event_key e \<notin> set seen")
    case True
    with Cons.prems Cons.IH [of "event_key e # seen"] show ?thesis by (auto simp: identified_def)
  next
    case False
    with Cons.prems Cons.IH [of seen] show ?thesis by (auto simp: identified_def)
  qed
qed (simp add: identified_def)

lemma stream_first_deliveries:
  assumes "\<forall>e \<in> set es. \<exists>k. hash_key (event_id e) = Inr k"
    and "distinct (ss_seen s)"
    and "card (set (ss_seen s) \<union> event_key ` set (identified es)) \<le> 100"
  shows "\<exists>t. stream_internal now broken es s =
    (number_events now (ss_sequence s) (first_deliveries (ss_seen s) es), broken, t)"
  using assms
proof (induction es arbitrary: s)
  case (Cons e es)
  let ?s1 = "if is_terminal_event e then s\<lparr>ss_terminal := True\<rparr> else s"
  have s1: "ss_sequence ?s1 = ss_sequence s" "ss_seen ?s1 = ss_seen s" by simp_all
  obtain k where k: "hash_key (event_id e) = Inr k" using Cons.prems(1) by auto
  then have key: "event_key e = k" by (simp add: event_key_def)
  have hash: "\<forall>e \<in> set es. \<exists>k. hash_key (event_id e) = Inr k" using Cons.prems(1) by simp
  have card: "card (set seen \<union> event_key ` set (identified es)) \<le> 100"
    if "set seen \<subseteq> set (ss_seen s) \<union> event_key ` set (identified (e # es))" for seen
  proof -
    have "set seen \<union> event_key ` set (identified es) \<subseteq> set (ss_seen s) \<union> event_key ` set (identified (e # es))"
      using that by (auto simp: identified_def)
    then have "card (set seen \<union> event_key ` set (identified es)) \<le>
        card (set (ss_seen s) \<union> event_key ` set (identified (e # es)))" by (intro card_mono) simp_all
    with Cons.prems(3) show ?thesis by simp
  qed
  show ?case
  proof (cases "truthy (event_id e) \<and> k \<notin> set (ss_seen s)")
    case new: True
    have "card (set (k # ss_seen s)) \<le> card (set (ss_seen s) \<union> event_key ` set (identified (e # es)))"
      by (rule card_mono) (use new key in \<open>auto simp: identified_def\<close>)
    with Cons.prems(2,3) new have len: "length (k # ss_seen s) \<le> 100"
      by (simp add: distinct_card)
    with k new have d: "is_duplicate e (ss_seen ?s1) = Inr (False, k # ss_seen s)"
      by (simp add: is_duplicate_def s1)
    let ?s2 = "?s1\<lparr>ss_seen := k # ss_seen s, ss_sequence := ss_sequence ?s1 + 1\<rparr>"
    have "\<exists>t. stream_internal now broken es ?s2 =
        (number_events now (ss_sequence ?s2) (first_deliveries (ss_seen ?s2) es), broken, t)"
    proof (rule Cons.IH [OF hash])
      show "distinct (ss_seen ?s2)" using Cons.prems(2) new by simp
      show "card (set (ss_seen ?s2) \<union> event_key ` set (identified es)) \<le> 100"
        using new key by (intro card) (auto simp: identified_def)
    qed
    with d new key s1 show ?thesis by (auto simp: Let_def)
  next
    case False
    then have d: "is_duplicate e (ss_seen ?s1) = Inr (truthy (event_id e), ss_seen s)"
      using k by (simp add: is_duplicate_def s1)
    let ?s2 = "if truthy (event_id e) then ?s1\<lparr>ss_seen := ss_seen s\<rparr>
      else ?s1\<lparr>ss_seen := ss_seen s, ss_sequence := ss_sequence ?s1 + 1\<rparr>"
    have seen2: "ss_seen ?s2 = ss_seen s" by simp
    have "\<exists>t. stream_internal now broken es ?s2 =
        (number_events now (ss_sequence ?s2) (first_deliveries (ss_seen ?s2) es), broken, t)"
      by (rule Cons.IH [OF hash]) (unfold seen2, use Cons.prems(2) card in auto)
    with d False key s1 show ?thesis by (auto simp: Let_def split: if_splits)
  qed
qed simp

section \<open>Properties\<close>

text \<open>
  C19: Deduplication. As long as the stream names at most 100 different identifiers, all of
  them hashable, a fresh handler passes on exactly the first delivery of every identifier
  and every event without one, in order, numbered 0, 1, 2 and so on, whatever the client
  repeats after a reconnect, and ends the way the client's stream ends.
\<close>

theorem stream_deduplicates:
  assumes "\<forall>e \<in> set es. \<exists>k. hash_key (event_id e) = Inr k"
    and "card (event_key ` set (identified es)) \<le> 100"
  shows "fst (stream_internal now broken es init_handler) = number_events now 0 (first_deliveries [] es) \<and>
    fst (snd (stream_internal now broken es init_handler)) = broken \<and>
    distinct (map event_key (identified (first_deliveries [] es))) \<and>
    event_key ` set (identified (first_deliveries [] es)) = event_key ` set (identified es)"
proof -
  have "\<exists>t. stream_internal now broken es init_handler =
      (number_events now (ss_sequence init_handler) (first_deliveries (ss_seen init_handler) es), broken, t)"
    by (rule stream_first_deliveries) (use assms in \<open>simp_all add: init_handler_def\<close>)
  with first_deliveries_distinct [of "[]" es] show ?thesis by (auto simp: init_handler_def)
qed

definition sample_event :: "json \<Rightarrow> opencode_event" where
  "sample_event i = \<lparr>oe_type = ''progress'', oe_data = JObj [(''id'', i)], oe_message_id = i, oe_session_id = JNull\<rparr>"

lemma sample_event_id [simp]: "event_id (sample_event i) = i"
  by (simp add: event_id_def sample_event_def dict_get_def)

theorem stream_deduplicates_witness:
  "map ne_sequence (fst (stream_internal 0 None [sample_event (JInt 5), sample_event (JInt 6), sample_event (JInt 5)] init_handler)) = [0, 1]"
proof -
  let ?es = "[sample_event (JInt 5), sample_event (JInt 6), sample_event (JInt 5)]"
  have "fst (stream_internal 0 None ?es init_handler) = number_events 0 0 (first_deliveries [] ?es)"
    by (rule stream_deduplicates [THEN conjunct1]) (simp_all add: identified_def event_key_def card_insert_if)
  then show ?thesis by (simp add: event_key_def normalize_event_def Let_def)
qed

text \<open>
  The memory for identifiers is dropped whole. With a memory of 100 identifiers, the
  immediate repetition of an event with a new identifier is passed on a second time; with
  fewer it is recognised. Keeping the last 100 would recognise it in both cases.
\<close>

theorem full_memory_forgets:
  assumes "truthy (event_id e)" "hash_key (event_id e) = Inr k" "k \<notin> set (ss_seen s)"
    and "length (ss_seen s) \<le> 100"
  shows "length (fst (stream_internal now broken [e, e] s)) = (if length (ss_seen s) = 100 then 2 else 1)"
  using assms by (simp add: is_duplicate_def Let_def)

theorem full_memory_forgets_witness:
  "length (fst (stream_internal 0 None [sample_event (JInt 500), sample_event (JInt 500)]
     \<lparr>ss_sequence = 100, ss_seen = map (JInt \<circ> int) [0..<100], ss_terminal = False\<rparr>)) = 2"
  using full_memory_forgets [where e = "sample_event (JInt 500)" and k = "JInt 500" and now = 0 and broken = None
      and s = "\<lparr>ss_sequence = 100, ss_seen = map (JInt \<circ> int) [0..<100], ss_terminal = False\<rparr>"]
  by (simp add: image_iff del: upt_rec_numeral stream_internal.simps)

text \<open>
  Numbering. Whatever the events and the state of the handler, the events passed on
  carry consecutive numbers from the handler's counter, which counts them: the numbers are
  strictly increasing, and a second stream without a reset continues them.
\<close>

theorem stream_numbers_consecutive:
  "let (ns, x, t) = stream_internal now broken es s; (ms, y, u) = stream_internal now broken' fs t in
     map ne_sequence (ns @ ms) = map (\<lambda>i. ss_sequence s + int i) [0..<length (ns @ ms)] \<and>
     sorted_wrt (<) (map ne_sequence (ns @ ms)) \<and>
     ss_sequence u = ss_sequence s + int (length (ns @ ms))"
proof -
  obtain ns x t where n: "stream_internal now broken es s = (ns, x, t)" by (cases "stream_internal now broken es s")
  obtain ms y u where m: "stream_internal now broken' fs t = (ms, y, u)" by (cases "stream_internal now broken' fs t")
  note a = stream_numbers [OF n] stream_numbers [OF m]
  let ?k = "length ns" and ?l = "length ms"
  have "map (\<lambda>i. ss_sequence t + int i) [0..<?l] = map (\<lambda>i. ss_sequence s + int i) [?k..<?k + ?l]"
    using a by (intro nth_equalityI) (simp_all add: algebra_simps)
  then have eq: "map ne_sequence (ns @ ms) = map (\<lambda>i. ss_sequence s + int i) [0..<?k + ?l]"
    using a by (simp add: upt_add_eq_append [of 0 ?k ?l, simplified])
  moreover have "sorted_wrt (<) (map (\<lambda>i. ss_sequence s + int i) [0..<?k + ?l])"
    by (simp add: sorted_wrt_map sorted_wrt_upt)
  ultimately show ?thesis using a by (simp add: n m Let_def del: map_append)
qed

text \<open>
  The public entry never streams: handing the generator to \<open>create_task\<close> raises, whatever
  the client would deliver.
\<close>

lemma stream_events_always_raises:
  "\<exists>m. stream_events now broken es s = ([], Some (PyExn (TypeError m)), s)"
  by (simp add: stream_events_def)

text \<open>
  Truncation. A payload whose JSON text has at most 1024 characters is kept as it is; a
  larger one is replaced by its size and a content of exactly 938 characters, the first 924
  of them the beginning of the text. Encoding the content again escapes its quotation marks,
  so the stored payload can still be larger than 1024 characters.
\<close>

theorem truncate_payload_spec:
  "(if length (json_dumps (JObj p)) \<le> 1024 then truncate_payload p = p
    else \<exists>c. truncate_payload p = [(''_truncated'', JBool True),
        (''_original_size'', JInt (int (length (json_dumps (JObj p))))), (''_content'', JStr c)] \<and>
      length c = 938 \<and> take 924 c = take 924 (json_dumps (JObj p))) \<and>
   (\<exists>q. length (json_dumps (JObj (truncate_payload q))) > 1024)"
proof -
  have 1: "if length (json_dumps (JObj p)) \<le> 1024 then truncate_payload p = p
    else \<exists>c. truncate_payload p = [(''_truncated'', JBool True),
        (''_original_size'', JInt (int (length (json_dumps (JObj p))))), (''_content'', JStr c)] \<and>
      length c = 938 \<and> take 924 c = take 924 (json_dumps (JObj p))"
  proof (cases "length (json_dumps (JObj p)) \<le> 1024")
    case True
    then show ?thesis by (simp add: truncate_payload_def MAX_PAYLOAD_SIZE_def Let_def del: json_dumps.simps)
  next
    case False
    then have "p \<noteq> []" by (cases p) auto
    with False show ?thesis
      by (simp add: truncate_payload_def MAX_PAYLOAD_SIZE_def Let_def del: json_dumps.simps)
  qed
  let ?q = "[(''x'', JStr (replicate 1000 (CHR 0x22)))]"
  let ?t = "concat (replicate 1000 [CHR 0x5C, CHR 0x22])"
  let ?s = "''{'' @ [CHR 0x22] @ ''x'' @ [CHR 0x22] @ '': '' @ [CHR 0x22] @ ?t @ [CHR 0x22] @ ''}''"
  have s: "json_dumps (JObj ?q) = ?s" by (simp add: dump_str_def)
  have len: "length (dump_char c) \<ge> 1" for c by simp
  have dbl: "length (concat (map dump_char xs)) = 2 * length xs" if "set xs \<subseteq> {CHR 0x22, CHR 0x5C}" for xs
    using that by (induction xs) auto
  let ?c = "take 924 ?s @ ''...[truncated]''"
  have tk: "take 924 ?s = ''{'' @ [CHR 0x22] @ ''x'' @ [CHR 0x22] @ '': '' @ [CHR 0x22] @ take 917 ?t"
    by (simp add: take_Cons' length_concat sum_list_replicate del: concat_replicate_trivial)
  have sub: "set (take 917 ?t) \<subseteq> {CHR 0x22, CHR 0x5C}"
    using set_take_subset [of 917 ?t] by auto
  have lt: "length ?t = 2000" by (simp add: length_concat sum_list_replicate)
  have "length (concat (map dump_char (take 917 ?t))) = 1834"
    using dbl [OF sub] lt by simp
  then have "length (dump_str ?c) > 1024" by (simp add: dump_str_def tk)
  moreover have "truncate_payload ?q = [(''_truncated'', JBool True),
      (''_original_size'', JInt (int (length ?s))), (''_content'', JStr ?c)]"
    unfolding truncate_payload_def s Let_def using lt by (simp add: MAX_PAYLOAD_SIZE_def)
  ultimately have "length (json_dumps (JObj (truncate_payload ?q))) > 1024"
    by simp
  with 1 show ?thesis by blast
qed

end
