(* ===== verification/Watchdog.thy ===== *)
theory Watchdog
  imports Claim
begin

text \<open>
  \<open>runner/watchdog.py\<close>: the keep-alive watchdog of an OpenCode session. The operations are
  functions on its state; the interleaving of the background loop with calls from outside is
  the step relation \<open>wd_step\<close>, labelled with what happens. Times are readings of the
  monotonic clock in microseconds.
\<close>

section \<open>State and operations\<close>

text \<open>\<open>wd_task\<close> says whether there is a background task and whether it is done.\<close>

record watchdog =
  wd_task :: "bool option"
  wd_running :: bool
  wd_continues_sent :: int
  wd_last_activity :: "int option"
  wd_http_client :: bool

definition init_watchdog :: watchdog where
  "init_watchdog = \<lparr>wd_task = None, wd_running = False, wd_continues_sent = 0,
     wd_last_activity = None, wd_http_client = False\<rparr>"

definition wd_poll_interval :: "runner_config \<Rightarrow> int option \<Rightarrow> int" where
  "wd_poll_interval c override = (if override \<in> {None, Some 0}
     then rc_watchdog_poll_interval_seconds c else the override)"

definition is_running :: "watchdog \<Rightarrow> bool" where
  "is_running w = (wd_running w \<and> wd_task w = Some False)"

definition record_activity :: "int \<Rightarrow> watchdog \<Rightarrow> watchdog" where
  "record_activity now w = w\<lparr>wd_last_activity := Some now\<rparr>"

definition wd_start :: "runner_config \<Rightarrow> watchdog \<Rightarrow> watchdog" where
  "wd_start c w =
     (if \<not> rc_watchdog_enabled c then w
      else if \<not> str_truthy (rc_watchdog_session_id c) then w
      else if is_running w then w
      else w\<lparr>wd_running := True, wd_http_client := True, wd_task := Some False\<rparr>)"

definition wd_stop :: "watchdog \<Rightarrow> watchdog" where
  "wd_stop w = (if \<not> wd_running w then w
     else w\<lparr>wd_running := False, wd_task := None, wd_http_client := False\<rparr>)"

definition should_send_ping :: "runner_config \<Rightarrow> int \<Rightarrow> watchdog \<Rightarrow> bool" where
  "should_send_ping c now w =
     (case wd_last_activity w of
        None \<Rightarrow> False
      | Some t \<Rightarrow>
          if t = 0 then False
          else if wd_continues_sent w \<ge> rc_watchdog_max_continues c then False
          else \<not> (now - t < microseconds (rc_watchdog_idle_seconds c)))"

text \<open>A request ends with a status, or with an exception that the method swallows.\<close>

datatype ping_reply = PingStatus int | PingError string

fun accepted :: "ping_reply \<Rightarrow> bool" where
  "accepted (PingStatus code) = (code < 400)"
| "accepted (PingError _) = False"

definition ping_request :: "runner_config \<Rightarrow> string \<times> (string \<times> json) list" where
  "ping_request c = (rc_watchdog_base_url c @ ''/sessions/'' @
       (case rc_watchdog_session_id c of None \<Rightarrow> ''None'' | Some s \<Rightarrow> s) @ ''/messages'',
     [(''content'', JStr (rc_watchdog_continue_prompt c)), (''role'', JStr ''user'')])"

definition send_continue_ping :: "ping_reply \<Rightarrow> watchdog \<Rightarrow> watchdog" where
  "send_continue_ping r w = (if \<not> wd_http_client w then w
     else if accepted r then w\<lparr>wd_continues_sent := wd_continues_sent w + 1\<rparr> else w)"

section \<open>Steps\<close>

datatype wd_label = Activity int | Start | Stop | Quiet int | Ping int ping_reply | Cancelled

text \<open>One iteration of the loop is a quiet one or a ping; it needs a live task and \<open>_running\<close>.\<close>

inductive wd_step :: "runner_config \<Rightarrow> watchdog \<Rightarrow> wd_label \<Rightarrow> watchdog \<Rightarrow> bool" for c where
  activity: "wd_step c w (Activity now) (record_activity now w)"
| start: "wd_step c w Start (wd_start c w)"
| stop: "wd_step c w Stop (wd_stop w)"
| quiet: "is_running w \<Longrightarrow> \<not> should_send_ping c now w \<Longrightarrow> wd_step c w (Quiet now) w"
| ping: "is_running w \<Longrightarrow> should_send_ping c now w \<Longrightarrow>
    wd_step c w (Ping now r) (send_continue_ping r w)"
| cancelled: "wd_task w = Some False \<Longrightarrow> wd_step c w Cancelled (w\<lparr>wd_task := Some True\<rparr>)"

inductive wd_run :: "runner_config \<Rightarrow> wd_label list \<Rightarrow> watchdog \<Rightarrow> bool" for c where
  fresh: "wd_run c [] init_watchdog"
| more: "wd_run c ls w \<Longrightarrow> wd_step c w l w' \<Longrightarrow> wd_run c (ls @ [l]) w'"

inductive_cases ping_cases: "wd_step c w (Ping now r) w'"
inductive_cases run_snoc_cases: "wd_run c (ls @ [l]) w'"

section \<open>Invariants\<close>

definition counted :: "wd_label \<Rightarrow> bool" where
  "counted l = (case l of Ping now r \<Rightarrow> accepted r | _ \<Rightarrow> False)"

fun last_activity :: "wd_label list \<Rightarrow> int option" where
  "last_activity [] = None"
| "last_activity (l # ls) = (case last_activity ls of Some t \<Rightarrow> Some t
     | None \<Rightarrow> (case l of Activity t \<Rightarrow> Some t | _ \<Rightarrow> None))"

lemma last_activity_snoc [simp]:
  "last_activity (ls @ [l]) = (case l of Activity t \<Rightarrow> Some t | _ \<Rightarrow> last_activity ls)"
  by (induction ls) (auto split: wd_label.splits option.splits)

definition wd_inv :: "runner_config \<Rightarrow> wd_label list \<Rightarrow> watchdog \<Rightarrow> bool" where
  "wd_inv c ls w = (wd_continues_sent w = int (length (filter counted ls)) \<and>
     wd_continues_sent w \<le> max 0 (rc_watchdog_max_continues c) \<and>
     wd_last_activity w = last_activity ls \<and>
     (wd_running w \<longrightarrow> wd_http_client w \<and> rc_watchdog_enabled c \<and> str_truthy (rc_watchdog_session_id c)))"

lemmas wd_defs = wd_inv_def counted_def record_activity_def wd_start_def wd_stop_def
  send_continue_ping_def should_send_ping_def is_running_def

lemma wd_step_inv: "wd_step c w l w' \<Longrightarrow> wd_inv c ls w \<Longrightarrow> wd_inv c (ls @ [l]) w'"
  by (induction rule: wd_step.induct) (auto simp: wd_defs split: option.splits if_splits)

lemma wd_run_inv: "wd_run c ls w \<Longrightarrow> wd_inv c ls w"
proof (induction rule: wd_run.induct)
  case fresh
  show ?case by (simp add: wd_inv_def init_watchdog_def)
next
  case (more ls w l w')
  then show ?case by (intro wd_step_inv)
qed

section \<open>Properties\<close>

text \<open>
  C21: The watchdog is bounded. In every run of a watchdog, however it is started, stopped
  and cancelled, its counter is the number of pings the service accepted, these are never
  more than \<open>watchdog_max_continues\<close>, also over several starts, and no ping is ever sent
  when the watchdog is disabled or has no session.
\<close>

theorem watchdog_bounded:
  assumes "wd_run c ls w"
  shows "wd_continues_sent w = int (length (filter counted ls)) \<and>
    int (length (filter counted ls)) \<le> max 0 (rc_watchdog_max_continues c) \<and>
    ((\<exists>now r. Ping now r \<in> set ls) \<longrightarrow> rc_watchdog_enabled c \<and> str_truthy (rc_watchdog_session_id c))"
proof -
  have "Ping now r \<in> set ls \<Longrightarrow> rc_watchdog_enabled c \<and> str_truthy (rc_watchdog_session_id c)" for now r
    using assms
  proof (induction rule: wd_run.induct)
    case (more ls w l w')
    show ?case
    proof (cases "l = Ping now r")
      case True
      with more.hyps have "wd_running w" by (auto elim: ping_cases simp: is_running_def)
      with wd_run_inv [OF more.hyps(1)] show ?thesis by (simp add: wd_inv_def)
    qed (use more in auto)
  qed simp
  with wd_run_inv [OF assms] show ?thesis by (auto simp: wd_inv_def)
qed

definition watched :: runner_config where
  "watched = (default_config 0)\<lparr>rc_watchdog_enabled := True, rc_watchdog_session_id := Some ''s'',
     rc_watchdog_max_continues := 1\<rparr>"

lemma watched_run:
  "wd_run watched [Start, Activity 5, Ping 90000005 (PingError ''x''), Ping 95000000 (PingStatus 200)]
     \<lparr>wd_task = Some False, wd_running = True, wd_continues_sent = 1, wd_last_activity = Some 5, wd_http_client = True\<rparr>"
proof -
  let ?w = "\<lambda>n a. \<lparr>wd_task = Some False, wd_running = True, wd_continues_sent = n, wd_last_activity = a, wd_http_client = True\<rparr>"
  note c = watched_def default_config_def
  have "wd_run watched ([] @ [Start]) (?w 0 None)"
    by (rule wd_run.more [OF wd_run.fresh]) (use wd_step.start [of watched init_watchdog] in
        \<open>simp add: wd_start_def is_running_def c init_watchdog_def\<close>)
  then have "wd_run watched (([] @ [Start]) @ [Activity 5]) (?w 0 (Some 5))"
    by (rule wd_run.more) (use wd_step.activity [of watched "?w 0 None" 5] in \<open>simp add: record_activity_def\<close>)
  then have "wd_run watched ((([] @ [Start]) @ [Activity 5]) @ [Ping 90000005 (PingError ''x'')]) (?w 0 (Some 5))"
    by (rule wd_run.more) (use wd_step.ping [of "?w 0 (Some 5)" watched 90000005 "PingError ''x''"] in
        \<open>simp add: is_running_def should_send_ping_def send_continue_ping_def microseconds_def c\<close>)
  then have "wd_run watched (((([] @ [Start]) @ [Activity 5]) @ [Ping 90000005 (PingError ''x'')]) @ [Ping 95000000 (PingStatus 200)]) (?w 1 (Some 5))"
    by (rule wd_run.more) (use wd_step.ping [of "?w 0 (Some 5)" watched 95000000 "PingStatus 200"] in
        \<open>simp add: is_running_def should_send_ping_def send_continue_ping_def microseconds_def c\<close>)
  then show ?thesis by simp
qed

theorem watchdog_bounded_witness:
  "wd_run watched [Start, Activity 5, Ping 90000005 (PingError ''x''), Ping 95000000 (PingStatus 200)]
     \<lparr>wd_task = Some False, wd_running = True, wd_continues_sent = 1, wd_last_activity = Some 5, wd_http_client = True\<rparr> \<and>
   (1::int) \<le> max 0 (rc_watchdog_max_continues watched)"
  using watched_run watchdog_bounded [OF watched_run] by (simp add: counted_def)

text \<open>
  Pings only into silence. Whenever a ping is sent, the latest recorded activity of the
  run lies at least \<open>watchdog_idle_seconds\<close> back, and was recorded at all, at a clock
  reading other than zero.
\<close>

theorem ping_needs_idle:
  assumes "wd_run c (ls @ [Ping now r]) w"
  shows "\<exists>t. last_activity ls = Some t \<and> t \<noteq> 0 \<and> microseconds (rc_watchdog_idle_seconds c) \<le> now - t"
proof -
  from assms obtain w0 where w0: "wd_run c ls w0" "wd_step c w0 (Ping now r) w"
    by (auto elim: run_snoc_cases)
  then have "should_send_ping c now w0" by (auto elim: ping_cases)
  with wd_run_inv [OF w0(1)] show ?thesis
    by (auto simp: should_send_ping_def wd_inv_def split: option.splits if_splits)
qed

theorem ping_needs_idle_witness:
  "\<exists>t. last_activity [Start, Activity 5, Ping 90000005 (PingError ''x'')] = Some t \<and>
     microseconds (rc_watchdog_idle_seconds watched) \<le> 95000000 - t"
  using ping_needs_idle [where c = watched and ls = "[Start, Activity 5, Ping 90000005 (PingError ''x'')]"
      and now = 95000000 and r = "PingStatus 200"] watched_run by auto

text \<open>
  A ping is not activity: as long as the limit is not reached, the next iteration pings
  again at once, and pings that fail are never counted.
\<close>

lemma pings_repeat:
  assumes "is_running w" "should_send_ping c now w" "now \<le> now'"
    and "wd_continues_sent w + 1 < rc_watchdog_max_continues c"
  shows "should_send_ping c now' (send_continue_ping r w)"
  using assms by (auto simp: should_send_ping_def send_continue_ping_def split: option.splits if_splits)

text \<open>Starting and stopping are idempotent, and a stopped watchdog has no live task.\<close>

lemma wd_start_idem: "wd_start c (wd_start c w) = wd_start c w"
  by (simp add: wd_start_def is_running_def)

lemma wd_stop_idem: "wd_stop (wd_stop w) = wd_stop w"
  by (simp add: wd_stop_def)

lemma wd_stop_not_running: "\<not> is_running (wd_stop w)"
  by (simp add: wd_stop_def is_running_def)

end
