(* ===== verification/Runner_Process.thy ===== *)
theory Runner_Process
  imports Watchdog
begin

text \<open>
  The process of \<open>runner/main.py\<close>: the class \<open>Runner\<close> with its loop, its validator and its
  watchdog, the context manager around it and \<open>main\<close>. The loop gives control away only in its
  sleep, so a poll is one step; what runs during a sleep (a signal, the background task of the
  watchdog, other processes on the database) is a step of its own. The clocks, the keys for new
  executions and the outcome of opening a session are the argument of each poll.
\<close>

section \<open>The runner\<close>

text \<open>A validator answers or raises; the runner keeps what it logs about the answers.\<close>

type_synonym validator_fun = "task_execution \<Rightarrow> exn + bool"

datatype validation_line = Validation_Passed uuid | Validation_Failed uuid | Validator_Raised uuid string

record runner =
  rn_config :: runner_config
  rn_validator :: "validator_fun option"
  rn_watchdog :: watchdog
  rn_running :: bool
  rn_log :: "validation_line list"

record poll_input =
  pi_connect :: "exn option"
  pi_pk :: "uuid \<Rightarrow> uuid option"
  pi_correlation :: string
  pi_isofmt :: "datetime \<Rightarrow> string"
  pi_now :: datetime
  pi_monotonic :: int

definition new_runner :: "runner_config \<Rightarrow> validator_fun option \<Rightarrow> runner" where
  "new_runner c v = \<lparr>rn_config = c, rn_validator = v, rn_watchdog = init_watchdog, rn_running = False, rn_log = []\<rparr>"

definition run_validator :: "validator_fun \<Rightarrow> task_execution \<Rightarrow> validation_line" where
  "run_validator v e =
     (case v e of
        Inr True \<Rightarrow> Validation_Passed (e_id e)
      | Inr False \<Rightarrow> Validation_Failed (e_id e)
      | Inl x \<Rightarrow> Validator_Raised (e_id e) (exn_str x))"

definition process_execution :: "int \<Rightarrow> task_execution \<Rightarrow> runner \<Rightarrow> runner" where
  "process_execution now e r =
     (let r1 = r\<lparr>rn_watchdog := record_activity now (rn_watchdog r)\<rparr>
      in case rn_validator r1 of
           None \<Rightarrow> r1
         | Some v \<Rightarrow> r1\<lparr>rn_log := rn_log r1 @ [run_validator v e]\<rparr>)"

text \<open>
  Opening the session is outside of the \<open>try\<close> block; whatever the poll raises is caught. The
  session is closed in both cases.
\<close>

definition rn_poll :: "poll_input \<Rightarrow> runner \<Rightarrow> db \<Rightarrow> exn option \<times> runner \<times> db" where
  "rn_poll p r d =
     (case pi_connect p of
        Some x \<Rightarrow> (Some x, r, d)
      | None \<Rightarrow>
          (case poll_and_claim_tasks (pi_pk p) (pi_correlation p) (pi_isofmt p) (pi_now p)
                  (rc_runner_id (rn_config r)) (rc_batch_size (rn_config r)) (open_session d) of
             (Inl x, s) \<Rightarrow> (None, r, close_session s)
           | (Inr es, s) \<Rightarrow> (None, fold (process_execution (pi_monotonic p)) es r, close_session s)))"

text \<open>
  A call of \<open>start\<close> sleeps, has returned or has raised. \<open>rn_turn\<close> is the loop from one test of
  \<open>_running\<close> to the next sleep, with the \<open>finally\<close> block where the loop is left.
\<close>

datatype call = Sleeping | Returned | Raised exn

definition rn_turn :: "poll_input \<Rightarrow> runner \<Rightarrow> db \<Rightarrow> call \<times> runner \<times> db" where
  "rn_turn p r d =
     (if \<not> rn_running r then (Returned, r\<lparr>rn_running := False\<rparr>, d)
      else case rn_poll p r d of
             (Some x, r', d') \<Rightarrow> (Raised x, r'\<lparr>rn_running := False\<rparr>, d')
           | (None, r', d') \<Rightarrow> (Sleeping, r', d'))"

definition rn_start :: "poll_input \<Rightarrow> runner \<Rightarrow> db \<Rightarrow> call \<times> runner \<times> db" where
  "rn_start p r d =
     (if rn_running r then (Returned, r, d)
      else rn_turn p (r\<lparr>rn_running := True, rn_watchdog := wd_start (rn_config r) (rn_watchdog r)\<rparr>) d)"

text \<open>A cancellation of the sleep is caught, and the call returns.\<close>

definition rn_cancelled :: "runner \<Rightarrow> runner" where
  "rn_cancelled r = r\<lparr>rn_running := False\<rparr>"

text \<open>\<open>_task\<close> is never assigned, so \<open>stop\<close> has no task to cancel.\<close>

definition rn_stop :: "runner \<Rightarrow> runner" where
  "rn_stop r = r\<lparr>rn_running := False, rn_watchdog := wd_stop (rn_watchdog r)\<rparr>"

definition rn_claim_single ::
    "poll_input \<Rightarrow> uuid \<Rightarrow> runner \<Rightarrow> db \<Rightarrow> (exn + task_execution option) \<times> runner \<times> db" where
  "rn_claim_single p i r d =
     (case pi_connect p of
        Some x \<Rightarrow> (Inl x, r, d)
      | None \<Rightarrow>
          (case claim_single_task (pi_pk p i) (pi_correlation p) (pi_isofmt p) (pi_now p) (rn_config r) i d of
             (None, d') \<Rightarrow> (Inr None, r, d')
           | (Some e, d') \<Rightarrow> (Inr (Some e), process_execution (pi_monotonic p) e r, d')))"

section \<open>The process\<close>

datatype main_phase = Fresh | Looping | Finished "exn option"

record runner_main =
  rm_runner :: runner
  rm_db :: db
  rm_phase :: main_phase
  rm_handlers :: bool

definition init_main :: "runner_config \<Rightarrow> validator_fun option \<Rightarrow> db \<Rightarrow> runner_main" where
  "init_main c v d = \<lparr>rm_runner = new_runner c v, rm_db = d, rm_phase = Fresh, rm_handlers = False\<rparr>"

text \<open>\<open>runner_lifecycle\<close>: the handlers are installed on entry; on exit, normal or by an
  exception, the runner is stopped and they are removed.\<close>

definition lifecycle_exit :: "exn option \<Rightarrow> runner_main \<Rightarrow> runner_main" where
  "lifecycle_exit x m = m\<lparr>rm_runner := rn_stop (rm_runner m), rm_phase := Finished x, rm_handlers := False\<rparr>"

fun after_call :: "call \<times> runner \<times> db \<Rightarrow> runner_main \<Rightarrow> runner_main" where
  "after_call (Sleeping, r, d) m = m\<lparr>rm_runner := r, rm_db := d, rm_phase := Looping\<rparr>"
| "after_call (Returned, r, d) m = lifecycle_exit None (m\<lparr>rm_runner := r, rm_db := d\<rparr>)"
| "after_call (Raised x, r, d) m = lifecycle_exit (Some x) (m\<lparr>rm_runner := r, rm_db := d\<rparr>)"

definition main_begin :: "poll_input \<Rightarrow> runner_main \<Rightarrow> runner_main" where
  "main_begin p m = after_call (rn_start p (rm_runner m) (rm_db m)) (m\<lparr>rm_handlers := True\<rparr>)"

definition main_wake :: "poll_input \<Rightarrow> runner_main \<Rightarrow> runner_main" where
  "main_wake p m = after_call (rn_turn p (rm_runner m) (rm_db m)) m"

definition main_signal :: "runner_main \<Rightarrow> runner_main" where
  "main_signal m = m\<lparr>rm_runner := rn_stop (rm_runner m)\<rparr>"

datatype main_label = Begin poll_input | Wake poll_input | Signal | Background wd_label | Others db

fun background :: "wd_label \<Rightarrow> bool" where
  "background (Quiet now) = True"
| "background (Ping now r) = True"
| "background l = False"

inductive main_step :: "runner_main \<Rightarrow> main_label \<Rightarrow> runner_main \<Rightarrow> bool" where
  begins: "rm_phase m = Fresh \<Longrightarrow> main_step m (Begin p) (main_begin p m)"
| wakes: "rm_phase m = Looping \<Longrightarrow> main_step m (Wake p) (main_wake p m)"
| signal: "rm_handlers m \<Longrightarrow> main_step m Signal (main_signal m)"
| background: "rm_phase m = Looping \<Longrightarrow> background l \<Longrightarrow>
    wd_step (rn_config (rm_runner m)) (rn_watchdog (rm_runner m)) l w \<Longrightarrow>
    main_step m (Background l) (m\<lparr>rm_runner := (rm_runner m)\<lparr>rn_watchdog := w\<rparr>\<rparr>)"
| others: "main_step m (Others d) (m\<lparr>rm_db := d\<rparr>)"

inductive main_run :: "runner_main \<Rightarrow> main_label list \<Rightarrow> runner_main \<Rightarrow> bool" for m where
  none: "main_run m [] m"
| more: "main_run m ls m1 \<Longrightarrow> main_step m1 l m2 \<Longrightarrow> main_run m (ls @ [l]) m2"

inductive_cases main_step_cases: "main_step m l m'"
inductive_cases main_snoc_cases: "main_run m (ls @ [l]) m'"

section \<open>Lemmas\<close>

lemma process_execution_simps [simp]:
  "rn_config (process_execution now e r) = rn_config r"
  "rn_running (process_execution now e r) = rn_running r"
  "rn_watchdog (process_execution now e r) = record_activity now (rn_watchdog r)"
  by (simp_all add: process_execution_def Let_def split: option.split)

lemma record_activity_simps [simp]:
  "wd_running (record_activity now w) = wd_running w" "wd_task (record_activity now w) = wd_task w"
  "wd_http_client (record_activity now w) = wd_http_client w"
  by (simp_all add: record_activity_def)

lemma processed_simps [simp]:
  "rn_config (fold (process_execution now) es r) = rn_config r"
  "rn_running (fold (process_execution now) es r) = rn_running r"
  "wd_running (rn_watchdog (fold (process_execution now) es r)) = wd_running (rn_watchdog r)"
  by (induction es arbitrary: r) simp_all

text \<open>A poll changes neither the database nor whether anything runs.\<close>

lemma poll_closed:
  "rn_poll p r d = (pi_connect p, r', d') \<Longrightarrow> d' = d \<and> rn_running r' = rn_running r \<and>
     rn_config r' = rn_config r \<and> wd_running (rn_watchdog r') = wd_running (rn_watchdog r)"
  using claim_each_committed [of "pi_pk p" "pi_correlation p" "pi_isofmt p" "pi_now p" "rc_runner_id (rn_config r)"
      "prepared_ids (rc_batch_size (rn_config r)) d" "open_session d"]
  by (auto simp: rn_poll_def poll_and_claim_tasks_def close_session_def split: option.splits prod.splits sum.splits if_splits)

lemma poll_raises: "fst (rn_poll p r d) = pi_connect p"
  by (simp add: rn_poll_def split: option.split prod.split sum.split)

lemma poll_cases:
  obtains r' where "rn_poll p r d = (pi_connect p, r', d)" "rn_running r' = rn_running r" "rn_config r' = rn_config r"
    "wd_running (rn_watchdog r') = wd_running (rn_watchdog r)"
  using poll_raises [of p r d] poll_closed [of p r d] by (metis prod.collapse)

lemma poll_refines_cycle:
  "pi_connect p = None \<Longrightarrow> snd (snd (rn_poll p r d)) =
     poll_cycle (pi_pk p) (pi_correlation p) (pi_isofmt p) (pi_now p) (rn_config r) d"
  by (simp add: rn_poll_def poll_cycle_def split: prod.split sum.split)

lemma turn_stopped: "\<not> rn_running r \<Longrightarrow> rn_turn p r d = (Returned, r, d)"
  by (simp add: rn_turn_def)

lemma turn_db: "rn_turn p r d = (c, r', d') \<Longrightarrow> d' = d \<and> rn_config r' = rn_config r \<and>
    (c = Sleeping \<longrightarrow> rn_running r' \<and> rn_running r) \<and> wd_running (rn_watchdog r') = wd_running (rn_watchdog r)"
  by (rule poll_cases [of p r d]) (auto simp: rn_turn_def split: if_splits option.splits)

lemma start_db: "rn_start p r d = (c, r', d') \<Longrightarrow> d' = d \<and> rn_config r' = rn_config r \<and>
    (c = Sleeping \<longrightarrow> rn_running r')"
  using turn_db by (fastforce simp: rn_start_def split: if_splits)

lemma stop_simps [simp]:
  "\<not> rn_running (rn_stop r)" "\<not> wd_running (rn_watchdog (rn_stop r))" "rn_config (rn_stop r) = rn_config r"
  "rn_log (rn_stop r) = rn_log r"
  by (simp_all add: rn_stop_def wd_stop_def)

lemma stop_idem: "rn_stop (rn_stop r) = rn_stop r"
  by (simp add: rn_stop_def wd_stop_idem)

lemma background_running: "wd_step c w l w' \<Longrightarrow> background l \<Longrightarrow> is_running w \<and> wd_running w' = wd_running w"
  by (induction rule: wd_step.induct) (auto simp: is_running_def send_continue_ping_def)

section \<open>Invariants\<close>

definition main_inv :: "runner_main \<Rightarrow> bool" where
  "main_inv m =
     (let r = rm_runner m
      in case rm_phase m of
           Looping \<Rightarrow> rm_handlers m \<and> (wd_running (rn_watchdog r) \<longrightarrow> rn_running r)
         | _ \<Rightarrow> \<not> rm_handlers m \<and> \<not> rn_running r \<and> \<not> wd_running (rn_watchdog r))"

lemma inv_exit: "main_inv (lifecycle_exit x m)"
  by (simp add: main_inv_def lifecycle_exit_def)

lemma inv_after_call:
  assumes "fst res = Sleeping \<Longrightarrow> rn_running (fst (snd res)) \<and> rm_handlers m"
  shows "main_inv (after_call res m)"
  using assms by (cases "(res, m)" rule: after_call.cases) (auto simp: inv_exit, simp add: main_inv_def)

lemma inv_step:
  assumes "main_step m l m'" "main_inv m"
  shows "main_inv m'"
  using assms
proof (cases rule: main_step.cases)
  case (begins p)
  show ?thesis unfolding begins main_begin_def
    by (rule inv_after_call) (use start_db [of p "rm_runner m" "rm_db m"] in \<open>auto simp: prod_eq_iff\<close>)
next
  case (wakes p)
  then have "rm_handlers m" using assms(2) by (simp add: main_inv_def Let_def)
  then show ?thesis unfolding wakes main_wake_def
    by (intro inv_after_call) (use turn_db [of p "rm_runner m" "rm_db m"] in \<open>auto simp: prod_eq_iff\<close>)
next
  case signal
  then show ?thesis using assms(2) by (cases "rm_phase m") (simp_all add: main_inv_def main_signal_def)
next
  case (background l w)
  then show ?thesis using assms(2) background_running [OF background(5,4)] by (simp add: main_inv_def Let_def)
next
  case (others d)
  then show ?thesis using assms(2) by (cases "rm_phase m") (simp_all add: main_inv_def)
qed

lemma inv_init: "main_inv (init_main c v d)"
  by (simp add: main_inv_def init_main_def new_runner_def init_watchdog_def)

lemma inv_run: "main_run m ls m' \<Longrightarrow> main_inv m \<Longrightarrow> main_inv m'"
  by (induction rule: main_run.induct) (auto intro: inv_step)

text \<open>What a signal establishes, and every later step keeps.\<close>

definition stopped :: "runner_main \<Rightarrow> bool" where
  "stopped m = (\<not> rn_running (rm_runner m) \<and> \<not> wd_running (rn_watchdog (rm_runner m)) \<and> rm_phase m \<noteq> Fresh)"

lemma stopped_wake: "stopped m \<Longrightarrow> main_wake p m = lifecycle_exit None m"
  by (simp add: stopped_def main_wake_def turn_stopped)

lemma stopped_signal:
  assumes "main_step m Signal m1" "main_inv m"
  shows "stopped m1" "rm_phase m1 = rm_phase m" "rm_phase m = Looping" "rn_log (rm_runner m1) = rn_log (rm_runner m)"
  using assms by (auto elim!: main_step_cases simp: stopped_def main_signal_def main_inv_def Let_def split: main_phase.splits)

lemma stopped_step:
  assumes "main_step m l m'" "stopped m"
  shows "stopped m' \<and> rn_log (rm_runner m') = rn_log (rm_runner m) \<and> (\<forall>k. l \<noteq> Background k) \<and>
    rm_phase m' = (case l of Wake p \<Rightarrow> Finished None | _ \<Rightarrow> rm_phase m)"
  using assms
proof (cases rule: main_step.cases)
  case (wakes p)
  then show ?thesis using assms(2) by (simp add: stopped_wake) (simp add: lifecycle_exit_def stopped_def)
next
  case (background l w)
  then show ?thesis using assms(2) background_running [OF background(5,4)] by (simp add: stopped_def is_running_def)
qed (use assms(2) in \<open>auto simp: stopped_def main_signal_def\<close>)

lemma stopped_run:
  assumes "main_run m ls m'" "stopped m"
  shows "stopped m' \<and> rn_log (rm_runner m') = rn_log (rm_runner m) \<and> (\<forall>k. Background k \<notin> set ls) \<and>
    rm_phase m' = (if \<exists>p. Wake p \<in> set ls then Finished None else rm_phase m)"
  using assms
proof (induction rule: main_run.induct)
  case none
  then show ?case by simp
next
  case (more ls m1 l m2)
  then show ?case using stopped_step [OF more.hyps(2)] by (cases l) auto
qed

lemma main_run_append: "main_run m (ls @ ls') m' \<Longrightarrow> \<exists>m1. main_run m ls m1 \<and> main_run m1 ls' m'"
proof (induction ls' arbitrary: m' rule: rev_induct)
  case Nil
  then show ?case using main_run.none by auto
next
  case (snoc l ls')
  from snoc.prems obtain m2 where "main_run m (ls @ ls') m2" "main_step m2 l m'"
    by (cases rule: main_run.cases) (auto simp flip: append_assoc)
  with snoc.IH show ?case by (blast intro: main_run.more)
qed

text \<open>The database of a run is what the other processes wrote last.\<close>

fun last_commit :: "main_label list \<Rightarrow> db \<Rightarrow> db" where
  "last_commit [] d = d"
| "last_commit (Others d' # ls) d = last_commit ls d'"
| "last_commit (l # ls) d = last_commit ls d"

lemma last_commit_snoc: "last_commit (ls @ [l]) d = (case l of Others d' \<Rightarrow> d' | _ \<Rightarrow> last_commit ls d)"
  by (induction ls d rule: last_commit.induct) (auto split: main_label.split)

lemma after_call_db: "rm_db (after_call (c, r, d) m) = d"
  by (cases c) (simp_all add: lifecycle_exit_def)

lemma step_db: "main_step m l m' \<Longrightarrow> rm_db m' = (case l of Others d \<Rightarrow> d | _ \<Rightarrow> rm_db m)"
proof (induction rule: main_step.induct)
  case (begins m p)
  then show ?case using start_db [of p "rm_runner m" "rm_db m"]
    by (cases "rn_start p (rm_runner m) (rm_db m)") (simp add: main_begin_def after_call_db)
next
  case (wakes m p)
  then show ?case using turn_db [of p "rm_runner m" "rm_db m"]
    by (cases "rn_turn p (rm_runner m) (rm_db m)") (simp add: main_wake_def after_call_db)
qed (simp_all add: main_signal_def)

section \<open>Refinement of the watchdog\<close>

fun is_ping :: "wd_label \<Rightarrow> bool" where
  "is_ping (Ping now r) = True"
| "is_ping l = False"

fun pings :: "main_label list \<Rightarrow> wd_label list" where
  "pings [] = []"
| "pings (Background l # ls) = (if is_ping l then l # pings ls else pings ls)"
| "pings (l # ls) = pings ls"

lemma pings_snoc: "pings (ls @ [l]) = pings ls @ (case l of Background k \<Rightarrow> if is_ping k then [k] else [] | _ \<Rightarrow> [])"
  by (induction ls rule: pings.induct) (auto split: main_label.split)

text \<open>What the runner does to its watchdog is a run of the watchdog without a ping.\<close>

definition silently :: "runner_config \<Rightarrow> watchdog \<Rightarrow> watchdog \<Rightarrow> bool" where
  "silently c w w' = (\<forall>ws. wd_run c ws w \<longrightarrow> (\<exists>ws'. filter is_ping ws' = [] \<and> wd_run c (ws @ ws') w'))"

lemma silently_refl [simp]: "silently c w w"
  by (auto simp: silently_def intro: exI [of _ "[]"])

lemma silently_step: "wd_step c w l w' \<Longrightarrow> \<not> is_ping l \<Longrightarrow> silently c w w'"
  using wd_run.more unfolding silently_def by (metis filter.simps)

lemma silently_trans:
  assumes "silently c w w'" "silently c w' w''"
  shows "silently c w w''"
  unfolding silently_def
proof (intro allI impI)
  fix ws
  assume "wd_run c ws w"
  then obtain us where us: "filter is_ping us = []" "wd_run c (ws @ us) w'" using assms(1) by (auto simp: silently_def)
  then obtain vs where "filter is_ping vs = []" "wd_run c ((ws @ us) @ vs) w''"
    using assms(2) by (fastforce simp: silently_def)
  with us show "\<exists>ws'. filter is_ping ws' = [] \<and> wd_run c (ws @ ws') w''" by (intro exI [of _ "us @ vs"]) simp
qed

lemma silent_activity: "silently c w (record_activity now w)"
  by (rule silently_step [OF wd_step.activity]) simp

lemma silent_start: "silently c w (wd_start c w)"
  by (rule silently_step [OF wd_step.start]) simp

lemma silent_stop: "silently c w (wd_stop w)"
  by (rule silently_step [OF wd_step.stop]) simp

lemma silent_processing: "silently c (rn_watchdog r) (rn_watchdog (fold (process_execution now) es r))"
proof (induction es arbitrary: r)
  case (Cons e es)
  have "silently c (rn_watchdog r) (rn_watchdog (process_execution now e r))" by (simp add: silent_activity)
  from silently_trans [OF this Cons.IH] show ?case by simp
qed simp

lemma silent_poll: "silently c (rn_watchdog r) (rn_watchdog (fst (snd (rn_poll p r d))))"
  by (simp add: rn_poll_def silent_processing split: option.split prod.split sum.split)

lemma silent_turn: "silently c (rn_watchdog r) (rn_watchdog (fst (snd (rn_turn p r d))))"
  using silent_poll [of c r p d] by (auto simp: rn_turn_def split: prod.split option.split)

lemma silent_begin: "silently (rn_config r) (rn_watchdog r) (rn_watchdog (fst (snd (rn_start p r d))))"
proof (cases "rn_running r")
  case False
  let ?r = "r\<lparr>rn_running := True, rn_watchdog := wd_start (rn_config r) (rn_watchdog r)\<rparr>"
  have "silently (rn_config r) (rn_watchdog ?r) (rn_watchdog (fst (snd (rn_turn p ?r d))))" by (rule silent_turn)
  moreover have "silently (rn_config r) (rn_watchdog r) (rn_watchdog ?r)" by (simp add: silent_start)
  ultimately show ?thesis using False silently_trans by (fastforce simp: rn_start_def)
qed (simp add: rn_start_def)

lemma silent_after:
  assumes "silently c w (rn_watchdog (fst (snd res)))"
  shows "silently c w (rn_watchdog (rm_runner (after_call res m)))"
  using assms silently_trans [OF _ silent_stop]
  by (cases "(res, m)" rule: after_call.cases) (auto simp: lifecycle_exit_def rn_stop_def)

lemma after_call_config: "rn_config (rm_runner (after_call res m)) = rn_config (fst (snd res))"
  by (cases "(res, m)" rule: after_call.cases) (simp_all add: lifecycle_exit_def)

lemma step_config: "main_step m l m' \<Longrightarrow> rn_config (rm_runner m') = rn_config (rm_runner m)"
proof (induction rule: main_step.induct)
  case (begins m p)
  then show ?case using start_db [of p "rm_runner m" "rm_db m"] by (simp add: main_begin_def after_call_config prod_eq_iff)
next
  case (wakes m p)
  then show ?case using turn_db [of p "rm_runner m" "rm_db m"] by (simp add: main_wake_def after_call_config prod_eq_iff)
qed (simp_all add: main_signal_def)

lemma run_config: "main_run m ls m' \<Longrightarrow> rn_config (rm_runner m') = rn_config (rm_runner m)"
  by (induction rule: main_run.induct) (simp_all add: step_config)

lemma step_refines_watchdog:
  assumes "main_step m l m'" "rn_config (rm_runner m) = c" "wd_run c ws (rn_watchdog (rm_runner m))"
  shows "\<exists>us. wd_run c (ws @ us) (rn_watchdog (rm_runner m')) \<and> filter is_ping us = pings [l]"
  using assms(1)
proof (cases rule: main_step.cases)
  case (background k w)
  then show ?thesis using wd_run.more [OF assms(3)] assms(2) by (intro exI [of _ "[k]"]) simp
next
  case (begins p)
  then show ?thesis using silent_after [OF silent_begin [of "rm_runner m" p "rm_db m"]] assms(2,3)
    by (auto simp: silently_def main_begin_def)
next
  case (wakes p)
  then show ?thesis using silent_after [OF silent_turn [of c "rm_runner m" p "rm_db m"]] assms(3)
    by (auto simp: silently_def main_wake_def)
next
  case signal
  then show ?thesis using silent_stop [of c "rn_watchdog (rm_runner m)"] assms(3)
    by (auto simp: silently_def main_signal_def rn_stop_def)
next
  case (others d)
  then show ?thesis using assms(3) by (intro exI [of _ "[]"]) simp
qed

section \<open>Properties\<close>

text \<open>
  C34: A signal stops the runner. From the moment in which SIGINT or SIGTERM is handled, in every
  run of the process, nothing is polled, validated or pinged any more; the loop can go on, and
  wherever it wakes from its sleep the process ends without an exception, the runner and its
  watchdog stopped and the signal handlers removed.
\<close>

theorem signal_stops_runner:
  assumes "main_run (init_main c v d) (ls @ [Signal]) m0" "main_run m0 ls' m"
  shows "rn_log (rm_runner m) = rn_log (rm_runner m0) \<and> (\<forall>k. Background k \<notin> set ls') \<and>
    \<not> rn_running (rm_runner m) \<and> \<not> is_running (rn_watchdog (rm_runner m)) \<and>
    (if \<exists>p. Wake p \<in> set ls' then rm_phase m = Finished None \<and> \<not> rm_handlers m
     else \<forall>p. main_step m (Wake p) (lifecycle_exit None m))"
proof -
  obtain m1 where m1: "main_run (init_main c v d) ls m1" "main_step m1 Signal m0"
    using assms(1) by (auto elim: main_snoc_cases)
  have inv: "main_inv m1" "main_inv m" using inv_run [OF m1(1) inv_init] inv_run [OF assms(2)]
      inv_step [OF m1(2)] by blast+
  note s = stopped_signal [OF m1(2) inv(1)]
  have r: "stopped m" "rn_log (rm_runner m) = rn_log (rm_runner m0)" "\<forall>k. Background k \<notin> set ls'"
    "rm_phase m = (if \<exists>p. Wake p \<in> set ls' then Finished None else Looping)"
    using stopped_run [OF assms(2) s(1)] s(2,3) by auto
  moreover have "rm_phase m = Finished None \<Longrightarrow> \<not> rm_handlers m" using inv(2) by (simp add: main_inv_def Let_def)
  moreover have "main_step m (Wake p) (lifecycle_exit None m)" if "rm_phase m = Looping" for p
    using main_step.wakes [OF that] stopped_wake [OF r(1)] by simp
  ultimately show ?thesis by (auto simp: stopped_def is_running_def)
qed

definition one_poll :: poll_input where
  "one_poll = \<lparr>pi_connect = None, pi_pk = (\<lambda>i. Some 77), pi_correlation = ''c'', pi_isofmt = (\<lambda>n. []), pi_now = 5,
     pi_monotonic = 8\<rparr>"

definition accepting :: validator_fun where
  "accepting e = Inr True"

lemma one_main_run:
  assumes "m1 = main_begin one_poll (init_main c v d)" "rm_phase m1 = Looping" "rm_handlers m1"
  shows "main_run (init_main c v d) [Begin one_poll] m1" "main_run (init_main c v d) [Begin one_poll, Signal] (main_signal m1)"
    "main_run (main_signal m1) [Wake one_poll] (main_wake one_poll (main_signal m1))"
proof -
  have b: "main_step (init_main c v d) (Begin one_poll) m1"
    using main_step.begins [of "init_main c v d" one_poll] assms(1) by (simp add: init_main_def)
  show one: "main_run (init_main c v d) [Begin one_poll] m1" using main_run.more [OF main_run.none b] by simp
  show "main_run (init_main c v d) [Begin one_poll, Signal] (main_signal m1)"
    using main_run.more [OF one main_step.signal [OF assms(3)]] by simp
  have "rm_phase (main_signal m1) = Looping" using assms(2) by (simp add: main_signal_def)
  from main_run.more [OF main_run.none main_step.wakes [OF this]]
  show "main_run (main_signal m1) [Wake one_poll] (main_wake one_poll (main_signal m1))" by simp
qed

lemma example_begin:
  "let m = main_begin one_poll (init_main (default_config 0) (Some accepting) prepared_db) in
     rm_phase m = Looping \<and> rm_handlers m \<and> rn_log (rm_runner m) = [Validation_Passed 77]"
  by code_simp

theorem signal_stops_runner_witness:
  "rm_phase (main_wake one_poll (main_signal (main_begin one_poll
     (init_main (default_config 0) (Some accepting) prepared_db)))) = Finished None"
proof -
  note e = example_begin [unfolded Let_def]
  note r = one_main_run [OF refl e [THEN conjunct1] e [THEN conjunct2, THEN conjunct1]]
  show ?thesis using signal_stops_runner [where ls = "[Begin one_poll]", simplified, OF r(2,3)] by simp
qed

text \<open>
  C32: The runner persists nothing. In every run of the process the database is what other
  processes committed last: executions are claimed, logged and validated in sessions that are
  closed without a commit.
\<close>

theorem runner_persists_nothing:
  assumes "main_run (init_main c v d) ls m"
  shows "rm_db m = last_commit ls d"
  using assms
proof (induction rule: main_run.induct)
  case none
  then show ?case by (simp add: init_main_def)
next
  case (more ls m1 l m2)
  then show ?case using step_db [OF more.hyps(2)] by (cases l) (simp_all add: last_commit_snoc)
qed

theorem runner_persists_nothing_witness:
  "\<exists>m. main_run (init_main (default_config 0) (Some accepting) prepared_db) [Begin one_poll] m \<and>
     rn_log (rm_runner m) = [Validation_Passed 77] \<and> rm_db m = prepared_db"
proof -
  note e = example_begin [unfolded Let_def]
  note r = one_main_run(1) [OF refl e [THEN conjunct1] e [THEN conjunct2, THEN conjunct1]]
  show ?thesis using r e runner_persists_nothing [OF r] by auto
qed

text \<open>
  The runner refines the watchdog. In every run of the process, what happens to its watchdog is
  a run of the watchdog with the same pings, so the pings of a process that the service accepts
  are never more than \<open>watchdog_max_continues\<close>, however often it polls.
\<close>

theorem runner_refines_watchdog:
  assumes "main_run (init_main c v d) ls m"
  shows "\<exists>ws. wd_run c ws (rn_watchdog (rm_runner m)) \<and> filter is_ping ws = pings ls \<and>
    int (length (filter counted (pings ls))) \<le> max 0 (rc_watchdog_max_continues c)"
proof -
  have "\<exists>ws. wd_run c ws (rn_watchdog (rm_runner m)) \<and> filter is_ping ws = pings ls"
    using assms
  proof (induction rule: main_run.induct)
    case none
    show ?case using wd_run.fresh by (fastforce simp: init_main_def new_runner_def)
  next
    case (more ls m1 l m2)
    then obtain ws where ws: "wd_run c ws (rn_watchdog (rm_runner m1))" "filter is_ping ws = pings ls" by auto
    have "rn_config (rm_runner m1) = c" using run_config [OF more.hyps(1)] by (simp add: init_main_def new_runner_def)
    from step_refines_watchdog [OF more.hyps(2) this ws(1)] ws(2) show ?case
      by (auto simp: pings_snoc split: main_label.split)
  qed
  then obtain ws where ws: "wd_run c ws (rn_watchdog (rm_runner m))" "filter is_ping ws = pings ls" by blast
  have "counted k \<Longrightarrow> is_ping k" for k by (cases k) (simp_all add: counted_def)
  then have "filter counted ws = filter counted (filter is_ping ws)" by (auto intro: filter_cong)
  with ws wd_run_inv [OF ws(1)] show ?thesis by (auto simp: wd_inv_def)
qed

theorem runner_refines_watchdog_witness:
  "\<exists>m ws. main_run (init_main (default_config 0) (Some accepting) prepared_db) [Begin one_poll] m \<and>
     wd_run (default_config 0) ws (rn_watchdog (rm_runner m)) \<and> filter is_ping ws = []"
proof -
  note e = example_begin [unfolded Let_def]
  note r = one_main_run(1) [OF refl e [THEN conjunct1] e [THEN conjunct2, THEN conjunct1]]
  show ?thesis using r runner_refines_watchdog [OF r] by auto
qed

text \<open>
  One runner object may get two loops: a call of \<open>start\<close> after \<open>stop\<close>, while the first call
  still sleeps, polls at once, and when the first one wakes it polls again, too.
\<close>

lemma restart_gives_two_loops:
  assumes "rn_start p r d = (Sleeping, r1, d1)" "pi_connect q = None" "pi_connect p' = None"
  shows "\<exists>r2. rn_start q (rn_stop r1) d1 = (Sleeping, r2, d1) \<and> fst (rn_turn p' r2 d1) = Sleeping"
proof -
  let ?r = "(rn_stop r1)\<lparr>rn_running := True, rn_watchdog := wd_start (rn_config r1) (rn_watchdog (rn_stop r1))\<rparr>"
  obtain r2 where "rn_poll q ?r d1 = (None, r2, d1)" "rn_running r2" using assms(2)
    by (auto intro: poll_cases [of q ?r d1])
  then have "rn_start q (rn_stop r1) d1 = (Sleeping, r2, d1)" "rn_running r2" by (simp_all add: rn_start_def rn_turn_def)
  moreover have "fst (rn_turn p' r2 d1) = Sleeping" if "rn_running r2"
    using that assms(3) by (auto intro: poll_cases [of p' r2 d1] simp: rn_turn_def)
  ultimately show ?thesis by blast
qed

text \<open>
  Without the context manager a cancelled loop leaves the watchdog behind: it still runs, and a
  new start finds it running.
\<close>

lemma cancelled_keeps_watchdog: "rn_watchdog (rn_cancelled r) = rn_watchdog r"
  by (simp add: rn_cancelled_def)

text \<open>A validator that raises ends neither the poll nor the claim of a single task.\<close>

lemma single_claim_returns: "pi_connect p = None \<Longrightarrow> \<exists>res. fst (rn_claim_single p i r d) = Inr res"
  by (simp add: rn_claim_single_def split: prod.split option.split)

end
