(* ===== verification/Result_Inspector.thy ===== *)
theory Result_Inspector
  imports Git_Context "HOL-Library.List_Lexorder" "HOL-Library.Char_ord"
begin

text \<open>
  \<open>runner/result_inspector.py\<close>: what a task left in its worktree and whether it was allowed
  to. Git is the field \<open>ge_run\<close> of the environment of \<open>Git_Context\<close>; it may answer anything
  and may change the world between two questions.
\<close>

section \<open>Git commands\<close>

text \<open>
  A command run with \<open>check=False\<close>: exit status, output and error output, or the exception
  that \<open>subprocess\<close> raises.
\<close>

type_synonym git_output = "int \<times> string \<times> string"

definition run_git :: "'g git_env \<Rightarrow> string \<Rightarrow> string list \<Rightarrow> 'g \<Rightarrow> (exn + git_output) \<times> 'g" where
  "run_git E cwd args g = (case ge_run E args cwd g of
       (GitOk out, g') \<Rightarrow> (Inr (0, out, []), g')
     | (GitExit rc out err, g') \<Rightarrow> (Inr (rc, out, err), g')
     | (GitTimeout, g') \<Rightarrow> (Inl (TimeoutExpired (join_with '' '' (''git'' # args))), g')
     | (GitRaise m, g') \<Rightarrow> (Inl (OtherException m), g'))"

text \<open>\<open>try\<close> a command and read its output; an exception gives the default.\<close>

definition ask_git :: "'g git_env \<Rightarrow> string \<Rightarrow> string list \<Rightarrow> (int \<Rightarrow> string \<Rightarrow> 'a) \<Rightarrow> 'a \<Rightarrow> 'g \<Rightarrow> 'a \<times> 'g" where
  "ask_git E cwd args f dflt g = (case run_git E cwd args g of
       (Inr (rc, out, err), g') \<Rightarrow> (f rc out, g') | (Inl x, g') \<Rightarrow> (dflt, g'))"

section \<open>ResultInspector\<close>

record inspector =
  ri_worktree_path :: string
  ri_commit_sha_before :: "string option"
  ri_allowed_paths :: "string list"
  ri_runner_mode :: runner_mode

record inspection_result =
  ir_commit_sha_after :: "string option"
  ir_new_commit_shas :: "string list option"
  ir_changed_files :: "string list option"
  ir_diff_stat :: "string option"
  ir_has_uncommitted_changes :: bool
  ir_inspection_status :: string
  ir_read_only_violation :: bool
  ir_out_of_scope_changes :: bool
  ir_violation_details :: "(string \<times> json) list option"

definition lines_of :: "int \<Rightarrow> string \<Rightarrow> string list" where
  "lines_of rc out = (if rc = 0 \<and> strip out \<noteq> [] then split_on (CHR 0x0A) (strip out) else [])"

definition current_head :: "int \<Rightarrow> string \<Rightarrow> string option" where
  "current_head rc out = (if rc = 0 then Some (strip out) else None)"

definition get_head :: "'g git_env \<Rightarrow> inspector \<Rightarrow> 'g \<Rightarrow> string option \<times> 'g" where
  "get_head E I g = ask_git E (ri_worktree_path I) [''rev-parse'', ''HEAD''] current_head None g"

definition get_new_commits :: "'g git_env \<Rightarrow> inspector \<Rightarrow> 'g \<Rightarrow> string list \<times> 'g" where
  "get_new_commits E I g = (if \<not> str_truthy (ri_commit_sha_before I) then ([], g)
     else ask_git E (ri_worktree_path I) [''rev-list'', the (ri_commit_sha_before I) @ ''..HEAD''] lines_of [] g)"

text \<open>A line of \<open>git status --porcelain\<close>: the first word after the third character.\<close>

definition porcelain_paths :: "string list \<Rightarrow> string list" where
  "porcelain_paths ls = concat (map (\<lambda>l. take 1 (py_words (strip (drop 3 l)))) ls)"

definition committed_files :: "'g git_env \<Rightarrow> inspector \<Rightarrow> 'g \<Rightarrow> string list \<times> 'g" where
  "committed_files E I g = (if \<not> str_truthy (ri_commit_sha_before I) then ([], g)
     else ask_git E (ri_worktree_path I)
       [''diff'', ''--name-only'', the (ri_commit_sha_before I) @ ''..HEAD''] lines_of [] g)"

definition uncommitted_files :: "'g git_env \<Rightarrow> inspector \<Rightarrow> 'g \<Rightarrow> string list \<times> 'g" where
  "uncommitted_files E I g =
     ask_git E (ri_worktree_path I) [''status'', ''--porcelain''] (\<lambda>rc out. porcelain_paths (lines_of rc out)) [] g"

definition get_changed_files :: "'g git_env \<Rightarrow> inspector \<Rightarrow> 'g \<Rightarrow> string list \<times> 'g" where
  "get_changed_files E I g = (case committed_files E I g of (cs, g1) \<Rightarrow>
     (case uncommitted_files E I g1 of (us, g2) \<Rightarrow> (sort (remdups (cs @ us)), g2)))"

definition get_diff_stat :: "'g git_env \<Rightarrow> inspector \<Rightarrow> 'g \<Rightarrow> string option \<times> 'g" where
  "get_diff_stat E I g = (if \<not> str_truthy (ri_commit_sha_before I) then (None, g)
     else ask_git E (ri_worktree_path I) [''diff'', ''--stat'', the (ri_commit_sha_before I)]
       (\<lambda>rc out. if rc = 0 \<and> strip out \<noteq> [] then Some (strip out) else None) None g)"

definition has_uncommitted :: "'g git_env \<Rightarrow> inspector \<Rightarrow> 'g \<Rightarrow> bool \<times> 'g" where
  "has_uncommitted E I g =
     ask_git E (ri_worktree_path I) [''status'', ''--porcelain''] (\<lambda>rc out. strip out \<noteq> []) False g"

section \<open>Allowed paths\<close>

definition normalize_path :: "string \<Rightarrow> string" where
  "normalize_path p = dropWhile (\<lambda>c. c = CHR ''/'') (map (\<lambda>c. if c = CHR 0x5C then CHR ''/'' else c) p)"

definition is_path_allowed :: "string list \<Rightarrow> string \<Rightarrow> bool" where
  "is_path_allowed allowed p = (if allowed = [] then True
     else (\<exists>a \<in> set allowed. prefix (normalize_path a) (normalize_path p)))"

definition check_out_of_scope :: "string list \<Rightarrow> string list \<Rightarrow> bool \<times> string list" where
  "check_out_of_scope allowed files = (if allowed = [] then (False, [])
     else (let v = filter (\<lambda>f. \<not> is_path_allowed allowed f) files in (v \<noteq> [], v)))"

section \<open>The verdict\<close>

text \<open>What the inspector reads from the worktree, in the order in which it asks.\<close>

record worktree_facts =
  wf_head :: "string option"
  wf_commits :: "string list"
  wf_files :: "string list"
  wf_diff_stat :: "string option"
  wf_uncommitted :: bool

definition gather :: "'g git_env \<Rightarrow> inspector \<Rightarrow> 'g \<Rightarrow> worktree_facts \<times> 'g" where
  "gather E I g =
     (case get_head E I g of (h, g1) \<Rightarrow>
     (case get_new_commits E I g1 of (cs, g2) \<Rightarrow>
     (case get_changed_files E I g2 of (fs, g3) \<Rightarrow>
     (case get_diff_stat E I g3 of (ds, g4) \<Rightarrow>
     (case has_uncommitted E I g4 of (u, g5) \<Rightarrow>
       (\<lparr>wf_head = h, wf_commits = cs, wf_files = fs, wf_diff_stat = ds, wf_uncommitted = u\<rparr>, g5))))))"

definition files_json :: "string list \<Rightarrow> json" where
  "files_json fs = JList (map JStr fs)"

definition set_detail :: "string \<Rightarrow> json \<Rightarrow> inspection_result \<Rightarrow> inspection_result" where
  "set_detail k v r = r\<lparr>ir_violation_details :=
     Some (AList.update k v (case ir_violation_details r of None \<Rightarrow> [] | Some d \<Rightarrow> d))\<rparr>"

definition to_review :: "inspection_result \<Rightarrow> inspection_result" where
  "to_review r = (if ir_inspection_status r = ''passed'' then r\<lparr>ir_inspection_status := ''review''\<rparr> else r)"

definition check_read_only :: "inspector \<Rightarrow> worktree_facts \<Rightarrow> inspection_result \<Rightarrow> inspection_result" where
  "check_read_only I w r =
     (if ri_runner_mode I = READ_ONLY \<and> (wf_files w \<noteq> [] \<or> wf_uncommitted w) then
        r\<lparr>ir_read_only_violation := True, ir_inspection_status := ''failed'',
          ir_violation_details := Some [(''reason'', JStr ''Read-only task has changes''),
            (''changed_files'', files_json (wf_files w)), (''has_uncommitted'', JBool (wf_uncommitted w))]\<rparr>
      else r)"

definition check_scope :: "inspector \<Rightarrow> worktree_facts \<Rightarrow> inspection_result \<Rightarrow> inspection_result" where
  "check_scope I w r =
     (if ri_runner_mode I = WRITE \<and> ri_allowed_paths I \<noteq> [] then
        (case check_out_of_scope (ri_allowed_paths I) (wf_files w) of
           (True, v) \<Rightarrow> set_detail ''out_of_scope_files'' (files_json v) (to_review (r\<lparr>ir_out_of_scope_changes := True\<rparr>))
         | (False, v) \<Rightarrow> r)
      else r)"

definition check_commits :: "inspector \<Rightarrow> worktree_facts \<Rightarrow> inspection_result \<Rightarrow> inspection_result" where
  "check_commits I w r =
     (if ri_runner_mode I = WRITE \<and> wf_commits w = [] \<and> wf_files w = [] then
        set_detail ''reason'' (JStr ''No changes detected'') (to_review r)
      else r)"

definition judge :: "inspector \<Rightarrow> worktree_facts \<Rightarrow> inspection_result" where
  "judge I w = check_commits I w (check_scope I w (check_read_only I w
     \<lparr>ir_commit_sha_after = wf_head w,
      ir_new_commit_shas = (if wf_commits w = [] then None else Some (wf_commits w)),
      ir_changed_files = (if wf_files w = [] then None else Some (wf_files w)),
      ir_diff_stat = wf_diff_stat w, ir_has_uncommitted_changes = wf_uncommitted w,
      ir_inspection_status = ''passed'', ir_read_only_violation = False,
      ir_out_of_scope_changes = False, ir_violation_details = None\<rparr>))"

definition inspect :: "'g git_env \<Rightarrow> inspector \<Rightarrow> 'g \<Rightarrow> inspection_result \<times> 'g" where
  "inspect E I g = (case gather E I g of (w, g') \<Rightarrow> (judge I w, g'))"

definition inspect_task_result :: "'g git_env \<Rightarrow> (string \<Rightarrow> string) \<Rightarrow> string \<Rightarrow> string option \<Rightarrow> runner_mode \<Rightarrow>
    string list option \<Rightarrow> 'g \<Rightarrow> inspection_result \<times> 'g" where
  "inspect_task_result E resolve path sha mode allowed g =
     inspect E \<lparr>ri_worktree_path = resolve path, ri_commit_sha_before = sha,
       ri_allowed_paths = (case allowed of None \<Rightarrow> [] | Some ps \<Rightarrow> ps), ri_runner_mode = mode\<rparr> g"

section \<open>Properties\<close>

lemma judge_status:
  "ir_inspection_status (judge I w) =
    (if ri_runner_mode I = READ_ONLY then (if wf_files w \<noteq> [] \<or> wf_uncommitted w then ''failed'' else ''passed'')
     else if (\<exists>f \<in> set (wf_files w). \<not> is_path_allowed (ri_allowed_paths I) f) \<or>
         (wf_commits w = [] \<and> wf_files w = []) then ''review''
     else ''passed'') \<and>
   ir_read_only_violation (judge I w) = (ir_inspection_status (judge I w) = ''failed'')"
  by (cases "ri_runner_mode I")
     (auto simp: judge_def check_commits_def check_scope_def check_read_only_def check_out_of_scope_def
        set_detail_def to_review_def is_path_allowed_def filter_empty_conv Let_def split: if_splits bool.splits)

lemma gather_files: "sorted (wf_files (fst (gather E I g))) \<and> distinct (wf_files (fst (gather E I g)))"
  by (auto simp: gather_def get_changed_files_def split: prod.splits)

text \<open>
  C18: The verdict of the inspection. A read-only task fails exactly when the worktree shows
  changed files or uncommitted changes; a write task is put to review exactly when a changed
  file is outside the allowed paths or nothing changed at all; everything else passes. So
  what passes in write mode stays inside the allowed paths, and what passes read-only has
  changed nothing that git reported.
\<close>

theorem inspect_verdict:
  assumes "inspect E I g = (r, g')"
  shows "\<exists>w. gather E I g = (w, g') \<and>
    (ir_inspection_status r = ''failed'' \<longleftrightarrow>
       ri_runner_mode I = READ_ONLY \<and> (wf_files w \<noteq> [] \<or> wf_uncommitted w)) \<and>
    (ir_inspection_status r = ''review'' \<longleftrightarrow>
       ri_runner_mode I = WRITE \<and> ((\<exists>f \<in> set (wf_files w). \<not> is_path_allowed (ri_allowed_paths I) f) \<or>
         (wf_commits w = [] \<and> wf_files w = []))) \<and>
    ir_inspection_status r \<in> {''passed'', ''review'', ''failed''} \<and>
    (ir_read_only_violation r \<longleftrightarrow> ir_inspection_status r = ''failed'') \<and>
    sorted (wf_files w) \<and> distinct (wf_files w)"
proof -
  obtain w where w: "gather E I g = (w, g')" "r = judge I w"
    using assms by (auto simp: inspect_def split: prod.splits)
  with judge_status [of I w] gather_files [of E I g] show ?thesis
    by (cases "ri_runner_mode I") auto
qed

text \<open>A worktree that answers every question with a list of outputs, and one without git.\<close>

definition answering :: "(string list \<Rightarrow> git_result) \<Rightarrow> unit git_env" where
  "answering f = \<lparr>ge_run = (\<lambda>args cwd g. (f args, g)), ge_exists = (\<lambda>_ _. True), ge_resolve = (\<lambda>p _. Some p)\<rparr>"

definition sample_inspector :: "runner_mode \<Rightarrow> inspector" where
  "sample_inspector m = \<lparr>ri_worktree_path = ''/w'', ri_commit_sha_before = Some ''c0'',
     ri_allowed_paths = [''src/''], ri_runner_mode = m\<rparr>"

theorem inspect_verdict_witness:
  "ir_inspection_status (fst (inspect (answering (\<lambda>args. GitOk (if hd args = ''diff'' then ''doc/a'' else []))) (sample_inspector WRITE) ())) = ''review''"
proof -
  let ?E = "answering (\<lambda>args. GitOk (if hd args = ''diff'' then ''doc/a'' else []))"
  have w: "wf_files (fst (gather ?E (sample_inspector WRITE) ())) = [''doc/a'']" by code_simp
  have a: "\<not> is_path_allowed [''src/''] ''doc/a''" by code_simp
  obtain r where r: "inspect ?E (sample_inspector WRITE) () = (r, ())" by (cases "inspect ?E (sample_inspector WRITE) ()") simp
  from inspect_verdict [OF r] w a show ?thesis
    unfolding r by (auto simp: sample_inspector_def)
qed

lemma ask_unanswered:
  assumes "fst (ge_run E args cwd g) \<in> {GitTimeout, GitRaise m}"
  shows "fst (ask_git E cwd args f d g) = d"
proof -
  obtain o' g' where "ge_run E args cwd g = (o', g')" by (cases "ge_run E args cwd g")
  with assms show ?thesis by (auto simp: ask_git_def run_git_def)
qed

text \<open>
  No answer counts as no change. When git cannot be run or times out on every question,
  a read-only task passes the inspection, and it reports no commit, no file and no
  uncommitted change.
\<close>

theorem unanswered_inspection_passes:
  assumes "\<And>args cwd g. fst (ge_run E args cwd g) \<in> {GitTimeout, GitRaise m}"
    and "ri_runner_mode I = READ_ONLY"
  shows "ir_inspection_status (fst (inspect E I g)) = ''passed'' \<and> ir_changed_files (fst (inspect E I g)) = None \<and>
    \<not> ir_has_uncommitted_changes (fst (inspect E I g))"
proof -
  note ask = ask_unanswered [of E _ _ _ m, OF assms(1)]
  have fs: "fst (get_changed_files E I g) = []" for g
    by (simp add: get_changed_files_def split_beta committed_files_def uncommitted_files_def ask)
  have w: "wf_files (fst (gather E I g)) = [] \<and> \<not> wf_uncommitted (fst (gather E I g))"
    by (simp add: gather_def split_beta fs has_uncommitted_def ask)
  have "fst (inspect E I g) = judge I (fst (gather E I g))" by (simp add: inspect_def split_beta)
  moreover have "ir_changed_files (judge I (fst (gather E I g))) = None \<and>
      \<not> ir_has_uncommitted_changes (judge I (fst (gather E I g)))"
    using assms(2) w by (simp add: judge_def check_commits_def check_scope_def check_read_only_def)
  ultimately show ?thesis using judge_status [of I "fst (gather E I g)"] assms(2) w by simp
qed

theorem unanswered_inspection_passes_witness:
  "ir_inspection_status (fst (inspect (answering (\<lambda>_. GitTimeout)) (sample_inspector READ_ONLY) ())) = ''passed''"
  using unanswered_inspection_passes [where E = "answering (\<lambda>_. GitTimeout)" and m = "[]"
      and I = "sample_inspector READ_ONLY" and g = "()"]
  by (simp add: answering_def sample_inspector_def)

text \<open>
  The output of \<open>git status\<close> is stripped before its lines are cut, so a first line that
  starts with a blank loses the first letter of its path; a path is cut at its first blank;
  and an allowed path is a prefix of the text, not of the directories.
\<close>

lemma porcelain_first_line_loses_letter:
  "porcelain_paths (lines_of 0 ('' M file'' @ [CHR 0x0A] @ '' M other'')) = [''ile'', ''other'']"
  by code_simp

lemma allowed_path_is_text_prefix: "is_path_allowed [''src''] ''src-private/key''"
  by code_simp

end
