(* ===== verification/Commit_Adopter.thy ===== *)
theory Commit_Adopter
  imports Result_Inspector
begin

text \<open>
  \<open>runner/commit_adopter.py\<close>: taking the commit of a task over into the target branch by
  cherry-pick, with its checks before and after. Git and the validation commands are
  functions of an arbitrary world.
\<close>

section \<open>Data\<close>

record adoption_result =
  ar_success :: bool
  ar_adopted_commit_sha :: "string option"
  ar_original_commit_sha :: "string option"
  ar_conflict_detected :: bool
  ar_validation_passed :: bool
  ar_target_branch_head :: "string option"
  ar_error_message :: "string option"
  ar_needs_review :: bool

record adopter =
  ca_target_worktree_path :: string
  ca_target_branch :: string
  ca_task_worktree_path :: string
  ca_task_commit_sha :: string
  ca_validation_commands :: "string list"

datatype command_result = CmdExit int | CmdTimeout | CmdError string

section \<open>Steps\<close>

definition is_target_branch_clean :: "'g git_env \<Rightarrow> adopter \<Rightarrow> 'g \<Rightarrow> bool \<times> 'g" where
  "is_target_branch_clean E A g =
     ask_git E (ca_target_worktree_path A) [''status'', ''--porcelain''] (\<lambda>rc out. strip out = []) False g"

definition get_current_target_head :: "'g git_env \<Rightarrow> adopter \<Rightarrow> 'g \<Rightarrow> string option \<times> 'g" where
  "get_current_target_head E A g =
     ask_git E (ca_target_worktree_path A) [''rev-parse'', ''HEAD''] current_head None g"

text \<open>An exception in either question ends the check with a no.\<close>

definition is_commit_already_adopted :: "'g git_env \<Rightarrow> adopter \<Rightarrow> 'g \<Rightarrow> bool \<times> 'g" where
  "is_commit_already_adopted E A g =
     (case run_git E (ca_target_worktree_path A)
             [''merge-base'', ''--is-ancestor'', ca_task_commit_sha A, ''HEAD''] g of
        (Inl x, g1) \<Rightarrow> (False, g1)
      | (Inr (rc, out, err), g1) \<Rightarrow>
          if rc = 0 then (True, g1)
          else ask_git E (ca_target_worktree_path A) [''log'', ''--oneline'', ''HEAD'']
                 (\<lambda>rc out. rc = 0 \<and> str_in (take 8 (ca_task_commit_sha A)) out) False g1)"

definition checkout_target_branch :: "'g git_env \<Rightarrow> adopter \<Rightarrow> 'g \<Rightarrow> bool \<times> 'g" where
  "checkout_target_branch E A g =
     (let git = run_git E (ca_target_worktree_path A);
          pull = (\<lambda>g. git [''pull'', ''origin'', ca_target_branch A] g);
          finish = (\<lambda>g. case pull g of (Inl x, g') \<Rightarrow> (False, g') | (Inr _, g') \<Rightarrow> (True, g')) in
      case git [''fetch'', ''origin'', ca_target_branch A] g of
        (Inl x, g1) \<Rightarrow> (False, g1)
      | (Inr _, g1) \<Rightarrow>
          (case git [''checkout'', ca_target_branch A] g1 of
             (Inl x, g2) \<Rightarrow> (False, g2)
           | (Inr (rc, out, err), g2) \<Rightarrow>
               if rc \<noteq> 0 then
                 (case pull g2 of
                    (Inl x, g3) \<Rightarrow> (False, g3)
                  | (Inr (rc', out', err'), g3) \<Rightarrow> if rc' \<noteq> 0 then (False, g3) else finish g3)
               else finish g2))"

fun run_validation_commands :: "(string \<Rightarrow> 'g \<Rightarrow> command_result \<times> 'g) \<Rightarrow> string list \<Rightarrow> 'g \<Rightarrow> bool \<times> 'g" where
  "run_validation_commands exe [] g = (True, g)"
| "run_validation_commands exe (c # cs) g =
     (case exe c g of
        (CmdExit rc, g') \<Rightarrow> if rc \<noteq> 0 then (False, g') else run_validation_commands exe cs g'
      | (_, g') \<Rightarrow> (False, g'))"

definition new_adoption :: "adopter \<Rightarrow> adoption_result" where
  "new_adoption A = \<lparr>ar_success = False, ar_adopted_commit_sha = None,
     ar_original_commit_sha = Some (ca_task_commit_sha A), ar_conflict_detected = False,
     ar_validation_passed = False, ar_target_branch_head = None, ar_error_message = None,
     ar_needs_review = False\<rparr>"

definition for_review :: "string \<Rightarrow> adoption_result \<Rightarrow> adoption_result" where
  "for_review why r = r\<lparr>ar_error_message := Some why, ar_needs_review := True\<rparr>"

definition already_adopted :: "'g git_env \<Rightarrow> adopter \<Rightarrow> 'g \<Rightarrow> adoption_result \<times> 'g" where
  "already_adopted E A g = (case get_current_target_head E A g of (h, g') \<Rightarrow>
     ((new_adoption A)\<lparr>ar_success := True, ar_adopted_commit_sha := Some (ca_task_commit_sha A),
        ar_validation_passed := True, ar_target_branch_head := h\<rparr>, g'))"

text \<open>
  A cherry-pick that fails is taken for a conflict whatever the status says, as its exit
  status alone satisfies the test; it is aborted. Exceptions of these three commands are not
  caught.
\<close>

definition failed_pick :: "'g git_env \<Rightarrow> adopter \<Rightarrow> string \<Rightarrow> 'g \<Rightarrow> (exn + adoption_result) \<times> 'g" where
  "failed_pick E A err g =
     (case run_git E (ca_target_worktree_path A) [''status'', ''--porcelain''] g of
        (Inl x, g1) \<Rightarrow> (Inl x, g1)
      | (Inr _, g1) \<Rightarrow>
          (case run_git E (ca_target_worktree_path A) [''cherry-pick'', ''--abort''] g1 of
             (Inl x, g2) \<Rightarrow> (Inl x, g2)
           | (Inr _, g2) \<Rightarrow> (Inr (for_review (''Cherry-pick conflict: '' @ err)
               ((new_adoption A)\<lparr>ar_conflict_detected := True\<rparr>)), g2)))"

definition verify_adoption :: "'g git_env \<Rightarrow> adopter \<Rightarrow> string option \<Rightarrow> adoption_result \<Rightarrow> 'g \<Rightarrow>
    adoption_result \<times> 'g" where
  "verify_adoption E A before r g = (case get_current_target_head E A g of (h, g') \<Rightarrow>
     (let r' = r\<lparr>ar_validation_passed := True, ar_target_branch_head := h\<rparr> in
      if str_truthy h \<and> h \<noteq> before then (r'\<lparr>ar_success := True\<rparr>, g')
      else (for_review ''Adoption verification failed: HEAD unchanged'' r', g')))"

definition finish_adoption :: "'g git_env \<Rightarrow> (string \<Rightarrow> 'g \<Rightarrow> command_result \<times> 'g) \<Rightarrow> adopter \<Rightarrow>
    string option \<Rightarrow> 'g \<Rightarrow> adoption_result \<times> 'g" where
  "finish_adoption E exe A before g = (case get_current_target_head E A g of (sha, g1) \<Rightarrow>
     (let r = (new_adoption A)\<lparr>ar_adopted_commit_sha := sha\<rparr> in
      case run_validation_commands exe (ca_validation_commands A) g1 of
        (False, g2) \<Rightarrow> (for_review ''Validation commands failed'' r, g2)
      | (True, g2) \<Rightarrow> verify_adoption E A before r g2))"

definition adopt :: "'g git_env \<Rightarrow> (string \<Rightarrow> 'g \<Rightarrow> command_result \<times> 'g) \<Rightarrow> adopter \<Rightarrow> 'g \<Rightarrow>
    (exn + adoption_result) \<times> 'g" where
  "adopt E exe A g =
     (case is_target_branch_clean E A g of
        (False, g1) \<Rightarrow> (Inr (for_review ''Target worktree has uncommitted changes'' (new_adoption A)), g1)
      | (True, g1) \<Rightarrow>
     (case is_commit_already_adopted E A g1 of
        (True, g2) \<Rightarrow> (case already_adopted E A g2 of (r, g3) \<Rightarrow> (Inr r, g3))
      | (False, g2) \<Rightarrow>
     (case checkout_target_branch E A g2 of
        (False, g3) \<Rightarrow> (Inr (for_review ''Failed to checkout target branch'' (new_adoption A)), g3)
      | (True, g3) \<Rightarrow>
     (case get_current_target_head E A g3 of (before, g4) \<Rightarrow>
     (case run_git E (ca_target_worktree_path A) [''cherry-pick'', ca_task_commit_sha A] g4 of
        (Inl x, g5) \<Rightarrow> (Inl x, g5)
      | (Inr (rc, out, err), g5) \<Rightarrow>
          if rc \<noteq> 0 then failed_pick E A err g5
          else (case finish_adoption E exe A before g5 of (r, g6) \<Rightarrow> (Inr r, g6)))))))"

definition adopt_commit :: "'g git_env \<Rightarrow> (string \<Rightarrow> 'g \<Rightarrow> command_result \<times> 'g) \<Rightarrow> (string \<Rightarrow> string) \<Rightarrow>
    string \<Rightarrow> string \<Rightarrow> string \<Rightarrow> string \<Rightarrow> string list option \<Rightarrow> 'g \<Rightarrow> (exn + adoption_result) \<times> 'g" where
  "adopt_commit E exe resolve target branch task sha commands g =
     adopt E exe \<lparr>ca_target_worktree_path = resolve target, ca_target_branch = branch,
       ca_task_worktree_path = resolve task, ca_task_commit_sha = sha,
       ca_validation_commands = (case commands of None \<Rightarrow> [] | Some cs \<Rightarrow> cs)\<rparr> g"

section \<open>Lemmas\<close>

definition consistent :: "adoption_result \<Rightarrow> bool" where
  "consistent r = ((ar_success r \<longleftrightarrow> \<not> ar_needs_review r) \<and> (ar_success r \<longleftrightarrow> ar_error_message r = None) \<and>
     (ar_success r \<longrightarrow> ar_validation_passed r \<and> \<not> ar_conflict_detected r))"

lemmas adoption_defs = new_adoption_def for_review_def consistent_def

lemma validation_all:
  "run_validation_commands exe cs g = (True, g') \<Longrightarrow> c \<in> set cs \<Longrightarrow> \<exists>h h'. exe c h = (CmdExit 0, h')"
proof (induction cs arbitrary: g)
  case (Cons d cs)
  then show ?case by (auto split: prod.splits command_result.splits if_splits)
qed simp

lemma finish_adoption_spec:
  assumes "finish_adoption E exe A before g = (r, g')"
  shows "consistent r \<and> ar_original_commit_sha r = Some (ca_task_commit_sha A) \<and> \<not> ar_conflict_detected r \<and>
    (ar_success r \<longrightarrow> (\<forall>c \<in> set (ca_validation_commands A). \<exists>h h'. exe c h = (CmdExit 0, h')) \<and>
       ar_target_branch_head r \<notin> {None, Some [], before})"
proof -
  obtain sha g1 where h: "get_current_target_head E A g = (sha, g1)" by (cases "get_current_target_head E A g")
  obtain ok g2 where v: "run_validation_commands exe (ca_validation_commands A) g1 = (ok, g2)"
    by (cases "run_validation_commands exe (ca_validation_commands A) g1")
  show ?thesis
  proof (cases ok)
    case False
    with assms h v show ?thesis by (auto simp: finish_adoption_def adoption_defs)
  next
    case True
    obtain k g3 where k: "get_current_target_head E A g2 = (k, g3)" by (cases "get_current_target_head E A g2")
    from True assms h v k validation_all [of exe "ca_validation_commands A" g1 g2] show ?thesis
      by (auto simp: finish_adoption_def verify_adoption_def adoption_defs Let_def str_truthy_iff split: if_splits)
  qed
qed

text \<open>On the target branch, the adoption depends on the answer to the cherry-pick.\<close>

lemma adopt_picks:
  assumes "adopt E exe A g = (Inr r, g')" "is_target_branch_clean E A g = (True, g1)"
    "is_commit_already_adopted E A g1 = (False, g2)" "checkout_target_branch E A g2 = (True, g3)"
    "get_current_target_head E A g3 = (before, g4)"
    "run_git E (ca_target_worktree_path A) [''cherry-pick'', ca_task_commit_sha A] g4 = (p, g5)"
  shows "(\<exists>rc out err. failed_pick E A err g5 = (Inr r, g') \<and> p = Inr (rc, out, err)) \<or>
    (\<exists>out err. p = Inr (0, out, err) \<and> finish_adoption E exe A before g5 = (r, g'))"
  using assms(1) by (auto simp: adopt_def assms(2-6) split: sum.splits prod.splits if_splits)

section \<open>Properties\<close>


text \<open>A target branch in which the commit is not yet; the state says whether it was picked.\<close>

definition target_repo :: "bool git_env" where
  "target_repo = \<lparr>ge_run = (\<lambda>args cwd picked.
       if hd args = ''rev-parse'' then (GitOk (if picked then ''h1'' else ''h0''), picked)
       else if hd args = ''merge-base'' then (GitExit 1 [] [], picked)
       else if hd args = ''cherry-pick'' then (GitOk [], True)
       else (GitOk [], picked)),
     ge_exists = (\<lambda>_ _. True), ge_resolve = (\<lambda>p _. Some p)\<rparr>"

definition sample_adopter :: adopter where
  "sample_adopter = \<lparr>ca_target_worktree_path = ''/t'', ca_target_branch = ''main'',
     ca_task_worktree_path = ''/w'', ca_task_commit_sha = ''abcdef0123'', ca_validation_commands = [''make test'']\<rparr>"


text \<open>
  The check for an earlier adoption looks at what is checked out. When the commit is in
  the history of the current head of the target worktree, the adoption reports success
  whatever the target branch is: the branch is neither checked out nor looked at.
\<close>

theorem earlier_adoption_ignores_branch:
  assumes "is_target_branch_clean E A g = (True, g1)"
    and "is_commit_already_adopted E A g1 = (True, g2)"
  shows "adopt E exe (A\<lparr>ca_target_branch := b\<rparr>) g = adopt E exe A g \<and>
    (\<exists>r g'. adopt E exe A g = (Inr r, g') \<and> ar_success r)"
proof -
  have "is_target_branch_clean E (A\<lparr>ca_target_branch := b\<rparr>) = is_target_branch_clean E A"
      "is_commit_already_adopted E (A\<lparr>ca_target_branch := b\<rparr>) = is_commit_already_adopted E A"
      "already_adopted E (A\<lparr>ca_target_branch := b\<rparr>) = already_adopted E A"
    by (simp_all add: fun_eq_iff is_target_branch_clean_def is_commit_already_adopted_def already_adopted_def
        new_adoption_def get_current_target_head_def cong: if_cong sum.case_cong prod.case_cong)
  moreover have "ar_success (fst (already_adopted E A g2))"
    by (simp add: already_adopted_def split_beta)
  ultimately show ?thesis using assms by (simp add: adopt_def split_beta)
qed

theorem earlier_adoption_ignores_branch_witness:
  "adopt (answering (\<lambda>_. GitOk [])) (\<lambda>c g. (CmdExit 1, g)) (sample_adopter\<lparr>ca_target_branch := ''other''\<rparr>) () =
     adopt (answering (\<lambda>_. GitOk [])) (\<lambda>c g. (CmdExit 1, g)) sample_adopter () \<and>
   (\<exists>r g'. adopt (answering (\<lambda>_. GitOk [])) (\<lambda>c g. (CmdExit 1, g)) sample_adopter () = (Inr r, g') \<and> ar_success r)"
  by (rule earlier_adoption_ignores_branch [where ?g1.0 = "()" and ?g2.0 = "()"])
     (simp_all add: is_target_branch_clean_def is_commit_already_adopted_def ask_git_def run_git_def answering_def
       strip_def lstrip_def rstrip_def)

text \<open>
  What escapes an adoption is an exception of the cherry-pick, of the status read after a
  failed one, or of its abort; in particular a cherry-pick that times out is not aborted.
\<close>

lemma adopt_exceptions:
  assumes "adopt E exe A g = (Inl x, g')"
  shows "\<exists>args h. run_git E (ca_target_worktree_path A) args h = (Inl x, g') \<and>
    args \<in> {[''cherry-pick'', ca_task_commit_sha A], [''status'', ''--porcelain''], [''cherry-pick'', ''--abort'']}"
  using assms by (auto simp: adopt_def failed_pick_def split: prod.splits bool.splits sum.splits if_splits)

end
