(* ===== verification/Telegram_Process.thy ===== *)
theory Telegram_Process
  imports Telegram_Bot
begin

text \<open>
  The process of the bot in \<open>workers/telegram/bot.py\<close>: its health and PID files, the
  notifications, the shutdown, and \<open>run_bot\<close> and \<open>main\<close> as code that runs over a state of
  the process and may raise. The disk, the library of the bot, the signals and the order in
  which the event loop interleaves the tasks are arguments.
\<close>

section \<open>Outcomes\<close>

datatype base_exn = Exc exn | TimeoutError | CancelledError | KeyboardInterrupt | SystemExit

definition is_Exception :: "base_exn \<Rightarrow> bool" where
  "is_Exception x = (case x of Exc e \<Rightarrow> True | TimeoutError \<Rightarrow> True | _ \<Rightarrow> False)"

text \<open>\<open>Waiting\<close>: an \<open>await\<close> has not returned when the schedule ends; no handler runs.\<close>

datatype outcome = Returned | Raised base_exn | Waiting

type_synonym 's act = "'s \<Rightarrow> outcome \<times> 's"

definition seqd :: "'s act \<Rightarrow> 's act \<Rightarrow> 's act" where
  "seqd a b s = (case a s of (Returned, s') \<Rightarrow> b s' | r \<Rightarrow> r)"

definition trying :: "'s act \<Rightarrow> (base_exn \<Rightarrow> 's act) \<Rightarrow> 's act" where
  "trying a h s = (case a s of (Raised x, s') \<Rightarrow> h x s' | r \<Rightarrow> r)"

definition finally_do :: "'s act \<Rightarrow> 's act \<Rightarrow> 's act" where
  "finally_do a f s =
     (case a s of
        (Waiting, s') \<Rightarrow> (Waiting, s')
      | (r, s') \<Rightarrow> (case f s' of (Returned, s'') \<Rightarrow> (r, s'') | r' \<Rightarrow> r'))"

definition skip :: "'s act" where
  "skip s = (Returned, s)"

definition raising :: "base_exn \<Rightarrow> 's act" where
  "raising x s = (Raised x, s)"

definition swallow :: "'s act \<Rightarrow> 's act" where
  "swallow a = trying a (\<lambda>x. if is_Exception x then skip else raising x)"

section \<open>The state of the process\<close>

datatype disk_answer = Written | Write_Fails | Mkdir_Raises exn

datatype pid_file = No_File | Unreadable_File | Pid_Text string

datatype library_call = Updater_Stop | Application_Stop | Application_Shutdown

datatype shutdown_task = Created | Begun | Done

text \<open>A report: status, detail, PID if it is included, and whether the file was written.\<close>

record bot_process =
  bp_reports :: "(string \<times> string \<times> int option \<times> bool) list"
  bp_pid_file :: pid_file
  bp_calls :: "library_call list"
  bp_event :: bool
  bp_task :: "shutdown_task option"
  bp_reporter :: bool

record bot_world =
  bw_pid :: int
  bw_disk :: "nat \<Rightarrow> disk_answer"
  bw_unlink_works :: bool

definition write_health_status :: "bot_world \<Rightarrow> string \<Rightarrow> string \<Rightarrow> bool \<Rightarrow> bot_process act" where
  "write_health_status w status detail include_pid s =
     (let report = (\<lambda>ok. s\<lparr>bp_reports := bp_reports s @ [(status, detail, if include_pid then Some (bw_pid w) else None, ok)]\<rparr>)
      in case bw_disk w (length (bp_reports s)) of
           Written \<Rightarrow> (Returned, report True)
         | Write_Fails \<Rightarrow> (Returned, report False)
         | Mkdir_Raises x \<Rightarrow> (Raised (Exc x), report False))"

definition write_pid_file :: "bot_world \<Rightarrow> int option \<Rightarrow> bot_process act" where
  "write_pid_file w pid s =
     (Returned, s\<lparr>bp_pid_file := Pid_Text (int_str (case pid of None \<Rightarrow> bw_pid w | Some p \<Rightarrow> p) @ [CHR 0x0A])\<rparr>)"

definition clear_pid :: "bool \<Rightarrow> int option \<Rightarrow> pid_file \<Rightarrow> pid_file" where
  "clear_pid unlink_works expected f =
     (let unlinked = (if unlink_works then No_File else f) in
      case f of
        No_File \<Rightarrow> No_File
      | Unreadable_File \<Rightarrow> unlinked
      | Pid_Text t \<Rightarrow>
          (case expected of
             None \<Rightarrow> unlinked
           | Some p \<Rightarrow>
               if strip t = [] then unlinked
               else (case py_int (strip t) of
                   None \<Rightarrow> unlinked
                 | Some q \<Rightarrow> if q \<noteq> p then f else unlinked)))"

definition clear_pid_file :: "bot_world \<Rightarrow> int option \<Rightarrow> bot_process act" where
  "clear_pid_file w expected s = (Returned, s\<lparr>bp_pid_file := clear_pid (bw_unlink_works w) expected (bp_pid_file s)\<rparr>)"

section \<open>Shutdown\<close>

text \<open>
  What a call of the library comes to: \<open>Absent\<close> if the object does not offer it, \<open>Hangs\<close> if
  it does not end before the timeout of the shutdown.
\<close>

datatype call_answer = Absent | Ends | Fails base_exn | Hangs

fun shutdown_steps :: "(library_call \<times> call_answer) list \<Rightarrow> bot_process act" where
  "shutdown_steps [] s = (Returned, s)"
| "shutdown_steps ((c, a) # xs) s =
     (let called = s\<lparr>bp_calls := bp_calls s @ [c]\<rparr> in
      case a of
        Absent \<Rightarrow> shutdown_steps xs s
      | Ends \<Rightarrow> shutdown_steps xs called
      | Fails x \<Rightarrow> (Raised x, called)
      | Hangs \<Rightarrow> (Raised TimeoutError, called))"

definition stop_begin :: "bot_world \<Rightarrow> bot_process act" where
  "stop_begin w = write_health_status w ''not_ok'' ''Telegram bot is shutting down.'' True"

definition stop_calls :: "(library_call \<Rightarrow> call_answer) \<Rightarrow> (library_call \<times> call_answer) list" where
  "stop_calls ans = map (\<lambda>c. (c, ans c)) [Updater_Stop, Application_Stop, Application_Shutdown]"

definition stop_finish :: "bot_world \<Rightarrow> int \<Rightarrow> (library_call \<Rightarrow> call_answer) \<Rightarrow> bot_process act" where
  "stop_finish w timeout ans =
     finally_do
       (trying (shutdown_steps (stop_calls ans))
          (\<lambda>x. if x = TimeoutError then
                write_health_status w ''not_ok'' (''Telegram bot shutdown timed out after '' @ int_str timeout @ '' seconds.'') True
              else if is_Exception x then
                write_health_status w ''not_ok'' ''Telegram bot encountered an error during shutdown.'' True
              else raising x))
       (seqd (clear_pid_file w (Some (bw_pid w))) (\<lambda>s. (Returned, s\<lparr>bp_event := True\<rparr>)))"

text \<open>The reporter runs while other tasks wait.\<close>

definition tick :: "bot_world \<Rightarrow> bot_process act" where
  "tick w s = (if bp_reporter s then
       swallow (write_health_status w ''ok'' ''Telegram bot is running and polling for updates.'' True) s
     else skip s)"

text \<open>A signal starts a shutdown task unless one is under way.\<close>

definition shutdown_handler :: "bot_process \<Rightarrow> bot_process" where
  "shutdown_handler s =
     (if bp_task s \<noteq> None \<and> bp_task s \<noteq> Some Done then s else s\<lparr>bp_task := Some Created\<rparr>)"

text \<open>What happens while \<open>run_bot\<close> awaits; an exception of the shutdown task stays in its task.\<close>

datatype loop_event = Tick | Signal | Task_Begins | Task_Ends "library_call \<Rightarrow> call_answer" | Other_Process pid_file

definition loop_step :: "bot_world \<Rightarrow> int \<Rightarrow> loop_event \<Rightarrow> bot_process \<Rightarrow> bot_process" where
  "loop_step w timeout e s =
     (case e of
        Tick \<Rightarrow> snd (tick w s)
      | Signal \<Rightarrow> shutdown_handler s
      | Task_Begins \<Rightarrow>
          (if bp_task s = Some Created then
             (case stop_begin w s of
                (Returned, s') \<Rightarrow> s'\<lparr>bp_task := Some Begun\<rparr>
              | (r, s') \<Rightarrow> s'\<lparr>bp_task := Some Done\<rparr>)
           else s)
      | Task_Ends ans \<Rightarrow>
          (if bp_task s = Some Begun then (snd (stop_finish w timeout ans s))\<lparr>bp_task := Some Done\<rparr> else s)
      | Other_Process f \<Rightarrow> s\<lparr>bp_pid_file := f\<rparr>)"

definition loop_run :: "bot_world \<Rightarrow> int \<Rightarrow> loop_event list \<Rightarrow> bot_process \<Rightarrow> bot_process" where
  "loop_run w timeout es s = fold (loop_step w timeout) es s"

definition stop_bot_application :: "bot_world \<Rightarrow> int \<Rightarrow> loop_event list \<times> (library_call \<Rightarrow> call_answer) \<Rightarrow> bot_process act" where
  "stop_bot_application w timeout x =
     seqd (stop_begin w) (seqd (\<lambda>s. (Returned, loop_run w timeout (fst x) s)) (stop_finish w timeout (snd x)))"

section \<open>Running the bot\<close>

text \<open>What happens during each \<open>await\<close> of \<open>run_bot\<close>, and what it comes to.\<close>

record bot_run =
  br_settings :: settings
  br_available :: bool
  br_build :: outcome
  br_initialize :: "loop_event list \<times> outcome"
  br_start :: "loop_event list \<times> outcome"
  br_notification :: "loop_event list \<times> outcome"
  br_polling :: "loop_event list \<times> outcome"
  br_wait :: "loop_event list \<times> outcome"
  br_reap :: "loop_event list"
  br_stop_cancelled :: "loop_event list \<times> (library_call \<Rightarrow> call_answer)"
  br_stop_final :: "loop_event list \<times> (library_call \<Rightarrow> call_answer)"

definition awaiting :: "bot_world \<Rightarrow> bot_run \<Rightarrow> loop_event list \<times> outcome \<Rightarrow> bot_process act" where
  "awaiting w b x s = (snd x, loop_run w (telegram_shutdown_timeout (br_settings b)) (fst x) s)"

definition await_event :: "bot_world \<Rightarrow> bot_run \<Rightarrow> bot_process act" where
  "await_event w b s =
     (let s' = loop_run w (telegram_shutdown_timeout (br_settings b)) (fst (br_wait b)) s in
      case snd (br_wait b) of
        Returned \<Rightarrow> (if bp_event s' then Returned else Waiting, s')
      | r \<Rightarrow> (r, s'))"

definition set_reporter :: "bool \<Rightarrow> bot_process act" where
  "set_reporter on s = (Returned, s\<lparr>bp_reporter := on\<rparr>)"

definition stop_unless_event :: "bot_world \<Rightarrow> bot_run \<Rightarrow> loop_event list \<times> (library_call \<Rightarrow> call_answer) \<Rightarrow> bot_process act" where
  "stop_unless_event w b x s =
     (if bp_event s then skip s else stop_bot_application w (telegram_shutdown_timeout (br_settings b)) x s)"

definition bot_body :: "bot_world \<Rightarrow> bot_run \<Rightarrow> bot_process act" where
  "bot_body w b =
     seqd (swallow (awaiting w b (br_notification b)))
       (seqd (set_reporter True)
         (seqd (awaiting w b (br_polling b))
           (seqd (write_health_status w ''ok'' ''Telegram bot is running and polling for updates.'' True)
             (await_event w b))))"

definition bot_cancelled :: "bot_world \<Rightarrow> bot_run \<Rightarrow> base_exn \<Rightarrow> bot_process act" where
  "bot_cancelled w b x =
     (if x = CancelledError then seqd (stop_unless_event w b (br_stop_cancelled b)) (raising CancelledError)
      else raising x)"

text \<open>Waiting for the cancelled reporter lets other tasks run once more.\<close>

definition reap_reporter :: "bot_world \<Rightarrow> bot_run \<Rightarrow> bot_process act" where
  "reap_reporter w b s =
     (if bp_reporter s then awaiting w b (br_reap b, Returned) (s\<lparr>bp_reporter := False\<rparr>) else skip s)"

definition bot_final :: "bot_world \<Rightarrow> bot_run \<Rightarrow> bot_process act" where
  "bot_final w b =
     seqd (reap_reporter w b)
       (seqd (stop_unless_event w b (br_stop_final b))
         (write_health_status w ''not_ok'' ''Telegram bot stopped.'' True))"

definition run_bot :: "bot_world \<Rightarrow> bot_run \<Rightarrow> bot_process act" where
  "run_bot w b =
     (if \<not> telegram_bot_enabled (br_settings b) then
        write_health_status w ''not_ok'' ''Telegram bot is disabled.'' False
      else if \<not> str_truthy (telegram_bot_token (br_settings b)) then
        seqd (write_health_status w ''not_ok'' ''Telegram bot enabled but token not set.'' False) (raising SystemExit)
      else if \<not> br_available b then
        seqd (write_health_status w ''not_ok'' ''python-telegram-bot library not installed.'' False) (raising SystemExit)
      else
        seqd (write_health_status w ''starting'' ''Telegram bot is initializing...'' True)
          (seqd (\<lambda>s. (br_build b, s))
            (seqd (awaiting w b (br_initialize b))
              (seqd (awaiting w b (br_start b))
                (seqd (write_pid_file w None)
                  (finally_do (trying (bot_body w b) (bot_cancelled w b)) (bot_final w b)))))))"

text \<open>\<open>asyncio.run\<close> cancels the tasks that are left: a begun shutdown still runs its cleanup.\<close>

definition cancel_tasks :: "bot_world \<Rightarrow> bot_process act" where
  "cancel_tasks w s =
     (if bp_task s = Some Begun then
        seqd (clear_pid_file w (Some (bw_pid w))) (\<lambda>s. (Returned, s\<lparr>bp_event := True, bp_task := Some Done\<rparr>)) s
      else skip s)"

definition main_handler :: "bot_world \<Rightarrow> base_exn \<Rightarrow> bot_process act" where
  "main_handler w x =
     (if x = KeyboardInterrupt then write_health_status w ''not_ok'' ''Telegram bot stopped by user.'' True
      else if is_Exception x then
        seqd (write_health_status w ''not_ok'' ''Telegram bot encountered a fatal error.'' True) (raising SystemExit)
      else raising x)"

definition bot_main :: "bot_world \<Rightarrow> bot_run \<Rightarrow> bot_process act" where
  "bot_main w b =
     finally_do (trying (finally_do (run_bot w b) (cancel_tasks w)) (main_handler w)) (clear_pid_file w (Some (bw_pid w)))"

definition fresh_process :: "pid_file \<Rightarrow> bot_process" where
  "fresh_process f = \<lparr>bp_reports = [], bp_pid_file = f, bp_calls = [], bp_event = False, bp_task = None, bp_reporter = False\<rparr>"

text \<open>The content of the health file.\<close>

definition health_data :: "string \<Rightarrow> string \<Rightarrow> int option \<Rightarrow> string \<Rightarrow> json" where
  "health_data status detail pid last_check =
     JObj ([(''component'', JStr ''telegram_bot''), (''status'', JStr status), (''detail'', JStr detail),
        (''last_check'', JStr last_check)] @ (case pid of None \<Rightarrow> [] | Some p \<Rightarrow> [(''pid'', JInt p)]))"

section \<open>Notifications\<close>

text \<open>
  The messages handed to the library and the answer; \<open>send\<close> says whether the library
  sends. A failed send is logged, and the next recipient gets its turn.
\<close>

definition build_startup_message :: "string \<Rightarrow> code_points" where
  "build_startup_message now =
     0x1F7E2 # cp ('' *Bot Online*'' @ [CHR 0x0A, CHR 0x0A] @ ''Der ExecQueue Bot ist jetzt online und steht zur Verfuegung.'' @
       [CHR 0x0A] @ ''Startzeit: '' @ now @ '' UTC'')"

definition send_notification_to_user :: "bool \<Rightarrow> bool \<Rightarrow> (string \<Rightarrow> bool) \<Rightarrow> string \<Rightarrow> code_points \<Rightarrow>
    bool \<times> (string \<times> code_points) list" where
  "send_notification_to_user available bot_ok send user_id message =
     (if user_id = [] \<or> \<not> available \<or> \<not> bot_ok then (False, [])
      else (send user_id, [(user_id, message)]))"

definition send_notification_to_channel :: "settings \<Rightarrow> bool \<Rightarrow> bool \<Rightarrow> (string \<Rightarrow> bool) \<Rightarrow> code_points \<Rightarrow>
    bool \<times> (string \<times> code_points) list" where
  "send_notification_to_channel s available bot_ok send message =
     (if \<not> str_truthy (telegram_notification_user_id s) then (False, [])
      else send_notification_to_user available bot_ok send (the (telegram_notification_user_id s)) message)"

definition send_startup_notification :: "bool \<Rightarrow> bool \<Rightarrow> bool \<Rightarrow> db_outcome \<Rightarrow> users \<Rightarrow> string \<Rightarrow> (int \<times> code_points) list" where
  "send_startup_notification available bot_ok postgresql out us now =
     (let ids = startup_recipients postgresql out us in
      if \<not> available \<or> ids = [] \<or> \<not> bot_ok then []
      else map (\<lambda>i. (i, build_startup_message now)) ids)"

section \<open>Lemmas\<close>

lemmas act_defs = seqd_def trying_def finally_do_def skip_def raising_def swallow_def

definition reported_down :: "bot_process \<Rightarrow> bool" where
  "reported_down s = (bp_reports s \<noteq> [] \<and> fst (last (bp_reports s)) \<in> {''not_ok'', ''starting''})"

definition down :: "bot_process \<Rightarrow> bool" where
  "down s = (\<not> bp_reporter s \<and> reported_down s)"

lemma write_reports:
  "write_health_status w st d pid s = (r, s') \<Longrightarrow>
    fst (last (bp_reports s')) = st \<and> bp_reports s' \<noteq> [] \<and> bp_reporter s' = bp_reporter s \<and>
    bp_event s' = bp_event s \<and> bp_task s' = bp_task s \<and> bp_pid_file s' = bp_pid_file s"
  by (auto simp: write_health_status_def Let_def split: disk_answer.splits)

lemma write_down:
  "write_health_status w st d pid s = (r, s') \<Longrightarrow> \<not> bp_reporter s \<Longrightarrow> st = ''not_ok'' \<or> st = ''starting'' \<Longrightarrow> down s'"
  using write_reports [of w st d pid s r s'] by (auto simp: down_def reported_down_def)

lemma clear_down [simp]: "down (snd (clear_pid_file w p s)) = down s"
  by (simp add: clear_pid_file_def down_def reported_down_def)

lemma update_down [simp]:
  "down (s\<lparr>bp_event := e\<rparr>) = down s" "down (s\<lparr>bp_task := t\<rparr>) = down s" "down (s\<lparr>bp_pid_file := f\<rparr>) = down s"
  "down (s\<lparr>bp_calls := c\<rparr>) = down s"
  by (simp_all add: down_def reported_down_def)

lemma steps_keep:
  "bp_reports (snd (shutdown_steps xs s)) = bp_reports s \<and> bp_reporter (snd (shutdown_steps xs s)) = bp_reporter s \<and>
   bp_event (snd (shutdown_steps xs s)) = bp_event s \<and> bp_task (snd (shutdown_steps xs s)) = bp_task s \<and>
   bp_pid_file (snd (shutdown_steps xs s)) = bp_pid_file s \<and> fst (shutdown_steps xs s) \<noteq> Waiting"
  by (induction xs s rule: shutdown_steps.induct) (auto simp: Let_def split: call_answer.splits)

lemma write_not_waiting [simp]: "fst (write_health_status w st d pid s) \<noteq> Waiting"
  by (simp add: write_health_status_def Let_def split: disk_answer.splits)

lemma write_returns: "write_health_status w st d pid s \<noteq> (Waiting, s')"
  by (simp add: write_health_status_def Let_def split: disk_answer.splits)

lemma stop_finish_event:
  "stop_finish w timeout ans s = (r, s') \<Longrightarrow> bp_event s' \<and> bp_reporter s' = bp_reporter s \<and> bp_task s' = bp_task s \<and>
    bp_pid_file s' = clear_pid (bw_unlink_works w) (Some (bw_pid w)) (bp_pid_file s) \<and> r \<noteq> Waiting \<and> (down s \<longrightarrow> down s')"
proof -
  assume a: "stop_finish w timeout ans s = (r, s')"
  obtain q t where q: "shutdown_steps (stop_calls ans) s = (q, t)" by (cases "shutdown_steps (stop_calls ans) s")
  have k: "bp_reports t = bp_reports s \<and> bp_reporter t = bp_reporter s \<and> bp_event t = bp_event s \<and> bp_task t = bp_task s \<and>
      bp_pid_file t = bp_pid_file s \<and> q \<noteq> Waiting"
    using steps_keep [of "stop_calls ans" s] q by simp
  then have dt: "down s \<Longrightarrow> down t" by (simp add: down_def reported_down_def)
  let ?h = "\<lambda>x. if x = TimeoutError then
      write_health_status w ''not_ok'' (''Telegram bot shutdown timed out after '' @ int_str timeout @ '' seconds.'') True
    else if is_Exception x then
      write_health_status w ''not_ok'' ''Telegram bot encountered an error during shutdown.'' True
    else raising x"
  obtain q' t' where q': "trying (shutdown_steps (stop_calls ans)) ?h s = (q', t')" by fastforce
  have "q' \<noteq> Waiting \<and> bp_reporter t' = bp_reporter t \<and> bp_task t' = bp_task t \<and> bp_pid_file t' = bp_pid_file t \<and>
      (down t \<longrightarrow> down t')"
  proof (cases q)
    case (Raised x)
    then have h: "?h x t = (q', t')" using q' q by (simp add: trying_def)
    show ?thesis
    proof (cases "is_Exception x")
      case True
      then obtain d where d: "write_health_status w ''not_ok'' d True t = (q', t')"
        using h by (cases "x = TimeoutError") auto
      have "q' \<noteq> Waiting" using write_not_waiting [of w "''not_ok''" d True t] d by simp
      moreover have "down t \<Longrightarrow> down t'" using write_down [OF d] by (simp add: down_def)
      ultimately show ?thesis using write_reports [OF d] by simp
    next
      case False
      then have "x \<noteq> TimeoutError" by (auto simp: is_Exception_def)
      with False h show ?thesis by (auto simp: raising_def)
    qed
  qed (use q' q k in \<open>auto simp: trying_def\<close>)
  moreover have "r = q' \<and> s' = t'\<lparr>bp_pid_file := clear_pid (bw_unlink_works w) (Some (bw_pid w)) (bp_pid_file t'),
      bp_event := True\<rparr> \<or> q' = Waiting"
    using a q' unfolding stop_finish_def finally_do_def by (cases q') (auto simp: seqd_def clear_pid_file_def)
  ultimately show ?thesis using k dt by auto
qed

lemma tick_down [simp]: "down s \<Longrightarrow> tick w s = (Returned, s)"
  by (simp add: tick_def skip_def down_def)

lemma stop_begin_down: "stop_begin w s = (r, s') \<Longrightarrow> \<not> bp_reporter s \<Longrightarrow> down s'"
  unfolding stop_begin_def by (rule write_down) auto

lemma loop_step_down:
  assumes "down s"
  shows "down (loop_step w timeout e s)"
proof (cases e)
  case Task_Begins
  obtain r s' where b: "stop_begin w s = (r, s')" by (cases "stop_begin w s")
  have "down s'" using stop_begin_down [OF b] assms by (simp add: down_def)
  then show ?thesis using Task_Begins assms b by (cases r) (auto simp: loop_step_def)
next
  case (Task_Ends ans)
  obtain r s' where b: "stop_finish w timeout ans s = (r, s')" by (cases "stop_finish w timeout ans s")
  show ?thesis using Task_Ends assms stop_finish_event [OF b] b by (auto simp: loop_step_def)
qed (use assms in \<open>auto simp: loop_step_def shutdown_handler_def\<close>)

lemma loop_run_down: "down s \<Longrightarrow> down (loop_run w timeout es s)"
  unfolding loop_run_def by (induction es arbitrary: s) (auto simp: loop_step_down)

lemma loop_reporter [simp]: "bp_reporter (loop_run w timeout es s) = bp_reporter s"
proof -
  have t: "bp_reporter (snd (tick w s)) = bp_reporter s" for s
    by (auto simp: tick_def act_defs write_health_status_def Let_def split: disk_answer.splits)
  have b: "bp_reporter s' = bp_reporter s" if "stop_begin w s = (r, s')" for r s' s
    using write_reports that unfolding stop_begin_def by blast
  have f: "bp_reporter (snd (stop_finish w timeout ans s)) = bp_reporter s" for ans s
    using stop_finish_event [of w timeout ans s] by (metis prod.collapse)
  have "bp_reporter (loop_step w timeout e s) = bp_reporter s" for e s
    using b [of s] by (auto simp: loop_step_def t f shutdown_handler_def split: loop_event.split prod.splits outcome.splits)
  then show ?thesis unfolding loop_run_def by (induction es arbitrary: s) auto
qed

lemma stop_bot_down:
  assumes "stop_bot_application w timeout x s = (r, s')" "\<not> bp_reporter s"
  shows "down s' \<and> r \<noteq> Waiting"
proof -
  obtain q t where b: "stop_begin w s = (q, t)" by (cases "stop_begin w s")
  have d: "down t" by (rule stop_begin_down [OF b assms(2)])
  have "q \<noteq> Waiting" using write_not_waiting b unfolding stop_begin_def by (metis fst_conv)
  show ?thesis
  proof (cases q)
    case Returned
    obtain q' t' where f: "stop_finish w timeout (snd x) (loop_run w timeout (fst x) t) = (q', t')" by fastforce
    have "r = q'" "s' = t'" using assms(1) b Returned f by (simp_all add: stop_bot_application_def seqd_def)
    then show ?thesis using stop_finish_event [OF f] loop_run_down [OF d] by blast
  qed (use assms(1) b d \<open>q \<noteq> Waiting\<close> in \<open>auto simp: stop_bot_application_def seqd_def\<close>)
qed

lemma bot_final_down:
  assumes "bot_final w b s = (r, s')"
  shows "down s' \<and> r \<noteq> Waiting"
proof -
  obtain q t where rp: "reap_reporter w b s = (q, t)" by (cases "reap_reporter w b s")
  have t: "q = Returned" "\<not> bp_reporter t" using rp by (auto simp: reap_reporter_def skip_def awaiting_def split: if_splits)
  obtain q' t' where st: "stop_unless_event w b (br_stop_final b) t = (q', t')" by fastforce
  have t': "\<not> bp_reporter t' \<and> q' \<noteq> Waiting \<and> (q' = Returned \<or> down t')"
    using st t stop_bot_down by (auto simp: stop_unless_event_def skip_def down_def split: if_splits)
  show ?thesis
  proof (cases q')
    case Returned
    have w: "write_health_status w ''not_ok'' ''Telegram bot stopped.'' True t' = (r, s')"
      using assms rp t st Returned by (simp add: bot_final_def seqd_def)
    show ?thesis using write_down [OF w] t' write_not_waiting w by (metis fst_conv)
  qed (use assms rp t st t' in \<open>auto simp: bot_final_def seqd_def\<close>)
qed

lemma seqd_E:
  assumes "seqd a b s = (r, s')"
  obtains t where "a s = (Returned, t)" "b t = (r, s')" | "a s = (r, s')" "r \<noteq> Returned"
  using assms by (cases "a s"; cases "fst (a s)") (auto simp: seqd_def)

lemma finally_E:
  assumes "finally_do a f s = (r, s')" "r \<noteq> Waiting"
  obtains q t r' where "a s = (q, t)" "q \<noteq> Waiting" "f t = (r', s')" "r' = Returned \<Longrightarrow> r = q" "r' \<noteq> Returned \<Longrightarrow> r = r'"
proof -
  obtain q t where a: "a s = (q, t)" by (cases "a s")
  then have "q \<noteq> Waiting" using assms by (auto simp: finally_do_def)
  obtain r' t' where f: "f t = (r', t')" by (cases "f t")
  show thesis using assms a f \<open>q \<noteq> Waiting\<close> that by (cases q; cases r') (auto simp: finally_do_def)
qed

lemma awaiting_down: "awaiting w b x s = (r, s') \<Longrightarrow> down s \<Longrightarrow> down s'"
  by (auto simp: awaiting_def loop_run_down)

lemma run_bot_down:
  assumes "run_bot w b s = (r, s')" "r \<noteq> Waiting" "\<not> bp_reporter s"
  shows "down s'"
proof (cases "telegram_bot_enabled (br_settings b) \<and> str_truthy (telegram_bot_token (br_settings b)) \<and> br_available b")
  case False
  then obtain d q where "write_health_status w ''not_ok'' d False s = (q, s')"
    using assms(1) by (auto simp: run_bot_def raising_def split: if_splits elim!: seqd_E)
  from write_down [OF this assms(3)] show ?thesis by simp
next
  case True
  let ?fin = "finally_do (trying (bot_body w b) (bot_cancelled w b)) (bot_final w b)"
  have "seqd (write_health_status w ''starting'' ''Telegram bot is initializing...'' True)
      (seqd (\<lambda>s. (br_build b, s)) (seqd (awaiting w b (br_initialize b)) (seqd (awaiting w b (br_start b))
        (seqd (write_pid_file w None) ?fin)))) s = (r, s')"
    using assms(1) True by (simp add: run_bot_def)
  then show ?thesis
  proof (cases rule: seqd_E)
    case (1 t)
    have d: "down t" using write_down [OF 1(1) assms(3)] by simp
    from 1(2) show ?thesis
    proof (cases rule: seqd_E)
      case (1 t1)
      from 1(2) show ?thesis
      proof (cases rule: seqd_E)
        case (1 t2)
        from 1(2) show ?thesis
        proof (cases rule: seqd_E)
          case (1 t3)
          from 1(2) obtain t4 where "?fin t4 = (r, s')" by (auto simp: write_pid_file_def elim!: seqd_E)
          from finally_E [OF this assms(2)] show ?thesis using bot_final_down by metis
        qed (use d 1 \<open>(br_build b, t) = (Returned, t1)\<close> awaiting_down in blast)
      qed (use d 1 awaiting_down in blast)
    qed (use d in simp)
  qed (use write_down [OF _ assms(3)] in blast)
qed

lemma cancel_tasks_down: "down s \<Longrightarrow> cancel_tasks w s = (r, s') \<Longrightarrow> down s' \<and> r = Returned"
  by (auto simp: cancel_tasks_def seqd_def skip_def clear_pid_file_def down_def reported_down_def split: if_splits)

lemma main_handler_down:
  assumes "down s" "main_handler w x s = (r, s')"
  shows "down s' \<and> r \<noteq> Waiting"
proof (cases "x = KeyboardInterrupt \<or> is_Exception x")
  case True
  have nr: "\<not> bp_reporter s" using assms(1) by (simp add: down_def)
  obtain d q where q: "write_health_status w ''not_ok'' d True s = (q, s')" "r = q \<or> r = Raised SystemExit"
    using assms(2) True by (auto simp: main_handler_def raising_def split: if_splits elim!: seqd_E)
  then show ?thesis using write_down [OF q(1) nr] write_returns by auto
qed (use assms in \<open>auto simp: main_handler_def raising_def\<close>)

definition foreign_pid :: "int \<Rightarrow> pid_file \<Rightarrow> bool" where
  "foreign_pid p f = (case f of Pid_Text t \<Rightarrow> (\<exists>q. py_int (strip t) = Some q \<and> q \<noteq> p) | _ \<Rightarrow> False)"

lemma main_down:
  assumes "bot_main w b (fresh_process f) = (r, s')" "r \<noteq> Waiting"
  shows "down s' \<and> (\<exists>g. bp_pid_file s' = clear_pid (bw_unlink_works w) (Some (bw_pid w)) g)"
proof -
  let ?inner = "finally_do (run_bot w b) (cancel_tasks w)"
  obtain q t where i: "?inner (fresh_process f) = (q, t)" by fastforce
  obtain q' t' where h: "trying ?inner (main_handler w) (fresh_process f) = (q', t')" by fastforce
  have m: "q' \<noteq> Waiting" "s' = snd (clear_pid_file w (Some (bw_pid w)) t')"
    using assms h by (auto simp: bot_main_def finally_do_def clear_pid_file_def split: outcome.splits)
  then have q: "q \<noteq> Waiting" using i h by (auto simp: trying_def)
  have "down t"
    using run_bot_down cancel_tasks_down finally_E [OF i q] by (metis fresh_process_def bot_process.select_convs(6))
  then have "down t'" using h i m(1) main_handler_down by (cases q) (auto simp: trying_def)
  then show ?thesis unfolding m(2) by (auto simp: clear_pid_file_def)
qed

lemma written_reports:
  assumes "\<And>n. bw_disk w n = Written"
  shows "write_health_status w st d pid s = (Returned,
      s\<lparr>bp_reports := bp_reports s @ [(st, d, if pid then Some (bw_pid w) else None, True)]\<rparr>)"
  by (simp add: write_health_status_def assms)

lemma unhealthy_report:
  assumes "st = ''not_ok'' \<or> st = ''starting''"
  shows "hr_status (get_telegram_bot_healthcheck parse now (Decoded (health_data st d pid l))) = H_ERROR"
proof -
  have "bot_status (JStr st) = Inr H_ERROR" using assms by (auto simp: bot_status_def)
  then show ?thesis
    by (auto simp: get_telegram_bot_healthcheck_def health_data_def bot_reported_def dict_get_def stale_bot_def
        health_result_of_def Let_def)
qed

text \<open>The progress of a shutdown: requested, begun, and the event set.\<close>

lemma event_stays:
  assumes "bp_event s"
  shows "bp_event (loop_step w timeout e s)"
proof (cases e)
  case Tick
  then show ?thesis using assms
    by (auto simp: loop_step_def tick_def act_defs write_health_status_def Let_def split: disk_answer.splits)
next
  case Task_Begins
  obtain r s' where b: "stop_begin w s = (r, s')" by (cases "stop_begin w s")
  have "bp_event s'" using write_reports b assms unfolding stop_begin_def by blast
  then show ?thesis using Task_Begins assms b by (cases r) (auto simp: loop_step_def)
next
  case (Task_Ends ans)
  obtain r s' where "stop_finish w timeout ans s = (r, s')" by (cases "stop_finish w timeout ans s")
  with stop_finish_event [OF this] show ?thesis using Task_Ends assms by (simp add: loop_step_def)
qed (use assms in \<open>auto simp: loop_step_def shutdown_handler_def\<close>)

definition stopping :: "shutdown_task option set \<Rightarrow> bot_process \<Rightarrow> bool" where
  "stopping T s = (bp_event s \<or> bp_task s \<in> T)"

lemma stopping_step:
  assumes "\<And>n. bw_disk w n = Written" "T = {Some Created, Some Begun} \<or> T = {Some Begun}" "stopping T s"
  shows "stopping T (loop_step w timeout e s)"
proof (cases "bp_event s")
  case False
  then have t: "bp_task s \<in> T" using assms(3) by (simp add: stopping_def)
  show ?thesis
  proof (cases e)
    case (Task_Ends ans)
    then show ?thesis using t assms(2) stop_finish_event [of w timeout ans s]
      by (cases "stop_finish w timeout ans s") (auto simp: loop_step_def stopping_def)
  qed (use t assms(2) in \<open>auto simp: loop_step_def stopping_def tick_def act_defs shutdown_handler_def stop_begin_def
        written_reports [OF assms(1)]\<close>)
qed (use event_stays in \<open>auto simp: stopping_def\<close>)

lemma stopping_run:
  assumes "\<And>n. bw_disk w n = Written" "T = {Some Created, Some Begun} \<or> T = {Some Begun}" "stopping T s"
  shows "stopping T (loop_run w timeout es s)"
  unfolding loop_run_def using assms(3) by (induction es arbitrary: s) (simp_all add: stopping_step [OF assms(1,2)])

lemma event_run: "bp_event s \<Longrightarrow> bp_event (loop_run w timeout es s)"
  unfolding loop_run_def by (induction es arbitrary: s) (simp_all add: event_stays)

lemma loop_append: "loop_run w timeout (xs @ e # ys) s = loop_run w timeout ys (loop_step w timeout e (loop_run w timeout xs s))"
  by (simp add: loop_run_def)

lemma shutdown_completes:
  assumes disk: "\<And>n. bw_disk w n = Written"
  shows "bp_event (loop_run w timeout (as @ Signal # bs @ Task_Begins # cs @ Task_Ends ans # ds) s)"
proof -
  define s1 where "s1 = loop_step w timeout Signal (loop_run w timeout as s)"
  have "stopping {Some Created, Some Begun} s1"
    unfolding s1_def by (auto simp: loop_step_def shutdown_handler_def stopping_def) (metis shutdown_task.exhaust)
  then have 2: "stopping {Some Created, Some Begun} (loop_run w timeout bs s1)" using stopping_run [OF disk] by blast
  define s2 where "s2 = loop_step w timeout Task_Begins (loop_run w timeout bs s1)"
  have "stopping {Some Begun} s2"
    using 2 event_stays [of "loop_run w timeout bs s1" w timeout Task_Begins] unfolding s2_def
    by (auto simp: stopping_def loop_step_def stop_begin_def written_reports [OF disk])
  then have 3: "stopping {Some Begun} (loop_run w timeout cs s2)" using stopping_run [OF disk] by blast
  define s3 where "s3 = loop_step w timeout (Task_Ends ans) (loop_run w timeout cs s2)"
  obtain r u where u: "stop_finish w timeout ans (loop_run w timeout cs s2) = (r, u)" by fastforce
  have "bp_event s3"
  proof (cases "bp_event (loop_run w timeout cs s2)")
    case True
    then show ?thesis unfolding s3_def by (rule event_stays)
  next
    case False
    then have "bp_task (loop_run w timeout cs s2) = Some Begun" using 3 by (simp add: stopping_def)
    then show ?thesis unfolding s3_def using u stop_finish_event [OF u] by (simp add: loop_step_def)
  qed
  then show ?thesis unfolding loop_append s1_def [symmetric] s2_def [symmetric] s3_def [symmetric] by (rule event_run)
qed

lemma body_returns:
  assumes disk: "\<And>n. bw_disk w n = Written" and lib: "snd (br_notification b) = Returned" "snd (br_polling b) = Returned"
    and wait: "br_wait b = (as @ Signal # bs @ Task_Begins # cs @ Task_Ends ans # ds, Returned)"
  shows "\<exists>t. bot_body w b s = (Returned, t) \<and> bp_event t"
proof -
  let ?T = "telegram_shutdown_timeout (br_settings b)"
  let ?es = "as @ Signal # bs @ Task_Begins # cs @ Task_Ends ans # ds"
  have "\<exists>t. bot_body w b s = (if bp_event (loop_run w ?T ?es t) then Returned else Waiting, loop_run w ?T ?es t)"
    by (simp add: bot_body_def act_defs awaiting_def lib set_reporter_def written_reports [OF disk] await_event_def wait Let_def)
      blast
  then obtain t where t: "bot_body w b s = (if bp_event (loop_run w ?T ?es t) then Returned else Waiting, loop_run w ?T ?es t)" ..
  have e: "bp_event (loop_run w ?T ?es t)" by (rule shutdown_completes [OF disk])
  show ?thesis using t e by simp
qed

lemma final_returns:
  assumes disk: "\<And>n. bw_disk w n = Written" and "bp_event s"
  shows "\<exists>u. bot_final w b s = (Returned, u) \<and> bp_event u \<and>
    last (bp_reports u) = (''not_ok'', ''Telegram bot stopped.'', Some (bw_pid w), True)"
proof -
  obtain t where t: "reap_reporter w b s = (Returned, t)" "bp_event t"
    using event_run assms(2) by (cases "bp_reporter s") (auto simp: reap_reporter_def awaiting_def skip_def)
  then have "bot_final w b s = write_health_status w ''not_ok'' ''Telegram bot stopped.'' True t"
    by (simp add: bot_final_def seqd_def stop_unless_event_def skip_def)
  with t show ?thesis by (simp add: written_reports [OF disk])
qed

lemma signal_returns:
  assumes disk: "\<And>n. bw_disk w n = Written"
    and conf: "telegram_bot_enabled (br_settings b)" "str_truthy (telegram_bot_token (br_settings b))" "br_available b"
    and lib: "br_build b = Returned" "snd (br_initialize b) = Returned" "snd (br_start b) = Returned"
      "snd (br_notification b) = Returned" "snd (br_polling b) = Returned"
    and wait: "br_wait b = (as @ Signal # bs @ Task_Begins # cs @ Task_Ends ans # ds, Returned)"
  shows "\<exists>s. bot_main w b (fresh_process f) = (Returned, s) \<and>
    last (bp_reports s) = (''not_ok'', ''Telegram bot stopped.'', Some (bw_pid w), True)"
proof -
  have "\<exists>t. run_bot w b (fresh_process f) = finally_do (trying (bot_body w b) (bot_cancelled w b)) (bot_final w b) t"
    using conf lib by (auto simp: run_bot_def seqd_def awaiting_def written_reports [OF disk] write_pid_file_def)
  then obtain t where t: "run_bot w b (fresh_process f) = finally_do (trying (bot_body w b) (bot_cancelled w b)) (bot_final w b) t" ..
  obtain u where u: "bot_body w b t = (Returned, u)" "bp_event u" using body_returns [OF disk lib(4,5) wait] by blast
  obtain v where v: "bot_final w b u = (Returned, v)" "bp_event v"
      "last (bp_reports v) = (''not_ok'', ''Telegram bot stopped.'', Some (bw_pid w), True)"
    using final_returns [OF disk u(2)] by blast
  have "run_bot w b (fresh_process f) = (Returned, v)" using t u v by (simp add: finally_do_def trying_def)
  moreover obtain x where "cancel_tasks w v = (Returned, x)" "bp_reports x = bp_reports v"
    by (cases "bp_task v = Some Begun") (auto simp: cancel_tasks_def seqd_def skip_def clear_pid_file_def)
  ultimately show ?thesis using v(3) by (simp add: bot_main_def finally_do_def trying_def clear_pid_file_def)
qed

definition sample_world :: bot_world where
  "sample_world = \<lparr>bw_pid = 7, bw_disk = (\<lambda>_. Written), bw_unlink_works = True\<rparr>"

definition sample_run :: "loop_event list \<times> outcome \<Rightarrow> bot_run" where
  "sample_run wt = \<lparr>br_settings = default_settings\<lparr>telegram_bot_enabled := True, telegram_bot_token := Some ''t''\<rparr>,
     br_available = True, br_build = Returned, br_initialize = ([], Returned), br_start = ([], Returned),
     br_notification = ([], Returned), br_polling = ([Tick], Returned), br_wait = wt, br_reap = [],
     br_stop_cancelled = ([], \<lambda>_. Ends), br_stop_final = ([], \<lambda>_. Ends)\<rparr>"

lemma sample_conf:
  "telegram_bot_enabled (br_settings (sample_run wt))" "str_truthy (telegram_bot_token (br_settings (sample_run wt)))"
  "br_available (sample_run wt)" "br_build (sample_run wt) = Returned" "snd (br_initialize (sample_run wt)) = Returned"
  "snd (br_start (sample_run wt)) = Returned" "snd (br_notification (sample_run wt)) = Returned"
  "snd (br_polling (sample_run wt)) = Returned" "br_wait (sample_run wt) = wt" "bw_disk sample_world n = Written"
  "bw_unlink_works sample_world" "bw_pid sample_world = 7"
  by (simp_all add: sample_run_def sample_world_def str_truthy_iff)

section \<open>Properties\<close>



text \<open>
  C24: A signal stops the bot. Once the bot is up and the disk works, a signal followed by the two
  steps of the shutdown task ends \<open>main\<close> normally, whatever the library answers to the
  shutdown (it may fail or hang), whatever other signals, reports and processes do in
  between; the last report says that the bot has stopped.
\<close>

theorem signal_stops_bot:
  assumes "\<forall>n. bw_disk w n = Written" "telegram_bot_enabled (br_settings b)"
    "str_truthy (telegram_bot_token (br_settings b))" "br_available b" "br_build b = Returned"
    "snd (br_initialize b) = Returned" "snd (br_start b) = Returned" "snd (br_notification b) = Returned"
    "snd (br_polling b) = Returned"
    "br_wait b = (as @ Signal # bs @ Task_Begins # cs @ Task_Ends ans # ds, Returned)"
  shows "\<exists>s. bot_main w b (fresh_process f) = (Returned, s) \<and>
    last (bp_reports s) = (''not_ok'', ''Telegram bot stopped.'', Some (bw_pid w), True)"
  using assms(1) by (intro signal_returns [OF _ assms(2-10)]) simp

theorem signal_stops_bot_witness:
  "fst (bot_main sample_world (sample_run ([Tick, Signal, Signal, Task_Begins, Tick, Task_Ends (\<lambda>_. Hangs)], Returned))
     (fresh_process No_File)) = Returned"
proof -
  have "\<forall>n. bw_disk sample_world n = Written" by (simp add: sample_conf)
  from signal_stops_bot [OF this sample_conf(1-8), where as = "[Tick]" and bs = "[Signal]" and cs = "[Tick]" and ds = "[]"
      and ans = "\<lambda>_. Hangs" and f = No_File]
  show ?thesis by (auto simp: sample_conf)
qed

text \<open>The cleanup of one process leaves the PID file of another alone.\<close>

lemma foreign_pid_file_kept:
  assumes "foreign_pid p f"
  shows "clear_pid ok (Some p) f = f"
proof -
  have "py_int [] = None" by code_simp
  with assms show ?thesis by (auto simp: foreign_pid_def clear_pid_def Let_def split: pid_file.splits)
qed

text \<open>Each startup notification goes to exactly the subscribed users, whatever happens to the others.\<close>

lemma startup_notification_recipients:
  "map fst (send_startup_notification True True pg out us now) = startup_recipients pg out us"
  by (simp add: send_startup_notification_def Let_def o_def)

end
