(* ===== verification/Token_Usage.thy ===== *)
theory Token_Usage
  imports Prelude
begin

text \<open>
  \<open>utils/token_tracking.py\<close>: reading token counts from the usage data of a provider, and the
  mock of \<open>runner/validator.py\<close>. A Python \<open>bool\<close> is an \<open>int\<close>, so it counts as 0 or 1.
\<close>

section \<open>Token counts\<close>

fun as_int :: "json \<Rightarrow> int option" where
  "as_int (JInt i) = Some i"
| "as_int (JBool b) = Some (if b then 1 else 0)"
| "as_int _ = None"

text \<open>An integer, or a text of digits; \<open>int\<close> may still refuse the text.\<close>

fun is_count :: "json \<Rightarrow> bool" where
  "is_count (JStr s) = py_isdigit s"
| "is_count v = (as_int v \<noteq> None)"

fun int_of :: "json \<Rightarrow> exn + int" where
  "int_of (JStr s) = (case py_int s of Some n \<Rightarrow> Inr n
     | None \<Rightarrow> Inl (ValueError (''invalid literal for int() with base 10: '' @ str_repr s)))"
| "int_of v = (case as_int v of Some n \<Rightarrow> Inr n | None \<Rightarrow> Inl (TypeError ''not a number''))"

definition read_count :: "json \<Rightarrow> exn + int option" where
  "read_count v = (if is_count v then map_sum id Some (int_of v) else Inr None)"

definition sum_counts :: "json \<Rightarrow> json \<Rightarrow> exn + int option" where
  "sum_counts a b =
     (if is_count a \<and> is_count b then
        (case int_of a of
           Inl x \<Rightarrow> Inl x
         | Inr m \<Rightarrow> (case int_of b of Inl x \<Rightarrow> Inl x | Inr n \<Rightarrow> Inr (Some (m + n))))
      else Inr None)"

fun first_count :: "string list \<Rightarrow> (string \<times> json) list \<Rightarrow> exn + int option" where
  "first_count [] d = Inr None"
| "first_count (f # fs) d =
     (if dict_has d f \<and> is_count (dict_get d f JNull) then read_count (dict_get d f JNull) else first_count fs d)"

definition extract_total_tokens :: "json \<Rightarrow> exn + int option" where
  "extract_total_tokens usage =
     (case usage of
        JObj d \<Rightarrow>
          if dict_has d ''total_tokens'' then read_count (dict_get d ''total_tokens'' JNull)
          else if dict_has d ''input_tokens'' \<and> dict_has d ''output_tokens'' then
            sum_counts (dict_get d ''input_tokens'' JNull) (dict_get d ''output_tokens'' JNull)
          else first_count [''prompt_tokens'', ''completion_tokens'', ''totalTokens'', ''usage''] d
      | _ \<Rightarrow> Inr None)"

record token_usage =
  tu_total :: "int option"
  tu_input :: "int option"
  tu_output :: "int option"

definition count_field :: "string \<Rightarrow> (string \<times> json) list \<Rightarrow> exn + int option" where
  "count_field f d = (if dict_has d f then read_count (dict_get d f JNull) else Inr None)"

definition or_field :: "int option \<Rightarrow> string \<Rightarrow> (string \<times> json) list \<Rightarrow> int option" where
  "or_field v f d = (if v = None \<and> dict_has d f then as_int (dict_get d f JNull) else v)"

definition extract_token_usage :: "(string \<times> json) list option \<Rightarrow> exn + token_usage" where
  "extract_token_usage response =
     (let none = \<lparr>tu_total = None, tu_input = None, tu_output = None\<rparr> in
      case response of
        None \<Rightarrow> Inr none
      | Some r \<Rightarrow>
          (case (if truthy (dict_get r ''usage'' JNull) then dict_get r ''usage'' JNull
                 else dict_get r ''token_usage'' JNull) of
             JObj d \<Rightarrow>
               (case extract_total_tokens (JObj d) of
                  Inl x \<Rightarrow> Inl x
                | Inr t \<Rightarrow>
                    (case count_field ''input_tokens'' d of
                       Inl x \<Rightarrow> Inl x
                     | Inr i \<Rightarrow>
                         (case count_field ''output_tokens'' d of
                            Inl x \<Rightarrow> Inl x
                          | Inr w \<Rightarrow> Inr \<lparr>tu_total = t, tu_input = or_field i ''prompt_tokens'' d,
                              tu_output = or_field w ''completion_tokens'' d\<rparr>)))
           | _ \<Rightarrow> Inr none))"

section \<open>MockValidator\<close>

record mock_validator =
  mv_always_pass :: bool
  mv_call_count :: nat

definition new_validator :: "bool \<Rightarrow> mock_validator" where
  "new_validator b = \<lparr>mv_always_pass = b, mv_call_count = 0\<rparr>"

definition mv_validate :: "mock_validator \<Rightarrow> bool \<times> mock_validator" where
  "mv_validate v = (mv_always_pass v, v\<lparr>mv_call_count := mv_call_count v + 1\<rparr>)"

lemma mv_validate_counts: "mv_call_count (((snd \<circ> mv_validate) ^^ n) v) = mv_call_count v + n"
  by (induction n) (simp_all add: mv_validate_def)

section \<open>Properties\<close>

lemma nat_str_counts: "is_count (JStr (nat_str n))" "int_of (JStr (nat_str n)) = Inr (int n)"
proof -
  show "is_count (JStr (nat_str n))" using nat_str_digits by (auto simp: py_isdigit_def list_all_iff)
  have "int_str (int n) = nat_str n" by (simp add: int_str_def)
  then show "int_of (JStr (nat_str n)) = Inr (int n)" using py_int_int_str [of "int n"] by simp
qed

text \<open>
  Token totals. If a provider reports input and output counts, as numbers or as decimal texts,
  and no total, the total is their sum and the parts are read as reported.
\<close>

theorem token_total_is_sum:
  assumes "v \<in> {JInt (int m), JStr (nat_str m)}" and "w \<in> {JInt (int n), JStr (nat_str n)}"
    and "\<not> dict_has d ''total_tokens''" "dict_get d ''input_tokens'' JNull = v" "dict_get d ''output_tokens'' JNull = w"
  shows "extract_token_usage (Some [(''usage'', JObj d)]) =
    Inr \<lparr>tu_total = Some (int m + int n), tu_input = Some (int m), tu_output = Some (int n)\<rparr>"
proof -
  have c: "is_count v" "int_of v = Inr (int m)" "is_count w" "int_of w = Inr (int n)"
    using assms(1,2) by (auto simp: nat_str_counts simp del: is_count.simps(1) int_of.simps(1))
  have has: "dict_has d ''input_tokens''" "dict_has d ''output_tokens''"
  proof -
    have "dict_get d k JNull \<noteq> JNull \<Longrightarrow> dict_has d k" for k
      by (cases "map_of d k") (auto simp: dict_get_def dest: map_of_SomeD intro: rev_image_eqI)
    then show "dict_has d ''input_tokens''" "dict_has d ''output_tokens''" using assms by auto
  qed
  then have "d \<noteq> []" by auto
  then have u: "dict_get [(''usage'', JObj d)] ''usage'' JNull = JObj d" "truthy (JObj d)" by (simp_all add: dict_get_def)
  have t: "extract_total_tokens (JObj d) = Inr (Some (int m + int n))"
    unfolding extract_total_tokens_def json.case using assms(3-5) has c by (simp add: sum_counts_def del: dict_has_iff)
  have f: "count_field ''input_tokens'' d = Inr (Some (int m))" "count_field ''output_tokens'' d = Inr (Some (int n))"
    using assms(4,5) has c by (simp_all add: count_field_def read_count_def del: dict_has_iff)
  show ?thesis
    unfolding extract_token_usage_def Let_def option.case u if_P [OF u(2)] json.case
    by (simp add: t f or_field_def u)
qed

theorem token_total_is_sum_witness:
  "extract_token_usage (Some [(''usage'', JObj [(''input_tokens'', JInt 100), (''output_tokens'', JStr ''50'')])]) =
    Inr \<lparr>tu_total = Some 150, tu_input = Some 100, tu_output = Some 50\<rparr>"
proof -
  let ?d = "[(''input_tokens'', JInt 100), (''output_tokens'', JStr ''50'')]"
  have "\<not> dict_has ?d ''total_tokens''" "dict_get ?d ''input_tokens'' JNull = JInt (int 100)"
    "dict_get ?d ''output_tokens'' JNull = JStr (nat_str 50)" by code_simp+
  from token_total_is_sum [OF _ _ this, of 100 50] show ?thesis by simp
qed

text \<open>
  With the names \<open>prompt_tokens\<close> and \<open>completion_tokens\<close>, which other providers use, the total is
  the first of the two alone; and a superscript digit makes the reader raise.
\<close>

lemma prompt_tokens_alone:
  "extract_token_usage (Some [(''usage'', JObj [(''prompt_tokens'', JInt 100), (''completion_tokens'', JInt 50)])]) =
    Inr \<lparr>tu_total = Some 100, tu_input = Some 100, tu_output = Some 50\<rparr>"
  "isl (extract_total_tokens (JObj [(''total_tokens'', JStr [CHR 0xB2])]))"
  by code_simp+

end
