(* ===== verification/Observability.thy ===== *)
theory Observability
  imports Sse_Handler
begin

text \<open>
  \<open>observability/logging.py\<close>: the structured log entry and its redaction, the timing of
  phases, the counters of the runner, and the redaction of payloads. The regular expressions
  are matchers that return the length of the match at the start of a text; \<open>re_sub\<close> replaces
  from left to right as \<open>re.sub\<close> does. Durations are rational numbers instead of floats, and
  the wall clock is an argument.
\<close>

section \<open>Regular expressions\<close>

type_synonym matcher = "string \<Rightarrow> nat option"

function re_sub :: "matcher \<Rightarrow> (string \<Rightarrow> string) \<Rightarrow> string \<Rightarrow> string" where
  "re_sub m r [] = []"
| "re_sub m r (c # s) =
     (case m (c # s) of
        Some (Suc n) \<Rightarrow> r (take (Suc n) (c # s)) @ re_sub m r (drop n s)
      | _ \<Rightarrow> c # re_sub m r s)"
  by pat_completeness auto
termination by (relation "measure (\<lambda>(m, r, s). length s)") auto

definition is_quote :: "char \<Rightarrow> bool" where
  "is_quote c = (c = CHR 0x22 \<or> c = CHR 0x27)"

definition alnum :: "char \<Rightarrow> bool" where
  "alnum c = (let n = (of_char c :: nat) in 48 \<le> n \<and> n \<le> 57 \<or> 65 \<le> n \<and> n \<le> 90 \<or> 97 \<le> n \<and> n \<le> 122)"

text \<open>\<open>kw["']?\s*[:=]\s*["']?[^"'\s]+\<close> without regard to case, after the keyword.\<close>

definition skip_quote :: "string \<Rightarrow> string" where
  "skip_quote s = (case s of c # t \<Rightarrow> if is_quote c then t else s | [] \<Rightarrow> [])"

definition assigned :: "string \<Rightarrow> string option" where
  "assigned s =
     (case dropWhile is_space (skip_quote s) of
        c # t \<Rightarrow>
          (if c = CHR '':'' \<or> c = CHR ''='' then
             (let u = skip_quote (dropWhile is_space t) in
              case u of
                d # v \<Rightarrow> if is_quote d \<or> is_space d then None
                  else Some (dropWhile (\<lambda>x. \<not> is_quote x \<and> \<not> is_space x) u)
              | [] \<Rightarrow> None)
           else None)
      | [] \<Rightarrow> None)"

definition keyword_assignment :: "string list \<Rightarrow> matcher" where
  "keyword_assignment kws s =
     (case filter (\<lambda>k. prefix k (lower s)) kws of
        [] \<Rightarrow> None
      | k # ks \<Rightarrow> (case assigned (drop (length k) s) of None \<Rightarrow> None | Some rest \<Rightarrow> Some (length s - length rest)))"

section \<open>StructuredFormatter\<close>

definition password_pattern :: matcher where
  "password_pattern = keyword_assignment [''password'']"

definition other_patterns :: matcher where
  "other_patterns = keyword_assignment [''api_key'', ''api-key'', ''apikey'', ''token'', ''secret'']"

text \<open>
  The alternatives are tried in order; the replacement \<open>\1: [REDACTED]\<close> repeats what the
  first of them, the password, has matched, which is nothing for the others.
\<close>

definition redact_sensitive :: "string \<Rightarrow> string" where
  "redact_sensitive s =
     re_sub (\<lambda>t. case password_pattern t of Some n \<Rightarrow> Some n | None \<Rightarrow> other_patterns t)
       (\<lambda>hit. (if password_pattern hit = Some (length hit) then hit else []) @ '': [REDACTED]'') s"

definition truncate_value :: "json \<Rightarrow> json" where
  "truncate_value v = (case v of
       JStr s \<Rightarrow> if length s > 1000 then JStr (take 1000 s @ ''... [truncated]'') else v
     | _ \<Rightarrow> v)"

record log_record =
  lr_level :: string
  lr_logger :: string
  lr_message :: string
  lr_attributes :: "(string \<times> json) list"
  lr_exc_info :: "(string option \<times> string option) option"

definition json_of :: "string option \<Rightarrow> json" where
  "json_of x = (case x of None \<Rightarrow> JNull | Some s \<Rightarrow> JStr s)"

definition log_entry :: "string list \<Rightarrow> string \<Rightarrow> log_record \<Rightarrow> (string \<times> json) list" where
  "log_entry include_fields now r =
     (let attr = (\<lambda>k. (k, dict_get (lr_attributes r) k JNull));
          base = [(''timestamp'', JStr now), (''level'', JStr (lr_level r)), (''logger'', JStr (lr_logger r)),
              (''message'', JStr (redact_sensitive (lr_message r)))] @
            map attr [''correlation_id'', ''execution_id'', ''task_id'', ''runner_id'', ''phase'', ''session_id''];
          extra = filter (\<lambda>k. k \<in> fst ` set (lr_attributes r)) include_fields;
          entry = fold (\<lambda>k e. AList.update k (snd (attr k)) e) extra base
      in case lr_exc_info r of
           None \<Rightarrow> entry
         | Some (ty, msg) \<Rightarrow> AList.update ''exception'' (JObj [(''type'', json_of ty), (''message'', json_of msg)]) entry)"

definition format_record :: "string list \<Rightarrow> string \<Rightarrow> log_record \<Rightarrow> string" where
  "format_record include_fields now r =
     json_dumps (JObj (map (\<lambda>(k, v). (k, truncate_value v)) (log_entry include_fields now r)))"

definition log_phase_event :: "string \<Rightarrow> string option \<Rightarrow> string option \<Rightarrow> string option \<Rightarrow> string option \<Rightarrow>
    string option \<Rightarrow> (string \<times> json) list \<Rightarrow> (string \<times> json) list" where
  "log_phase_event correlation_id execution_id task_id runner_id phase session_id extra =
     fold (\<lambda>(k, v). AList.update k v) extra
       [(''correlation_id'', JStr correlation_id), (''execution_id'', json_of execution_id), (''task_id'', json_of task_id),
        (''runner_id'', json_of runner_id), (''phase'', json_of phase), (''session_id'', json_of session_id)]"

section \<open>Phase timing\<close>

record phase_metrics =
  pm_phase :: string
  pm_start_time :: rat
  pm_end_time :: rat
  pm_success :: bool
  pm_error_type :: "string option"
  pm_correlation_id :: "string option"

definition duration_seconds :: "phase_metrics \<Rightarrow> rat" where
  "duration_seconds m = (if pm_end_time m \<noteq> 0 \<and> pm_start_time m \<noteq> 0 then pm_end_time m - pm_start_time m else 0)"

definition new_timer :: "string \<Rightarrow> string option \<Rightarrow> phase_metrics" where
  "new_timer phase cid = \<lparr>pm_phase = phase, pm_start_time = 0, pm_end_time = 0, pm_success = False,
     pm_error_type = None, pm_correlation_id = cid\<rparr>"

text \<open>The message and the severity that is logged go with the new metrics.\<close>

definition timer_enter :: "rat \<Rightarrow> phase_metrics \<Rightarrow> phase_metrics \<times> string" where
  "timer_enter now m = (m\<lparr>pm_start_time := now\<rparr>, ''Starting phase: '' @ pm_phase m)"

definition timer_exit :: "(rat \<Rightarrow> string) \<Rightarrow> rat \<Rightarrow> string option \<Rightarrow> phase_metrics \<Rightarrow> phase_metrics \<times> bool \<times> string" where
  "timer_exit fmt now exc m =
     (let m' = m\<lparr>pm_end_time := now, pm_success := (exc = None)\<rparr> in
      case exc of
        Some ty \<Rightarrow> (m'\<lparr>pm_error_type := Some ty\<rparr>, True,
          ''Phase '' @ pm_phase m @ '' failed after '' @ fmt (duration_seconds m') @ ''s'')
      | None \<Rightarrow> (m', False, ''Phase '' @ pm_phase m @ '' completed in '' @ fmt (duration_seconds m') @ ''s''))"

text \<open>\<open>measure_phase\<close>: a body that takes from \<open>t0\<close> to \<open>t1\<close> and returns or raises.\<close>

definition measure_phase :: "(rat \<Rightarrow> string) \<Rightarrow> string \<Rightarrow> string option \<Rightarrow> rat \<Rightarrow> rat \<Rightarrow> string option \<Rightarrow> phase_metrics" where
  "measure_phase fmt phase cid t0 t1 exc = fst (timer_exit fmt t1 exc (fst (timer_enter t0 (new_timer phase cid))))"

section \<open>Metrics\<close>

record execution_metrics =
  em_claimed :: nat
  em_completed :: nat
  em_failed :: nat
  em_retries_scheduled :: nat
  em_retries_exhausted :: nat
  em_stale_detected :: nat
  em_adoption_conflicts :: nat
  em_phase_durations :: "(string \<times> rat) list"
  em_phase_counts :: "(string \<times> nat) list"
  em_first_execution :: "datetime option"
  em_last_update :: datetime

definition reset_metrics :: "datetime \<Rightarrow> execution_metrics" where
  "reset_metrics now = \<lparr>em_claimed = 0, em_completed = 0, em_failed = 0, em_retries_scheduled = 0, em_retries_exhausted = 0,
     em_stale_detected = 0, em_adoption_conflicts = 0, em_phase_durations = [], em_phase_counts = [],
     em_first_execution = None, em_last_update = now\<rparr>"

definition count_of :: "(string \<times> nat) list \<Rightarrow> string \<Rightarrow> nat" where
  "count_of d k = (case map_of d k of None \<Rightarrow> 0 | Some n \<Rightarrow> n)"

definition duration_of :: "(string \<times> rat) list \<Rightarrow> string \<Rightarrow> rat" where
  "duration_of d k = (case map_of d k of None \<Rightarrow> 0 | Some x \<Rightarrow> x)"

definition record_phase_duration :: "datetime \<Rightarrow> string \<Rightarrow> rat \<Rightarrow> execution_metrics \<Rightarrow> execution_metrics" where
  "record_phase_duration now phase d M =
     M\<lparr>em_phase_durations := AList.update phase (duration_of (em_phase_durations M) phase + d) (em_phase_durations M),
       em_phase_counts := AList.update phase (count_of (em_phase_counts M) phase + 1) (em_phase_counts M),
       em_last_update := now\<rparr>"

definition record_execution_claimed :: "datetime \<Rightarrow> execution_metrics \<Rightarrow> execution_metrics" where
  "record_execution_claimed now M = M\<lparr>em_claimed := em_claimed M + 1,
     em_first_execution := (case em_first_execution M of None \<Rightarrow> Some now | Some t \<Rightarrow> Some t), em_last_update := now\<rparr>"

definition record_execution_completed :: "datetime \<Rightarrow> execution_metrics \<Rightarrow> execution_metrics" where
  "record_execution_completed now M = M\<lparr>em_completed := em_completed M + 1, em_last_update := now\<rparr>"

definition record_execution_failed :: "datetime \<Rightarrow> execution_metrics \<Rightarrow> execution_metrics" where
  "record_execution_failed now M = M\<lparr>em_failed := em_failed M + 1, em_last_update := now\<rparr>"

definition record_retry_scheduled :: "datetime \<Rightarrow> execution_metrics \<Rightarrow> execution_metrics" where
  "record_retry_scheduled now M = M\<lparr>em_retries_scheduled := em_retries_scheduled M + 1, em_last_update := now\<rparr>"

definition record_retry_exhausted :: "datetime \<Rightarrow> execution_metrics \<Rightarrow> execution_metrics" where
  "record_retry_exhausted now M = M\<lparr>em_retries_exhausted := em_retries_exhausted M + 1, em_last_update := now\<rparr>"

definition record_stale_detection :: "datetime \<Rightarrow> execution_metrics \<Rightarrow> execution_metrics" where
  "record_stale_detection now M = M\<lparr>em_stale_detected := em_stale_detected M + 1, em_last_update := now\<rparr>"

definition record_adoption_conflict :: "datetime \<Rightarrow> execution_metrics \<Rightarrow> execution_metrics" where
  "record_adoption_conflict now M = M\<lparr>em_adoption_conflicts := em_adoption_conflicts M + 1, em_last_update := now\<rparr>"

definition get_average_phase_duration :: "execution_metrics \<Rightarrow> string \<Rightarrow> rat" where
  "get_average_phase_duration M phase =
     (let n = count_of (em_phase_counts M) phase in
      if n = 0 then 0 else duration_of (em_phase_durations M) phase / of_nat n)"

definition success_rate :: "execution_metrics \<Rightarrow> rat" where
  "success_rate M = (if em_claimed M = 0 then 0 else of_nat (em_completed M) / of_nat (em_claimed M))"

definition retry_rate :: "execution_metrics \<Rightarrow> rat" where
  "retry_rate M = (if em_claimed M = 0 then 0 else of_nat (em_retries_scheduled M) / of_nat (em_claimed M))"

text \<open>The recording functions as events of the process, with the time of each.\<close>

datatype metric_event = M_Claimed | M_Completed | M_Failed | M_Retry | M_Exhausted | M_Stale | M_Conflict | M_Phase string rat

definition record_event :: "datetime \<times> metric_event \<Rightarrow> execution_metrics \<Rightarrow> execution_metrics" where
  "record_event x = (case x of (now, e) \<Rightarrow>
     (case e of
        M_Claimed \<Rightarrow> record_execution_claimed now
      | M_Completed \<Rightarrow> record_execution_completed now
      | M_Failed \<Rightarrow> record_execution_failed now
      | M_Retry \<Rightarrow> record_retry_scheduled now
      | M_Exhausted \<Rightarrow> record_retry_exhausted now
      | M_Stale \<Rightarrow> record_stale_detection now
      | M_Conflict \<Rightarrow> record_adoption_conflict now
      | M_Phase p d \<Rightarrow> record_phase_duration now p d))"

definition record_events :: "(datetime \<times> metric_event) list \<Rightarrow> execution_metrics \<Rightarrow> execution_metrics" where
  "record_events es M = fold record_event es M"

section \<open>PayloadRedactor\<close>

definition SENSITIVE_FIELDS :: "string list" where
  "SENSITIVE_FIELDS = [''password'', ''passwd'', ''pwd'', ''secret'', ''token'', ''api_key'', ''apikey'', ''access_token'',
     ''refresh_token'', ''authorization'', ''credential'', ''private_key'', ''ssh_key'']"

definition sensitive_key :: "string \<Rightarrow> bool" where
  "sensitive_key k = (\<exists>f \<in> set SENSITIVE_FIELDS. str_in f (lower k))"

text \<open>The four patterns: a key block on one line, two tokens of fixed length, a bearer token.\<close>

definition last_end :: "string \<Rightarrow> string \<Rightarrow> nat option" where
  "last_end pat s = (case filter (\<lambda>i. prefix pat (drop i s)) (rev [0..<Suc (length s)]) of
       [] \<Rightarrow> None | i # is \<Rightarrow> Some (i + length pat))"

definition key_block :: matcher where
  "key_block s =
     (let b = ''-----BEGIN'' in
      if prefix b s then
        (case last_end ''PRIVATE KEY-----'' (takeWhile (\<lambda>c. c \<noteq> CHR 0x0A) (drop (length b) s)) of
           None \<Rightarrow> None | Some n \<Rightarrow> Some (length b + n))
      else None)"

definition fixed_token :: "string \<Rightarrow> nat \<Rightarrow> matcher" where
  "fixed_token pre n s =
     (if prefix pre s \<and> length s \<ge> length pre + n \<and> list_all alnum (take n (drop (length pre) s))
      then Some (length pre + n) else None)"

definition bearer_char :: "char \<Rightarrow> bool" where
  "bearer_char c = (alnum c \<or> c = CHR ''.'' \<or> c = CHR ''_'' \<or> c = CHR ''-'')"

definition bearer_token :: matcher where
  "bearer_token s =
     (let t = drop 6 s; u = dropWhile is_space t in
      if prefix ''Bearer'' s \<and> t \<noteq> [] \<and> is_space (hd t) \<and> u \<noteq> [] \<and> bearer_char (hd u)
      then Some (length s - length (dropWhile bearer_char u)) else None)"

definition SENSITIVE_PATTERNS :: "matcher list" where
  "SENSITIVE_PATTERNS = [key_block, fixed_token ''ghp_'' 36, fixed_token ''sk-'' 32, bearer_token]"

definition redact_string :: "nat \<Rightarrow> string \<Rightarrow> string" where
  "redact_string max_size s =
     fold (\<lambda>m t. re_sub m (\<lambda>_. ''[REDACTED]'') t) SENSITIVE_PATTERNS
       (if length s > max_size then take max_size s @ ''... [truncated]'' else s)"

fun redact :: "nat \<Rightarrow> json \<Rightarrow> json" where
  "redact n (JObj d) = JObj (map (\<lambda>(k, v). (k, if sensitive_key k then JStr ''[REDACTED]'' else redact n v)) d)"
| "redact n (JList xs) = JList (map (redact n) xs)"
| "redact n (JStr s) = JStr (redact_string n s)"
| "redact n v = v"

definition redact_payload :: "json \<Rightarrow> json" where
  "redact_payload v = redact 10000 v"

section \<open>Correlation ids\<close>

definition generate_correlation_id :: "string \<Rightarrow> string \<Rightarrow> string" where
  "generate_correlation_id pre hex = pre @ ''-'' @ take 12 hex"

definition extract_correlation_id :: "(string \<times> json) list \<Rightarrow> json" where
  "extract_correlation_id d =
     (let x = dict_get d ''correlation_id'' JNull in if truthy x then x else dict_get d ''X-Correlation-ID'' JNull)"

section \<open>Lemmas on substitution\<close>

abbreviation redacted :: string where
  "redacted \<equiv> ''[REDACTED]''"

abbreviation blank_out :: "matcher \<Rightarrow> string \<Rightarrow> string" where
  "blank_out m \<equiv> re_sub m (\<lambda>_. redacted)"

definition bracket_free :: "string \<Rightarrow> bool" where
  "bracket_free w = (w \<noteq> [] \<and> CHR ''['' \<notin> set w \<and> CHR '']'' \<notin> set w \<and> \<not> sublist w redacted)"

lemma blank_out_prefix: "prefix w (blank_out m s) \<Longrightarrow> bracket_free w \<Longrightarrow> prefix w s"
proof -
  have "prefix w (blank_out m s) \<Longrightarrow> CHR ''['' \<notin> set w \<Longrightarrow> prefix w s"
  proof (induction s arbitrary: w rule: length_induct)
    case (1 s)
    show ?case
    proof (cases s)
      case (Cons c t)
      show ?thesis
      proof (cases "\<exists>n. m (c # t) = Some (Suc n)")
        case True
        then obtain n where "blank_out m s = redacted @ blank_out m (drop n t)" using Cons by auto
        with 1(2,3) show ?thesis by (cases w) auto
      next
        case False
        then have e: "blank_out m s = c # blank_out m t" using Cons by (auto split: option.splits nat.splits)
        show ?thesis
        proof (cases w)
          case (Cons d v)
          with e 1 \<open>s = c # t\<close> show ?thesis by auto
        qed simp
      qed
    qed (use 1 in simp)
  qed
  then show "prefix w (blank_out m s) \<Longrightarrow> bracket_free w \<Longrightarrow> prefix w s" by (simp add: bracket_free_def)
qed

lemma bracket_free_append: "bracket_free w \<Longrightarrow> sublist w (redacted @ s) \<longleftrightarrow> sublist w s"
proof
  assume b: "bracket_free w" and "sublist w (redacted @ s)"
  then consider "sublist w s" | x y where "w = x @ y" "suffix x redacted" "prefix y s"
    unfolding sublist_append using b unfolding bracket_free_def by blast
  then show "sublist w s"
  proof cases
    case 2
    have "x = []"
    proof (rule ccontr)
      assume "x \<noteq> []"
      with 2(2) have "last x = CHR '']''" by (auto simp: suffix_def) (metis last.simps last_appendR list.distinct(1))
      with \<open>x \<noteq> []\<close> have "CHR '']'' \<in> set x" by (metis last_in_set)
      with b 2(1) show False by (simp add: bracket_free_def)
    qed
    with 2 show ?thesis by auto
  qed
qed (unfold sublist_append, blast)

text \<open>A text without brackets in the result was there before; if it makes the pattern match, it is gone.\<close>

lemma blank_out_keeps_out: "bracket_free w \<Longrightarrow> sublist w (blank_out m s) \<Longrightarrow> sublist w s"
proof (induction s rule: length_induct)
  case (1 s)
  show ?case
  proof (cases s)
    case (Cons c t)
    show ?thesis
    proof (cases "\<exists>n. m (c # t) = Some (Suc n)")
      case True
      then obtain n where n: "blank_out m s = redacted @ blank_out m (drop n t)" using Cons by auto
      then have "sublist w (blank_out m (drop n t))" using 1(2,3) bracket_free_append by simp
      then have "sublist w (drop n t)" using 1(1,2) Cons by simp
      then obtain x y where "drop n t = x @ w @ y" by (auto simp: sublist_def)
      then have "s = (c # take n t @ x) @ w @ y" using Cons append_take_drop_id [of n t] by simp
      then show ?thesis unfolding sublist_def by blast
    next
      case False
      then have e: "blank_out m s = c # blank_out m t" using Cons by (auto split: option.splits nat.splits)
      then consider "prefix w (blank_out m s)" | "sublist w (blank_out m t)" using 1(3) by (auto simp: sublist_Cons_right)
      then show ?thesis
      proof cases
        case 1
        then show ?thesis using blank_out_prefix \<open>bracket_free w\<close> by blast
      next
        case 2
        then show ?thesis using 1(1,2) Cons by (auto simp: sublist_Cons_right)
      qed
    qed
  qed (use 1 in simp)
qed

lemma blank_out_removes:
  assumes "bracket_free w" "\<And>t. prefix w t \<Longrightarrow> \<exists>n. m t = Some (Suc n)"
  shows "\<not> sublist w (blank_out m s)"
proof (induction s rule: length_induct)
  case (1 s)
  show ?case
  proof (cases s)
    case (Cons c t)
    show ?thesis
    proof (cases "\<exists>n. m (c # t) = Some (Suc n)")
      case True
      then obtain n where "blank_out m s = redacted @ blank_out m (drop n t)" using Cons by auto
      then show ?thesis using 1 Cons bracket_free_append [OF assms(1)] by simp
    next
      case False
      then have e: "blank_out m s = c # blank_out m t" using Cons by (auto split: option.splits nat.splits)
      have "\<not> prefix w (blank_out m s)" using blank_out_prefix [OF _ assms(1)] assms(2) False Cons by blast
      then show ?thesis using e 1 Cons by (simp add: sublist_Cons_right)
    qed
  qed (use assms(1) in \<open>simp add: bracket_free_def\<close>)
qed

section \<open>Secrets\<close>

definition secret_text :: "string \<Rightarrow> bool" where
  "secret_text w =
     ((\<exists>r. w = ''ghp_'' @ r \<and> length r = 36 \<and> list_all alnum r) \<or>
      (\<exists>r. w = ''sk-'' @ r \<and> length r = 32 \<and> list_all alnum r) \<or>
      (\<exists>ws c. w = ''Bearer'' @ ws @ [c] \<and> ws \<noteq> [] \<and> list_all is_space ws \<and> bearer_char c))"

lemma alnum_brackets: "alnum c \<Longrightarrow> c \<noteq> CHR ''['' \<and> c \<noteq> CHR '']''"
  by (auto simp: alnum_def Let_def)

lemma bearer_not_space: "bearer_char c \<Longrightarrow> \<not> is_space c"
  by (auto simp: bearer_char_def alnum_def is_space_def Let_def)

lemma space_brackets: "is_space c \<Longrightarrow> c \<noteq> CHR ''['' \<and> c \<noteq> CHR '']''"
  by (auto simp: is_space_def Let_def)

lemma secret_bracket_free: "secret_text w \<Longrightarrow> bracket_free w"
proof -
  have long: "\<not> sublist w redacted" if "length w > 10" for w using sublist_length_le [of w redacted] that by auto
  have e: "\<not> sublist w redacted" if "CHR ''e'' \<in> set w" for w using set_mono_sublist [of w redacted] that by auto
  assume "secret_text w"
  then consider r where "w = ''ghp_'' @ r" "length r = 36" "list_all alnum r"
    | r where "w = ''sk-'' @ r" "length r = 32" "list_all alnum r"
    | ws c where "w = ''Bearer'' @ ws @ [c]" "list_all is_space ws" "bearer_char c"
    unfolding secret_text_def by blast
  then show ?thesis
  proof cases
    case 1
    then show ?thesis using alnum_brackets long [of w] by (auto simp: bracket_free_def list_all_iff)
  next
    case 2
    then show ?thesis using alnum_brackets long [of w] by (auto simp: bracket_free_def list_all_iff)
  next
    case 3
    have "c \<noteq> CHR ''['' \<and> c \<noteq> CHR '']''" using 3(3) alnum_brackets by (auto simp: bearer_char_def)
    then show ?thesis using 3 space_brackets e [of w] by (auto simp: bracket_free_def list_all_iff)
  qed
qed

lemma fixed_token_hits:
  assumes "length r = n" "list_all alnum r" "prefix (pre @ r) t" "pre \<noteq> []"
  shows "\<exists>k. fixed_token pre n t = Some (Suc k)"
proof -
  obtain u where "t = pre @ r @ u" using assms(3) by (auto simp: prefix_def)
  then have "fixed_token pre n t = Some (length pre + n)" using assms(1,2) by (simp add: fixed_token_def)
  then show ?thesis using assms(4) by (cases pre) auto
qed

lemma bearer_hits:
  assumes "ws \<noteq> []" "list_all is_space ws" "bearer_char c" "prefix (''Bearer'' @ ws @ [c]) t"
  shows "\<exists>k. bearer_token t = Some (Suc k)"
proof -
  obtain u where t: "t = ''Bearer'' @ ws @ c # u" using assms(4) by (auto simp: prefix_def)
  have d: "dropWhile is_space (ws @ c # u) = c # u"
    using assms(2) bearer_not_space [OF assms(3)] by (induction ws) auto
  have h: "is_space (hd (ws @ c # u))" using assms(1,2) by (cases ws) auto
  have x: "drop 6 t = ws @ c # u" "prefix ''Bearer'' t" by (simp_all add: t)
  have "bearer_token t = Some (length t - length (dropWhile bearer_char (c # u)))"
    unfolding bearer_token_def Let_def x(1) d using x(2) h assms(3) by (simp del: dropWhile.simps)
  moreover have "length (dropWhile bearer_char (c # u)) \<le> length (c # u)" by (rule length_dropWhile_le)
  then have "length t - length (dropWhile bearer_char (c # u)) > 0" by (simp add: t)
  ultimately show ?thesis by (metis gr0_implies_Suc)
qed

definition clean_string :: "string \<Rightarrow> bool" where
  "clean_string s = (\<forall>w. secret_text w \<longrightarrow> \<not> sublist w s)"

lemma redact_string_clean: "clean_string (redact_string n s)"
  unfolding clean_string_def
proof (intro allI impI)
  fix w assume w: "secret_text w"
  note b = secret_bracket_free [OF w]
  define s1 where "s1 = blank_out key_block (if length s > n then take n s @ ''... [truncated]'' else s)"
  have r: "redact_string n s = blank_out bearer_token (blank_out (fixed_token ''sk-'' 32) (blank_out (fixed_token ''ghp_'' 36) s1))"
    by (simp add: redact_string_def SENSITIVE_PATTERNS_def s1_def)
  from w consider r where "w = ''ghp_'' @ r" "length r = 36" "list_all alnum r"
    | r where "w = ''sk-'' @ r" "length r = 32" "list_all alnum r"
    | ws c where "w = ''Bearer'' @ ws @ [c]" "ws \<noteq> []" "list_all is_space ws" "bearer_char c"
    unfolding secret_text_def by blast
  then show "\<not> sublist w (redact_string n s)"
  proof cases
    case (1 r)
    have "\<not> sublist w (blank_out (fixed_token ''ghp_'' 36) s1)"
      by (rule blank_out_removes [OF b]) (use 1 fixed_token_hits [of r 36 "''ghp_''"] in simp)
    then show ?thesis unfolding r using blank_out_keeps_out [OF b] by blast
  next
    case (2 r)
    have "\<not> sublist w (blank_out (fixed_token ''sk-'' 32) (blank_out (fixed_token ''ghp_'' 36) s1))"
      by (rule blank_out_removes [OF b]) (use 2 fixed_token_hits [of r 32 "''sk-''"] in simp)
    then show ?thesis unfolding r using blank_out_keeps_out [OF b] by blast
  next
    case (3 ws c)
    show ?thesis unfolding r by (rule blank_out_removes [OF b]) (use 3 bearer_hits [of ws c] in simp)
  qed
qed

fun payload_clean :: "json \<Rightarrow> bool" where
  "payload_clean (JObj d) = list_all (\<lambda>(k, v). (sensitive_key k \<longrightarrow> v = JStr redacted) \<and> payload_clean v) d"
| "payload_clean (JList xs) = list_all payload_clean xs"
| "payload_clean (JStr s) = clean_string s"
| "payload_clean v = True"

lemma redact_clean: "payload_clean (redact n v)"
proof (induction n v rule: redact.induct)
  case (1 n d)
  have "\<not> sublist w redacted" if "secret_text w" for w using secret_bracket_free [OF that] by (simp add: bracket_free_def)
  then have "clean_string redacted" by (simp add: clean_string_def)
  then show ?case using 1 by (auto simp: list_all_iff)
next
  case (2 n xs)
  then show ?case by (simp add: list_all_iff)
next
  case (3 n s)
  show ?case using redact_string_clean by simp
qed simp_all

lemma redact_string_short: "length s \<le> n \<Longrightarrow> (\<And>m t. m \<in> set SENSITIVE_PATTERNS \<Longrightarrow> suffix t s \<Longrightarrow> m t = None) \<Longrightarrow>
    redact_string n s = s"
proof -
  assume a: "length s \<le> n" "\<And>m t. m \<in> set SENSITIVE_PATTERNS \<Longrightarrow> suffix t s \<Longrightarrow> m t = None"
  have r: "blank_out m t = t" if "m \<in> set SENSITIVE_PATTERNS" "suffix t s" for m t
    using that(2)
  proof (induction t)
    case (Cons c t)
    moreover from Cons.prems have "suffix t s" by (rule suffix_ConsD)
    ultimately show ?case using a(2) [OF that(1) Cons.prems] by simp
  qed simp
  show ?thesis using a(1) r [of _ s] by (simp add: redact_string_def SENSITIVE_PATTERNS_def)
qed

section \<open>Lemmas on log entries\<close>

lemma assigned_value:
  assumes "v \<noteq> []" "list_all (\<lambda>c. \<not> is_quote c \<and> \<not> is_space c) v"
  shows "assigned (CHR ''='' # v) = Some []"
proof -
  have v: "\<not> is_quote (hd v)" "\<not> is_space (hd v)" using assms by (cases v, auto)+
  have e: "\<not> is_quote (CHR ''='')" "\<not> is_space (CHR ''='')" by (simp_all add: is_quote_def is_space_def)
  have d: "dropWhile is_space v = v" "skip_quote v = v" using v assms(1) by (cases v; simp add: skip_quote_def)+
  have "dropWhile (\<lambda>x. \<not> is_quote x \<and> \<not> is_space x) v = []" using assms(2) by (simp add: list_all_iff)
  moreover have "skip_quote (CHR ''='' # v) = CHR ''='' # v" using e by (simp add: skip_quote_def)
  ultimately show ?thesis using e d v assms(1) by (cases v) (simp_all add: assigned_def Let_def)
qed

text \<open>What the replacement keeps: a password stays in the text, a token goes.\<close>

lemma password_kept:
  assumes "v \<noteq> []" "list_all (\<lambda>c. \<not> is_quote c \<and> \<not> is_space c) v"
  shows "redact_sensitive (''password='' @ v) = ''password='' @ v @ '': [REDACTED]''"
proof -
  have "prefix ''password'' (lower (''password='' @ v))" by (simp add: lower_def char_lower_def)
  then have p: "password_pattern (''password='' @ v) = Some (Suc (8 + length v))"
    using assigned_value [OF assms] by (simp add: password_pattern_def keyword_assignment_def)
  obtain c s where s: "''password='' @ v = c # s" "length s = 8 + length v" by simp
  have "redact_sensitive (c # s) = (c # s) @ '': [REDACTED]''"
    using p s unfolding redact_sensitive_def by simp
  then show ?thesis using s(1) by simp
qed

lemma token_redacted:
  assumes "v \<noteq> []" "list_all (\<lambda>c. \<not> is_quote c \<and> \<not> is_space c) v"
  shows "redact_sensitive (''token='' @ v) = '': [REDACTED]''"
proof -
  have l: "lower (''token='' @ v) = ''token='' @ lower v" by (simp add: lower_def char_lower_def)
  have p: "password_pattern (''token='' @ v) = None"
    unfolding password_pattern_def keyword_assignment_def l by simp
  have q: "other_patterns (''token='' @ v) = Some (Suc (5 + length v))"
    unfolding other_patterns_def keyword_assignment_def l using assigned_value [OF assms] by simp
  obtain c s where s: "''token='' @ v = c # s" "length s = 5 + length v" by simp
  have "redact_sensitive (c # s) = '': [REDACTED]''"
    using p q s unfolding redact_sensitive_def by simp
  then show ?thesis using s(1) by simp
qed

section \<open>Lemmas on metrics\<close>

definition count_event :: "metric_event \<Rightarrow> (datetime \<times> metric_event) list \<Rightarrow> nat" where
  "count_event e es = length (filter (\<lambda>x. snd x = e) es)"

definition durations :: "string \<Rightarrow> (datetime \<times> metric_event) list \<Rightarrow> rat list" where
  "durations p es = concat (map (\<lambda>x. case snd x of M_Phase q d \<Rightarrow> if q = p then [d] else [] | _ \<Rightarrow> []) es)"

lemmas record_defs = record_event_def record_execution_claimed_def record_execution_completed_def
  record_execution_failed_def record_retry_scheduled_def record_retry_exhausted_def record_stale_detection_def
  record_adoption_conflict_def record_phase_duration_def

lemma updated_counts [simp]:
  "count_of (AList.update k v d) p = (if p = k then v else count_of d p)"
  "duration_of (AList.update k x d') p = (if p = k then x else duration_of d' p)"
  by (simp_all add: count_of_def duration_of_def update_conv')

lemma record_events_counts:
  "em_claimed (record_events es M) = em_claimed M + count_event M_Claimed es \<and>
   em_completed (record_events es M) = em_completed M + count_event M_Completed es \<and>
   em_failed (record_events es M) = em_failed M + count_event M_Failed es \<and>
   em_retries_scheduled (record_events es M) = em_retries_scheduled M + count_event M_Retry es \<and>
   em_retries_exhausted (record_events es M) = em_retries_exhausted M + count_event M_Exhausted es \<and>
   em_stale_detected (record_events es M) = em_stale_detected M + count_event M_Stale es \<and>
   em_adoption_conflicts (record_events es M) = em_adoption_conflicts M + count_event M_Conflict es \<and>
   count_of (em_phase_counts (record_events es M)) p = count_of (em_phase_counts M) p + length (durations p es) \<and>
   duration_of (em_phase_durations (record_events es M)) p = duration_of (em_phase_durations M) p + sum_list (durations p es)"
proof (induction es arbitrary: M)
  case Nil
  then show ?case by (simp add: record_events_def count_event_def durations_def)
next
  case (Cons x es)
  obtain t e where x: "x = (t, e)" by (cases x)
  have r: "record_events (x # es) M = record_events es (record_event x M)" by (simp add: record_events_def)
  show ?case unfolding r using Cons.IH [of "record_event x M"]
    by (cases e) (simp_all add: x record_defs count_event_def durations_def)
qed

section \<open>Properties\<close>


text \<open>The truncation comes first, so a token that crosses the limit is cut and not recognised.\<close>

lemma truncated_token_survives:
  "redact_string 20 (''xxxxxxxxxx'' @ ''ghp_'' @ replicate 36 (CHR ''a'')) = ''xxxxxxxxxxghp_aaaaaa... [truncated]''"
  by code_simp

text \<open>
  The log formatter. What it does to an assignment of a secret value: the value of a token
  is removed, but the value of a password is repeated by the replacement and stays.
\<close>

theorem formatter_keeps_passwords:
  assumes "v \<noteq> []" "list_all (\<lambda>c. \<not> is_quote c \<and> \<not> is_space c) v"
  shows "redact_sensitive (''token='' @ v) = '': [REDACTED]'' \<and> redact_sensitive (''password='' @ v) = ''password='' @ v @ '': [REDACTED]''"
  using token_redacted [OF assms] password_kept [OF assms] by blast

theorem formatter_keeps_passwords_witness: "sublist ''hunter2'' (redact_sensitive ''password=hunter2'')"
proof -
  have v: "''hunter2'' \<noteq> []" "list_all (\<lambda>c. \<not> is_quote c \<and> \<not> is_space c) ''hunter2''" by (simp, code_simp)
  have "redact_sensitive ''password=hunter2'' = ''password='' @ ''hunter2'' @ '': [REDACTED]''"
    using formatter_keeps_passwords [OF v] by simp
  then show ?thesis unfolding sublist_def by metis
qed

text \<open>
  The counters of the runner. After any sequence of recorded events since the start, each
  counter is the number of its events, and the average of a phase is the mean of the
  durations that were recorded for it.
\<close>

theorem metrics_count_events:
  "let M = record_events es (reset_metrics t) in
     em_claimed M = count_event M_Claimed es \<and> em_completed M = count_event M_Completed es \<and>
     em_failed M = count_event M_Failed es \<and> em_retries_scheduled M = count_event M_Retry es \<and>
     em_retries_exhausted M = count_event M_Exhausted es \<and> em_stale_detected M = count_event M_Stale es \<and>
     em_adoption_conflicts M = count_event M_Conflict es \<and>
     get_average_phase_duration M p = (if durations p es = [] then 0
       else sum_list (durations p es) / of_nat (length (durations p es)))"
  unfolding Let_def get_average_phase_duration_def
  using record_events_counts [of es "reset_metrics t" p] by (simp add: reset_metrics_def count_of_def duration_of_def)

text \<open>A log entry is bounded at its top level; the message of an exception is neither cut nor redacted.\<close>

lemma truncated_length: "truncate_value v = JStr s \<Longrightarrow> length s \<le> 1015"
  by (cases v) (auto simp: truncate_value_def split: if_splits)

lemma exception_message_kept:
  assumes "lr_exc_info r = Some (ty, Some msg)"
  shows "map_of (map (\<lambda>(k, v). (k, truncate_value v)) (log_entry fs now r)) ''exception'' =
    Some (JObj [(''type'', json_of ty), (''message'', JStr msg)])"
  using assms by (simp add: log_entry_def Let_def json_of_def truncate_value_def map_of_map update_conv')

text \<open>A phase that took from one moment to a later one is measured, whether it returns or raises.\<close>

lemma measured_duration:
  "t0 \<noteq> 0 \<Longrightarrow> t1 \<noteq> 0 \<Longrightarrow> duration_seconds (measure_phase fmt p cid t0 t1 exc) = t1 - t0 \<and>
    pm_success (measure_phase fmt p cid t0 t1 exc) = (exc = None) \<and> pm_error_type (measure_phase fmt p cid t0 t1 exc) = exc"
  by (cases exc) (simp_all add: measure_phase_def timer_exit_def timer_enter_def new_timer_def duration_seconds_def Let_def)

end
