(* ===== verification/E2E_Validation.thy ===== *)
theory E2E_Validation
  imports Observability Context_Contract Git_Context
begin

text \<open>
  \<open>orchestrator/observability.py\<close>: the structured events of the orchestrator, and the
  validator that checks a preparation end to end without an execution. A context argument is
  the prepared context, or the text of the exception that reading it raises.
\<close>

section \<open>StructuredLogger\<close>

definition LOG_FIELDS :: "string list" where
  "LOG_FIELDS = [''task_id'', ''task_number'', ''task_type'', ''requirement_id'', ''correlation_id'', ''batch_id'',
     ''batch_type'', ''status_from'', ''status_to'', ''runner_mode'', ''branch_name'', ''worktree_path'', ''error_code'',
     ''error_class'']"

definition log_data :: "string \<Rightarrow> string \<Rightarrow> (string \<times> json) list \<Rightarrow> (string \<times> json) list \<Rightarrow> (string \<times> json) list" where
  "log_data now event args extra =
     fold (\<lambda>(k, v). AList.update k v) extra
       ([(''event'', JStr event), (''timestamp'', JStr now)] @
        filter (\<lambda>(k, v). truthy v) (map (\<lambda>k. (k, dict_get args k JNull)) LOG_FIELDS))"

text \<open>The severity (an error or not) and the logged line.\<close>

definition structured_log :: "string \<Rightarrow> bool \<Rightarrow> string \<Rightarrow> (string \<times> json) list \<Rightarrow> (string \<times> json) list \<Rightarrow> bool \<times> string" where
  "structured_log now err event args extra = (err, json_dumps (JObj (log_data now event args extra)))"

definition event_args :: "uuid \<Rightarrow> int \<Rightarrow> (string \<times> json) list" where
  "event_args i n = [(''task_id'', JStr (uuid_str i)), (''task_number'', JInt n)]"

definition task_discovered :: "string \<Rightarrow> uuid \<Rightarrow> int \<Rightarrow> string \<Rightarrow> string \<Rightarrow> bool \<times> string" where
  "task_discovered now i n ty corr = structured_log now False ''task_discovered''
     (event_args i n @ [(''task_type'', JStr ty), (''correlation_id'', JStr corr)]) []"

definition task_classified :: "string \<Rightarrow> uuid \<Rightarrow> int \<Rightarrow> string \<Rightarrow> string \<Rightarrow> bool \<times> string" where
  "task_classified now i n mode batch = structured_log now False ''task_classified''
     (event_args i n @ [(''runner_mode'', JStr mode), (''batch_id'', JStr batch)]) []"

definition task_locked :: "string \<Rightarrow> uuid \<Rightarrow> int \<Rightarrow> string \<Rightarrow> string \<Rightarrow> bool \<times> string" where
  "task_locked now i n batch worker = structured_log now False ''task_locked''
     (event_args i n @ [(''batch_id'', JStr batch)]) [(''worker_id'', JStr worker)]"

definition context_prepared :: "string \<Rightarrow> uuid \<Rightarrow> int \<Rightarrow> string \<Rightarrow> string option \<Rightarrow> string option \<Rightarrow> string \<Rightarrow> bool \<times> string" where
  "context_prepared now i n mode branch worktree batch = structured_log now False ''context_prepared''
     (event_args i n @ [(''runner_mode'', JStr mode), (''branch_name'', json_opt branch), (''worktree_path'', json_opt worktree),
        (''batch_id'', JStr batch)]) []"

definition preparation_failed :: "string \<Rightarrow> uuid \<Rightarrow> int \<Rightarrow> string \<Rightarrow> string \<Rightarrow> string \<Rightarrow> bool \<times> string" where
  "preparation_failed now i n code cls st = structured_log now True ''preparation_failed''
     (event_args i n @ [(''error_code'', JStr code), (''error_class'', JStr cls), (''status_to'', JStr st)]) []"

definition recovery_executed :: "string \<Rightarrow> uuid \<Rightarrow> int \<Rightarrow> string \<Rightarrow> string \<Rightarrow> string \<Rightarrow> bool \<times> string" where
  "recovery_executed now i n st_from st_to reason = structured_log now False ''recovery_executed''
     (event_args i n @ [(''status_from'', JStr st_from), (''status_to'', JStr st_to)]) [(''reason'', JStr reason)]"

section \<open>E2EValidator\<close>

datatype started = Opencode | Prompt | Task_Execution | In_Progress | Commit

record e2e_validator =
  ev_errors :: "string list"
  ev_write_path_valid :: bool
  ev_readonly_path_valid :: bool
  ev_negative_assertions_passed :: bool
  ev_started :: "started list"

record e2e_result =
  er_passed :: bool
  er_write_path_valid :: bool
  er_readonly_path_valid :: bool
  er_negative_assertions_passed :: bool
  er_errors :: "string list"

definition create_e2e_validator :: e2e_validator where
  "create_e2e_validator = \<lparr>ev_errors = [], ev_write_path_valid = False, ev_readonly_path_valid = False,
     ev_negative_assertions_passed = False, ev_started = []\<rparr>"

definition ev_fail :: "int \<Rightarrow> string \<Rightarrow> e2e_validator \<Rightarrow> bool \<times> e2e_validator" where
  "ev_fail n msg V = (False, V\<lparr>ev_errors := ev_errors V @ [''Task '' @ int_str n @ '': '' @ msg]\<rparr>)"

definition validate_write_path :: "int \<Rightarrow> string \<Rightarrow> string + prepared_context \<Rightarrow> e2e_validator \<Rightarrow> bool \<times> e2e_validator" where
  "validate_write_path n branch ctx V =
     (case ctx of
        Inl e \<Rightarrow> ev_fail n (''write path validation failed: '' @ e) V
      | Inr x \<Rightarrow>
          if runner_mode_value (x_runner_mode x) \<noteq> ''write'' then ev_fail n (''runner_mode should be '' @ str_repr ''write'') V
          else if \<not> str_truthy (x_branch_name x) then ev_fail n ''branch_name is required for write'' V
          else if \<not> str_truthy (x_worktree_path x) then ev_fail n ''worktree_path is required for write'' V
          else if \<not> str_truthy (x_commit_sha_before x) then ev_fail n ''commit_sha_before is required for write'' V
          else if \<not> prefix ''execqueue/task'' branch then ev_fail n ''invalid branch name format'' V
          else (True, V\<lparr>ev_write_path_valid := True\<rparr>))"

definition validate_readonly_path :: "int \<Rightarrow> string + prepared_context \<Rightarrow> e2e_validator \<Rightarrow> bool \<times> e2e_validator" where
  "validate_readonly_path n ctx V =
     (case ctx of
        Inl e \<Rightarrow> ev_fail n (''read-only path validation failed: '' @ e) V
      | Inr x \<Rightarrow>
          if runner_mode_value (x_runner_mode x) \<noteq> ''read_only'' then
            ev_fail n (''runner_mode should be '' @ str_repr ''read_only'') V
          else if str_truthy (x_branch_name x) then ev_fail n ''branch_name should be None for read-only'' V
          else if str_truthy (x_worktree_path x) then ev_fail n ''worktree_path should be None for read-only'' V
          else (True, V\<lparr>ev_readonly_path_valid := True\<rparr>))"

definition started_error :: "started \<Rightarrow> string" where
  "started_error f = (case f of
       Opencode \<Rightarrow> ''Negative assertion failed: OpenCode session was started''
     | Prompt \<Rightarrow> ''Negative assertion failed: Prompt was dispatched''
     | Task_Execution \<Rightarrow> ''Negative assertion failed: TaskExecution was created''
     | In_Progress \<Rightarrow> ''Negative assertion failed: Status changed to in_progress''
     | Commit \<Rightarrow> ''Negative assertion failed: Commit was created'')"

definition assert_no_execution_started :: "e2e_validator \<Rightarrow> bool \<times> e2e_validator" where
  "assert_no_execution_started V =
     (let errs = ev_errors V @ map started_error
            (filter (\<lambda>f. f \<in> set (ev_started V)) [Opencode, Prompt, Task_Execution, In_Progress, Commit])
      in (errs = [], V\<lparr>ev_errors := errs, ev_negative_assertions_passed := (errs = [])\<rparr>))"

definition e2e_result_of :: "e2e_validator \<Rightarrow> e2e_result" where
  "e2e_result_of V =
     \<lparr>er_passed = (ev_write_path_valid V \<and> ev_readonly_path_valid V \<and> ev_negative_assertions_passed V \<and> ev_errors V = []),
      er_write_path_valid = ev_write_path_valid V, er_readonly_path_valid = ev_readonly_path_valid V,
      er_negative_assertions_passed = ev_negative_assertions_passed V, er_errors = ev_errors V\<rparr>"

text \<open>The operations of a validation; a test notes that something was started.\<close>

datatype e2e_op = Check_Write int string "string + prepared_context" | Check_Readonly int "string + prepared_context"
  | Note_Started started | Assert_None

definition e2e_step :: "e2e_op \<Rightarrow> e2e_validator \<Rightarrow> bool \<times> e2e_validator" where
  "e2e_step a V = (case a of
       Check_Write n b x \<Rightarrow> validate_write_path n b x V
     | Check_Readonly n x \<Rightarrow> validate_readonly_path n x V
     | Note_Started f \<Rightarrow> (True, V\<lparr>ev_started := f # ev_started V\<rparr>)
     | Assert_None \<Rightarrow> assert_no_execution_started V)"

fun e2e_run :: "e2e_op list \<Rightarrow> e2e_validator \<Rightarrow> e2e_validator" where
  "e2e_run [] V = V"
| "e2e_run (a # as) V = e2e_run as (snd (e2e_step a V))"

section \<open>Lemmas\<close>

definition write_path_ok :: "string \<Rightarrow> string + prepared_context \<Rightarrow> bool" where
  "write_path_ok branch ctx = (case ctx of Inl e \<Rightarrow> False
     | Inr x \<Rightarrow> x_runner_mode x = WRITE \<and> write_mode_errors x = [] \<and> prefix ''execqueue/task'' branch)"

definition readonly_path_ok :: "string + prepared_context \<Rightarrow> bool" where
  "readonly_path_ok ctx = (case ctx of Inl e \<Rightarrow> False
     | Inr x \<Rightarrow> x_runner_mode x = READ_ONLY \<and> \<not> str_truthy (x_branch_name x) \<and> \<not> str_truthy (x_worktree_path x))"

lemma ev_fail_simps [simp]:
  "fst (ev_fail n m V) = False" "ev_errors (snd (ev_fail n m V)) \<noteq> []"
  "prefix (ev_errors V) (ev_errors (snd (ev_fail n m V)))"
  by (simp_all add: ev_fail_def)

lemma validate_write_path_spec:
  "validate_write_path n b x V = (if write_path_ok b x then (True, V\<lparr>ev_write_path_valid := True\<rparr>)
     else (False, snd (validate_write_path n b x V))) \<and>
   (\<not> write_path_ok b x \<longrightarrow> (\<exists>m. validate_write_path n b x V = ev_fail n m V))"
  by (cases x; cases "x_runner_mode (projr x)")
    (auto simp: validate_write_path_def write_path_ok_def write_mode_errors_def ev_fail_def)

lemma validate_readonly_path_spec:
  "validate_readonly_path n x V = (if readonly_path_ok x then (True, V\<lparr>ev_readonly_path_valid := True\<rparr>)
     else (False, snd (validate_readonly_path n x V))) \<and>
   (\<not> readonly_path_ok x \<longrightarrow> (\<exists>m. validate_readonly_path n x V = ev_fail n m V))"
  by (cases x; cases "x_runner_mode (projr x)")
    (auto simp: validate_readonly_path_def readonly_path_ok_def ev_fail_def)

definition op_ok :: "e2e_op \<Rightarrow> bool" where
  "op_ok a = (case a of Check_Write n b x \<Rightarrow> write_path_ok b x | Check_Readonly n x \<Rightarrow> readonly_path_ok x | _ \<Rightarrow> True)"

lemma e2e_run_snoc: "e2e_run (as @ [a]) V = snd (e2e_step a (e2e_run as V))"
  by (induction as arbitrary: V) simp_all

lemma step_errors: "ev_errors (snd (e2e_step a V)) = [] \<Longrightarrow> ev_errors V = [] \<and> op_ok a"
proof (cases a)
  case (Check_Write n b x)
  moreover assume "ev_errors (snd (e2e_step a V)) = []"
  ultimately show ?thesis using validate_write_path_spec [of n b x V]
    by (cases "write_path_ok b x") (auto simp: e2e_step_def op_ok_def)
next
  case (Check_Readonly n x)
  moreover assume "ev_errors (snd (e2e_step a V)) = []"
  ultimately show ?thesis using validate_readonly_path_spec [of n x V]
    by (cases "readonly_path_ok x") (auto simp: e2e_step_def op_ok_def)
qed (auto simp: e2e_step_def op_ok_def assert_no_execution_started_def Let_def)

lemma step_flags:
  "ev_write_path_valid (snd (e2e_step a V)) \<longleftrightarrow> ev_write_path_valid V \<or> (\<exists>n b x. a = Check_Write n b x \<and> write_path_ok b x)"
  "ev_readonly_path_valid (snd (e2e_step a V)) \<longleftrightarrow> ev_readonly_path_valid V \<or> (\<exists>n x. a = Check_Readonly n x \<and> readonly_path_ok x)"
  "set (ev_started (snd (e2e_step a V))) = set (ev_started V) \<union> {f. a = Note_Started f}"
  "ev_negative_assertions_passed (snd (e2e_step a V)) \<Longrightarrow>
     ev_negative_assertions_passed V \<or> a = Assert_None \<and> ev_started V = []"
proof -
  have w: "validate_write_path n b x V = (True, V\<lparr>ev_write_path_valid := True\<rparr>) \<and> write_path_ok b x \<or>
      (\<exists>m. validate_write_path n b x V = ev_fail n m V) \<and> \<not> write_path_ok b x" for n b x
    using validate_write_path_spec [of n b x V] by (cases "write_path_ok b x") auto
  have r: "validate_readonly_path n x V = (True, V\<lparr>ev_readonly_path_valid := True\<rparr>) \<and> readonly_path_ok x \<or>
      (\<exists>m. validate_readonly_path n x V = ev_fail n m V) \<and> \<not> readonly_path_ok x" for n x
    using validate_readonly_path_spec [of n x V] by (cases "readonly_path_ok x") auto
  have n: "filter (\<lambda>f. f \<in> set fs) [Opencode, Prompt, Task_Execution, In_Progress, Commit] = [] \<Longrightarrow> fs = []" for fs
  proof (cases fs)
    case (Cons f gs)
    moreover assume "filter (\<lambda>f. f \<in> set fs) [Opencode, Prompt, Task_Execution, In_Progress, Commit] = []"
    ultimately show ?thesis by (cases f) (auto split: if_splits)
  qed
  show "ev_write_path_valid (snd (e2e_step a V)) \<longleftrightarrow> ev_write_path_valid V \<or> (\<exists>n b x. a = Check_Write n b x \<and> write_path_ok b x)"
  proof (cases a)
    case (Check_Write k b x)
    then show ?thesis using w [of k b x] by (auto simp: e2e_step_def ev_fail_def)
  next
    case (Check_Readonly k x)
    then show ?thesis using r [of k x] by (auto simp: e2e_step_def ev_fail_def)
  qed (auto simp: e2e_step_def assert_no_execution_started_def Let_def)
  show "ev_readonly_path_valid (snd (e2e_step a V)) \<longleftrightarrow> ev_readonly_path_valid V \<or> (\<exists>n x. a = Check_Readonly n x \<and> readonly_path_ok x)"
  proof (cases a)
    case (Check_Write k b x)
    then show ?thesis using w [of k b x] by (auto simp: e2e_step_def ev_fail_def)
  next
    case (Check_Readonly k x)
    then show ?thesis using r [of k x] by (auto simp: e2e_step_def ev_fail_def)
  qed (auto simp: e2e_step_def assert_no_execution_started_def Let_def)
  show "set (ev_started (snd (e2e_step a V))) = set (ev_started V) \<union> {f. a = Note_Started f}"
  proof (cases a)
    case (Check_Write k b x)
    then show ?thesis using w [of k b x] by (auto simp: e2e_step_def ev_fail_def)
  next
    case (Check_Readonly k x)
    then show ?thesis using r [of k x] by (auto simp: e2e_step_def ev_fail_def)
  qed (auto simp: e2e_step_def assert_no_execution_started_def Let_def)
  assume p: "ev_negative_assertions_passed (snd (e2e_step a V))"
  show "ev_negative_assertions_passed V \<or> a = Assert_None \<and> ev_started V = []"
  proof (cases a)
    case (Check_Write k b x)
    then show ?thesis using p w [of k b x] by (auto simp: e2e_step_def ev_fail_def)
  next
    case (Check_Readonly k x)
    then show ?thesis using p r [of k x] by (auto simp: e2e_step_def ev_fail_def)
  next
    case Assert_None
    then have "filter (\<lambda>f. f \<in> set (ev_started V)) [Opencode, Prompt, Task_Execution, In_Progress, Commit] = []"
      using p unfolding e2e_step_def assert_no_execution_started_def Let_def by simp
    from n [OF this] show ?thesis using Assert_None by simp
  qed (use p in \<open>auto simp: e2e_step_def\<close>)
qed

lemma e2e_run_inv:
  assumes "V = e2e_run as create_e2e_validator"
  shows "(ev_errors V = [] \<longrightarrow> list_all op_ok as) \<and>
    (ev_write_path_valid V \<longrightarrow> (\<exists>n b x. Check_Write n b x \<in> set as \<and> write_path_ok b x)) \<and>
    (ev_readonly_path_valid V \<longrightarrow> (\<exists>n x. Check_Readonly n x \<in> set as \<and> readonly_path_ok x)) \<and>
    set (ev_started V) = {f. Note_Started f \<in> set as} \<and>
    (ev_negative_assertions_passed V \<longrightarrow> (\<exists>ys zs. as = ys @ Assert_None # zs \<and> (\<forall>f. Note_Started f \<notin> set ys)))"
  using assms
proof (induction as arbitrary: V rule: rev_induct)
  case (snoc a as)
  define U where "U = e2e_run as create_e2e_validator"
  note ih = snoc.IH [OF U_def]
  have V: "V = snd (e2e_step a U)" using snoc.prems by (simp add: e2e_run_snoc U_def)
  have 1: "ev_errors V = [] \<longrightarrow> list_all op_ok (as @ [a])" using step_errors [of a U] ih unfolding V by auto
  have 2: "ev_write_path_valid V \<longrightarrow> (\<exists>n b x. Check_Write n b x \<in> set (as @ [a]) \<and> write_path_ok b x)"
    using step_flags(1) [of a U] ih unfolding V by auto
  have 3: "ev_readonly_path_valid V \<longrightarrow> (\<exists>n x. Check_Readonly n x \<in> set (as @ [a]) \<and> readonly_path_ok x)"
    using step_flags(2) [of a U] ih unfolding V by auto
  have 4: "set (ev_started V) = {f. Note_Started f \<in> set (as @ [a])}"
    using step_flags(3) [of a U] ih unfolding V by auto
  have 5: "\<exists>ys zs. as @ [a] = ys @ Assert_None # zs \<and> (\<forall>f. Note_Started f \<notin> set ys)" if p: "ev_negative_assertions_passed V"
  proof -
    from step_flags(4) [OF p [unfolded V]] show ?thesis
    proof
      assume "ev_negative_assertions_passed U"
      then obtain ys zs where "as = ys @ Assert_None # zs" "\<forall>f. Note_Started f \<notin> set ys" using ih by blast
      then show ?thesis by (intro exI [of _ ys] exI [of _ "zs @ [a]"]) simp
    next
      assume a: "a = Assert_None \<and> ev_started U = []"
      then have "\<forall>f. Note_Started f \<notin> set as" using ih by auto
      with a show ?thesis by (intro exI [of _ as] exI [of _ "[]"]) simp
    qed
  qed
  from 1 2 3 4 5 show ?case by blast
qed (simp add: create_e2e_validator_def)

section \<open>Properties\<close>

text \<open>
  A passed validation means what it says. Whatever sequence of checks and notes led to it,
  every checked path was valid, a write path and a read-only path were checked, and at some
  check of the negative assertions nothing had been started until then.
\<close>

theorem e2e_passed_sound:
  assumes "er_passed (e2e_result_of (e2e_run as create_e2e_validator))"
  shows "list_all op_ok as \<and>
    (\<exists>n b x. Check_Write n b x \<in> set as \<and> write_path_ok b x) \<and> (\<exists>n x. Check_Readonly n x \<in> set as \<and> readonly_path_ok x) \<and>
    (\<exists>ys zs. as = ys @ Assert_None # zs \<and> (\<forall>f. Note_Started f \<notin> set ys))"
proof -
  define V where "V = e2e_run as create_e2e_validator"
  have "ev_write_path_valid V \<and> ev_readonly_path_valid V \<and> ev_negative_assertions_passed V \<and> ev_errors V = []"
    using assms by (simp add: e2e_result_of_def V_def)
  with e2e_run_inv [OF V_def] show ?thesis by blast
qed

text \<open>
  Contexts that the builder makes pass the validator: a write context exactly when its branch
  has the prefix of the program, which every generated branch name has, a read-only context
  always.
\<close>

theorem built_contexts_validate:
  assumes "build_context base now i n ty rw branch worktree sha batch corr details = Inr x"
  shows "(truthy rw \<longrightarrow> (fst (validate_write_path n b (Inr x) V) \<longleftrightarrow> prefix ''execqueue/task'' b)) \<and>
    (\<not> truthy rw \<longrightarrow> fst (validate_readonly_path n (Inr x) V)) \<and>
    (truthy rw \<longrightarrow> fst (validate_write_path n (generate_branch_name n i) (Inr x) V))"
proof -
  have g: "prefix ''execqueue/task'' (generate_branch_name n i)"
    by (simp add: generate_branch_name_def BRANCH_PREFIX_def Let_def)
  have w: "write_path_ok b (Inr x) \<longleftrightarrow> prefix ''execqueue/task'' b" if "truthy rw" for b
    using assms that by (auto simp: build_context_def build_write_context_def write_path_ok_def write_mode_errors_def
        str_truthy_iff split: if_splits)
  have r: "readonly_path_ok (Inr x)" if "\<not> truthy rw"
    using assms that by (auto simp: build_context_def build_read_only_context_def readonly_path_ok_def)
  have f: "fst (validate_write_path n b (Inr x) V) \<longleftrightarrow> write_path_ok b (Inr x)" for b
    using validate_write_path_spec [of n b "Inr x" V] by (cases "write_path_ok b (Inr x)") (metis fst_conv)+
  have h: "fst (validate_readonly_path n (Inr x) V) \<longleftrightarrow> readonly_path_ok (Inr x)"
    using validate_readonly_path_spec [of n "Inr x" V] by (cases "readonly_path_ok (Inr x)") (metis fst_conv)+
  show ?thesis using f h w r g by blast
qed

theorem built_contexts_validate_witness:
  "\<exists>x. build_context ''/r'' 0 1 7 ''execution'' (JBool True) (Some ''b'') (Some ''/w'') (Some ''c'') None None [] = Inr x \<and>
     fst (validate_write_path 7 (generate_branch_name 7 1) (Inr x) create_e2e_validator)"
proof -
  have "\<exists>x. build_context ''/r'' 0 1 7 ''execution'' (JBool True) (Some ''b'') (Some ''/w'') (Some ''c'') None None [] = Inr x"
    by (simp add: build_context_def)
  then obtain x where x: "build_context ''/r'' 0 1 7 ''execution'' (JBool True) (Some ''b'') (Some ''/w'') (Some ''c'') None None [] = Inr x" ..
  have "fst (validate_write_path 7 (generate_branch_name 7 1) (Inr x) create_e2e_validator)"
    using built_contexts_validate [OF x, of "[]" create_e2e_validator] truthy.simps by blast
  with x show ?thesis by blast
qed

theorem e2e_passed_sound_witness:
  "let w = Inr (build_write_context ''/r'' 0 1 7 ''execution'' ''b'' ''/w'' ''c'' None None []);
       r = Inr (build_read_only_context ''/r'' 0 1 7 ''planning'' None None []);
       as = [Check_Write 7 ''execqueue/task-7'' w, Check_Readonly 8 r, Assert_None, Note_Started Prompt]
   in er_passed (e2e_result_of (e2e_run as create_e2e_validator)) \<and> list_all op_ok as"
proof -
  let ?w = "Inr (build_write_context ''/r'' 0 1 7 ''execution'' ''b'' ''/w'' ''c'' None None [])"
  let ?r = "Inr (build_read_only_context ''/r'' 0 1 7 ''planning'' None None [])"
  let ?as = "[Check_Write 7 ''execqueue/task-7'' ?w, Check_Readonly 8 ?r, Assert_None, Note_Started Prompt]"
  have p: "er_passed (e2e_result_of (e2e_run ?as create_e2e_validator))"
    by (simp add: e2e_step_def create_e2e_validator_def e2e_result_of_def validate_write_path_def validate_readonly_path_def
        build_write_context_def build_read_only_context_def assert_no_execution_started_def Let_def)
  from e2e_passed_sound [OF p] p show ?thesis unfolding Let_def by blast
qed

end
