(* ===== verification/Supervisor.thy ===== *)
theory Supervisor
  imports Settings
begin

text \<open>
  \<open>orchestrator_legacy.py\<close>: the supervisor that starts the API and the bot as child processes,
  watches them and stops them. When a child exits, what the clock shows, when a signal comes
  and whether a child can be started or waited for are arguments. The two loops are partial:
  a loop that does not end has the value \<open>None\<close>.
\<close>

section \<open>Launch plan\<close>

record launch_plan =
  lp_api_command :: "string list"
  lp_bot_command :: "string list option"
  lp_configuration_errors :: "string list"

definition build_launch_plan :: "settings \<Rightarrow> string option \<Rightarrow> string \<Rightarrow> launch_plan" where
  "build_launch_plan s python_executable sys_executable =
     (let python = (if str_truthy python_executable then the python_executable else sys_executable) in
      \<lparr>lp_api_command = [python, ''-m'', ''uvicorn'', execqueue_api_app s, ''--host'', execqueue_api_host s, ''--port'',
          int_str (execqueue_api_port s)],
       lp_bot_command = (if telegram_bot_enabled s \<and> str_truthy (telegram_bot_token s)
          then Some [python, ''-m'', ''execqueue.workers.telegram.bot''] else None),
       lp_configuration_errors = (if telegram_bot_enabled s \<and> \<not> str_truthy (telegram_bot_token s)
          then [''Telegram bot is enabled but TELEGRAM_BOT_TOKEN is not set. Skipping bot startup.''] else [])\<rparr>)"

section \<open>Children\<close>

record managed_process =
  mp_name :: string
  mp_required :: bool

datatype child_action = Spawn string "string list" | Terminate string | Kill string

text \<open>
  While a child is terminated: whether it has exited already, the clock at the start and at
  each test of the loop, whether it has exited then, and whether waiting ends after the kill.
\<close>

record child_end =
  ce_exited_before :: bool
  ce_start :: rat
  ce_clock :: "nat \<Rightarrow> rat"
  ce_exited :: "nat \<Rightarrow> bool"
  ce_wait_ends :: bool

partial_function (option) terminate_loop :: "(nat \<Rightarrow> rat) \<Rightarrow> (nat \<Rightarrow> bool) \<Rightarrow> rat \<Rightarrow> nat \<Rightarrow> bool option" where
  "terminate_loop clock exited deadline k =
     (if clock k < deadline then
        (if exited k then Some True else terminate_loop clock exited deadline (Suc k))
      else Some False)"

definition grace_seconds :: rat where
  "grace_seconds = 10"

text \<open>What is done to the child, and whether the function raises \<open>TimeoutExpired\<close>.\<close>

definition terminate_process :: "child_end \<Rightarrow> string \<Rightarrow> (child_action list \<times> bool) option" where
  "terminate_process c name =
     (if ce_exited_before c then Some ([], False)
      else (case terminate_loop (ce_clock c) (ce_exited c) (ce_start c + grace_seconds) 0 of
          None \<Rightarrow> None
        | Some True \<Rightarrow> Some ([Terminate name], False)
        | Some False \<Rightarrow> Some ([Terminate name, Kill name], \<not> ce_wait_ends c)))"

section \<open>Monitoring\<close>

text \<open>One pass over the watched children: the exit code of a required one, or who is left.\<close>

fun monitor_pass :: "(string \<Rightarrow> int option) \<Rightarrow> managed_process list \<Rightarrow> int + managed_process list" where
  "monitor_pass poll [] = Inr []"
| "monitor_pass poll (p # ps) =
     (case poll (mp_name p) of
        None \<Rightarrow> (case monitor_pass poll ps of Inl c \<Rightarrow> Inl c | Inr qs \<Rightarrow> Inr (p # qs))
      | Some code \<Rightarrow> if mp_required p then Inl code else monitor_pass poll ps)"

partial_function (option) monitor_processes ::
    "(nat \<Rightarrow> bool) \<Rightarrow> (nat \<Rightarrow> string \<Rightarrow> int option) \<Rightarrow> nat \<Rightarrow> managed_process list \<Rightarrow> int option" where
  "monitor_processes stop poll i ps =
     (if stop i then Some 0
      else (case monitor_pass (poll i) ps of
          Inl code \<Rightarrow> Some code
        | Inr qs \<Rightarrow> monitor_processes stop poll (Suc i) qs))"

section \<open>The supervisor\<close>

record supervisor_world =
  sw_can_spawn :: "string \<Rightarrow> bool"
  sw_stop :: "nat \<Rightarrow> bool"
  sw_poll :: "nat \<Rightarrow> string \<Rightarrow> int option"
  sw_end :: "string \<Rightarrow> child_end"

datatype run_end = Exit_Code int | Spawn_Failed | Timeout_Expired

fun terminate_all :: "(string \<Rightarrow> child_end) \<Rightarrow> managed_process list \<Rightarrow> (child_action list \<times> bool) option" where
  "terminate_all ends [] = Some ([], False)"
| "terminate_all ends (p # ps) =
     (case terminate_process (ends (mp_name p)) (mp_name p) of
        None \<Rightarrow> None
      | Some (xs, True) \<Rightarrow> Some (xs, True)
      | Some (xs, False) \<Rightarrow> (case terminate_all ends ps of None \<Rightarrow> None | Some (ys, r) \<Rightarrow> Some (xs @ ys, r)))"

definition api_process :: managed_process where
  "api_process = \<lparr>mp_name = ''api'', mp_required = True\<rparr>"

definition bot_process_entry :: managed_process where
  "bot_process_entry = \<lparr>mp_name = ''telegram-bot'', mp_required = False\<rparr>"

definition run_orchestrator :: "supervisor_world \<Rightarrow> settings \<Rightarrow> string \<Rightarrow> (run_end \<times> child_action list) option" where
  "run_orchestrator w s sys_executable =
     (let plan = build_launch_plan s None sys_executable;
          api = Spawn ''api'' (lp_api_command plan);
          supervise = (\<lambda>spawned ps.
            case monitor_processes (sw_stop w) (sw_poll w) 0 ps of
              None \<Rightarrow> None
            | Some code \<Rightarrow>
                (case terminate_all (sw_end w) (rev ps) of
                   None \<Rightarrow> None
                 | Some (xs, r) \<Rightarrow> Some (if r then Timeout_Expired else Exit_Code code, spawned @ xs)))
      in if \<not> sw_can_spawn w ''api'' then Some (Spawn_Failed, [])
         else (case lp_bot_command plan of
             None \<Rightarrow> supervise [api] [api_process]
           | Some cmd \<Rightarrow>
               if \<not> sw_can_spawn w ''telegram-bot'' then Some (Spawn_Failed, [api])
               else supervise [api, Spawn ''telegram-bot'' cmd] [api_process, bot_process_entry]))"

section \<open>Lemmas\<close>

definition real_clock :: "(nat \<Rightarrow> rat) \<Rightarrow> bool" where
  "real_clock clock = (\<forall>k. clock k + 1/10 \<le> clock (Suc k))"

lemma real_clock_mono: "real_clock clock \<Longrightarrow> k \<le> j \<Longrightarrow> clock k \<le> clock j"
proof (rule lift_Suc_mono_le [of clock])
  fix n assume "real_clock clock"
  then have "clock n + 1/10 \<le> clock (Suc n)" by (simp add: real_clock_def)
  then show "clock n \<le> clock (Suc n)" by simp
qed

text \<open>Each turn of the loop sleeps a tenth of a second, so it ends.\<close>

lemma terminate_loop_spec:
  assumes "real_clock clock"
  shows "terminate_loop clock exited deadline k = Some (\<exists>j \<ge> k. exited j \<and> clock j < deadline)"
proof -
  have late: "(\<exists>j \<ge> k. exited j \<and> clock j < deadline) = False" if "\<not> clock k < deadline" for k
    using real_clock_mono [OF assms] that by (meson linorder_not_less order_trans)
  obtain n where "(deadline - clock k) * 10 < of_nat n" using reals_Archimedean2 by blast
  then have "(deadline - clock k) * 10 \<le> of_nat n" by simp
  then show ?thesis
  proof (induction n arbitrary: k)
    case 0
    then have "\<not> clock k < deadline" by simp
    with late [OF this] show ?case by (subst terminate_loop.simps) simp
  next
    case (Suc n)
    have "clock k + 1/10 \<le> clock (Suc k)" using assms by (simp add: real_clock_def)
    then have "(deadline - clock (Suc k)) * 10 \<le> (deadline - clock k) * 10 - 1" by simp
    also have "\<dots> \<le> of_nat n" using Suc.prems by simp
    finally have ih: "terminate_loop clock exited deadline (Suc k) = Some (\<exists>j \<ge> Suc k. exited j \<and> clock j < deadline)"
      by (rule Suc.IH)
    show ?case
    proof (cases "clock k < deadline")
      case True
      have "(\<exists>j \<ge> k. exited j \<and> clock j < deadline) \<longleftrightarrow> exited k \<or> (\<exists>j \<ge> Suc k. exited j \<and> clock j < deadline)"
        using True by (metis Suc_leD Suc_leI le_eq_less_or_eq order_refl)
      then show ?thesis using True ih by (subst terminate_loop.simps) auto
    next
      case False
      with late [OF False] show ?thesis by (subst terminate_loop.simps) simp
    qed
  qed
qed

text \<open>One pass: it ends with the code of the first required child that has exited.\<close>

definition required_exit :: "(string \<Rightarrow> int option) \<Rightarrow> managed_process list \<Rightarrow> int option" where
  "required_exit poll ps = (case filter (\<lambda>p. mp_required p \<and> poll (mp_name p) \<noteq> None) ps of [] \<Rightarrow> None | p # _ \<Rightarrow> poll (mp_name p))"

lemma monitor_pass_spec:
  "monitor_pass poll ps = (case required_exit poll ps of Some c \<Rightarrow> Inl c
     | None \<Rightarrow> Inr (filter (\<lambda>p. poll (mp_name p) = None) ps))"
proof (induction ps)
  case (Cons p ps)
  show ?case
  proof (cases "poll (mp_name p)")
    case None
    then have "required_exit poll (p # ps) = required_exit poll ps" by (simp add: required_exit_def)
    then show ?thesis using None Cons.IH by (simp split: option.splits)
  next
    case (Some c)
    show ?thesis
    proof (cases "mp_required p")
      case True
      then show ?thesis using Some by (simp add: required_exit_def)
    next
      case False
      then have "required_exit poll (p # ps) = required_exit poll ps" by (simp add: required_exit_def)
      then show ?thesis using Some False Cons.IH by (simp split: option.splits)
    qed
  qed
qed (simp add: required_exit_def)

text \<open>What the supervisor waits for when the API is the only required child.\<close>

lemma monitor_step:
  assumes "filter mp_required ps = [p]"
  shows "monitor_processes stop poll i ps =
    (if stop i then Some 0 else case poll i (mp_name p) of Some c \<Rightarrow> Some c
       | None \<Rightarrow> monitor_processes stop poll (Suc i) (filter (\<lambda>q. poll i (mp_name q) = None) ps))"
proof -
  have f: "filter (\<lambda>q. mp_required q \<and> poll i (mp_name q) \<noteq> None) ps = filter (\<lambda>q. poll i (mp_name q) \<noteq> None) [p]"
    unfolding assms [symmetric] by (simp add: conj_commute)
  have "required_exit (poll i) ps = poll i (mp_name p)"
    unfolding required_exit_def f by (cases "poll i (mp_name p)") simp_all
  then show ?thesis by (subst monitor_processes.simps) (simp add: monitor_pass_spec split: option.splits)
qed

lemma kept_required:
  assumes "filter mp_required ps = [p]" "poll (mp_name p) = None"
  shows "filter mp_required (filter (\<lambda>q. poll (mp_name q) = None) ps) = [p]"
proof -
  have "filter mp_required (filter (\<lambda>q. poll (mp_name q) = None) ps) = filter (\<lambda>q. poll (mp_name q) = None) (filter mp_required ps)"
    by (simp add: conj_commute)
  with assms show ?thesis by simp
qed

lemma monitor_returns:
  assumes "filter mp_required ps = [p]" "\<And>j. i \<le> j \<Longrightarrow> j < i + n \<Longrightarrow> \<not> stop j \<and> poll j (mp_name p) = None"
    and "stop (i + n) \<or> poll (i + n) (mp_name p) \<noteq> None"
  shows "monitor_processes stop poll i ps = Some (if stop (i + n) then 0 else the (poll (i + n) (mp_name p)))"
  using assms
proof (induction n arbitrary: i ps)
  case 0
  then show ?case using monitor_step [OF 0(1)] by auto
next
  case (Suc n)
  have now: "\<not> stop i" "poll i (mp_name p) = None" using Suc.prems(2) [of i] by auto
  let ?qs = "filter (\<lambda>q. poll i (mp_name q) = None) ps"
  have "monitor_processes stop poll (Suc i) ?qs = Some (if stop (Suc i + n) then 0 else the (poll (Suc i + n) (mp_name p)))"
    by (rule Suc.IH) (use Suc.prems kept_required [OF Suc.prems(1), of "poll i"] now in auto)
  then show ?case using monitor_step [OF Suc.prems(1)] now by simp
qed

definition stop_actions :: "child_end \<Rightarrow> string \<Rightarrow> child_action list" where
  "stop_actions c name =
     (if ce_exited_before c then []
      else if \<exists>j. ce_exited c j \<and> ce_clock c j < ce_start c + grace_seconds then [Terminate name]
      else [Terminate name, Kill name])"

lemma terminate_process_spec:
  assumes "real_clock (ce_clock c)"
  shows "terminate_process c name = Some (stop_actions c name, Kill name \<in> set (stop_actions c name) \<and> \<not> ce_wait_ends c)"
  by (auto simp: terminate_process_def terminate_loop_spec [OF assms] stop_actions_def split: bool.splits)

lemma terminate_all_spec:
  assumes "\<And>p. p \<in> set ps \<Longrightarrow> real_clock (ce_clock (ends (mp_name p))) \<and> ce_wait_ends (ends (mp_name p))"
  shows "terminate_all ends ps = Some (concat (map (\<lambda>p. stop_actions (ends (mp_name p)) (mp_name p)) ps), False)"
  using assms by (induction ps) (auto simp: terminate_process_spec)

definition children :: "settings \<Rightarrow> managed_process list" where
  "children s = (if telegram_bot_enabled s \<and> str_truthy (telegram_bot_token s) then [api_process, bot_process_entry]
     else [api_process])"

definition spawned :: "settings \<Rightarrow> string \<Rightarrow> child_action list" where
  "spawned s py = (let plan = build_launch_plan s None py in
     Spawn ''api'' (lp_api_command plan) # (case lp_bot_command plan of None \<Rightarrow> [] | Some c \<Rightarrow> [Spawn ''telegram-bot'' c]))"

lemma run_orchestrator_supervises:
  assumes "\<And>p. p \<in> set (children s) \<Longrightarrow> sw_can_spawn w (mp_name p)"
  shows "run_orchestrator w s py =
    (case monitor_processes (sw_stop w) (sw_poll w) 0 (children s) of None \<Rightarrow> None
     | Some code \<Rightarrow> (case terminate_all (sw_end w) (rev (children s)) of None \<Rightarrow> None
         | Some (xs, r) \<Rightarrow> Some (if r then Timeout_Expired else Exit_Code code, spawned s py @ xs)))"
proof (cases "telegram_bot_enabled s \<and> str_truthy (telegram_bot_token s)")
  case True
  then have "children s = [api_process, bot_process_entry]" by (simp add: children_def)
  moreover from this have "sw_can_spawn w ''api''" "sw_can_spawn w ''telegram-bot''"
    using assms [of api_process] assms [of bot_process_entry] by (simp_all add: api_process_def bot_process_entry_def)
  ultimately show ?thesis using True
    by (simp add: run_orchestrator_def spawned_def build_launch_plan_def Let_def split: option.splits prod.splits)
next
  case False
  then have "children s = [api_process]" by (auto simp: children_def)
  moreover from this have "sw_can_spawn w ''api''" using assms [of api_process] by (simp add: api_process_def)
  moreover have "lp_bot_command (build_launch_plan s None py) = None" using False by (auto simp: build_launch_plan_def Let_def)
  ultimately show ?thesis
    by (simp add: run_orchestrator_def spawned_def Let_def split: option.splits prod.splits)
qed

lemma children_required: "filter mp_required (children s) = [api_process]"
  by (simp add: children_def api_process_def bot_process_entry_def)

section \<open>Properties\<close>


definition quiet_world :: supervisor_world where
  "quiet_world = \<lparr>sw_can_spawn = (\<lambda>_. True), sw_stop = (\<lambda>i. i = 3), sw_poll = (\<lambda>i n. None),
     sw_end = (\<lambda>_. \<lparr>ce_exited_before = False, ce_start = 0, ce_clock = (\<lambda>k. of_nat k), ce_exited = (\<lambda>k. k = 20),
       ce_wait_ends = True\<rparr>)\<rparr>"


text \<open>A bot that cannot be waited for keeps the supervisor from stopping the API.\<close>

theorem failed_stop_leaves_api:
  assumes "children s = [api_process, bot_process_entry]" "\<forall>p \<in> set (children s). sw_can_spawn w (mp_name p)"
    and "real_clock (ce_clock (sw_end w ''telegram-bot''))" "Kill ''telegram-bot'' \<in> set (stop_actions (sw_end w ''telegram-bot'') ''telegram-bot'')"
    and "\<not> ce_wait_ends (sw_end w ''telegram-bot'')" and "run_orchestrator w s py = Some (e, xs)"
  shows "e = Timeout_Expired \<and> Terminate ''api'' \<notin> set xs"
proof -
  have "terminate_all (sw_end w) (rev (children s)) =
      Some (stop_actions (sw_end w ''telegram-bot'') ''telegram-bot'', True)"
    using assms(1,3,4,5) by (simp add: bot_process_entry_def terminate_process_spec)
  then have x: "e = Timeout_Expired" "xs = spawned s py @ stop_actions (sw_end w ''telegram-bot'') ''telegram-bot''"
    using assms(2,6) run_orchestrator_supervises [of s w py] by (auto split: option.splits)
  then show ?thesis by (auto simp: spawned_def stop_actions_def Let_def split: option.splits if_splits)
qed

end
