(* ===== verification/Migrations.thy ===== *)
theory Migrations
  imports Model
begin

text \<open>
  The schema migrations under \<open>alembic/versions\<close> as lists of operations, the databases they
  run on, and the columns that the classes of \<open>db/models.py\<close> and \<open>models/\<close> declare. Names of
  constraints and indexes are the ones written in the migrations; the naming convention of
  \<open>db/base.py\<close>, which Alembic applies to names without \<open>op.f\<close>, renames where a constraint is
  created and where it is dropped alike. An operation fails on a
  missing or existing name; in a PostgreSQL transaction a failed statement makes every later
  one fail, and SQLite has no \<open>ALTER TABLE\<close> for constraints: Alembic refuses its own
  operation, the database refuses the SQL text.
\<close>

section \<open>Schemas\<close>

datatype sql_type = T_Uuid | T_BigInt | T_Integer | T_String nat | T_Text | T_Boolean | T_DateTime | T_Json

text \<open>A column: name, type, whether it may be null, server default.\<close>

datatype sql_column = Col (col_name: string) (col_type: sql_type) (col_nullable: bool) (col_default: "string option")

datatype sql_constraint =
    Primary_Key (con_name: string) "string list"
  | Unique (con_name: string) "string list"
  | Foreign_Key (con_name: string) string string
  | Check (con_name: string) string "string list"

datatype sql_index = Index (ix_name: string) (ix_columns: "string list") (ix_unique: bool) (ix_where: "string option")

record sql_table =
  tb_columns :: "sql_column list"
  tb_constraints :: "sql_constraint list"
  tb_indexes :: "sql_index list"

type_synonym schema = "(string \<times> sql_table) list"

section \<open>Operations\<close>

datatype mig_op =
    Create_Table string "sql_column list" "sql_constraint list"
  | Drop_Table string
  | Add_Column string sql_column
  | Drop_Column string string
  | Create_Index string sql_index
  | Drop_Index string
  | Batch_Add string sql_constraint
  | Batch_Drop string string
  | Add_Constraint string sql_constraint
  | Drop_Constraint string string
  | Sql_Add_Constraint string sql_constraint
  | Sql_Drop_Constraint string string
  | Attempt "mig_op list"

datatype database = PostgreSQL_Transaction | PostgreSQL_Autocommit | SQLite

definition has_column :: "string \<Rightarrow> sql_table \<Rightarrow> bool" where
  "has_column c t = list_ex (\<lambda>x. col_name x = c) (tb_columns t)"

definition has_constraint :: "string \<Rightarrow> sql_table \<Rightarrow> bool" where
  "has_constraint c t = list_ex (\<lambda>x. con_name x = c) (tb_constraints t)"

definition has_index :: "string \<Rightarrow> schema \<Rightarrow> bool" where
  "has_index i S = list_ex (\<lambda>(n, t). list_ex (\<lambda>x. ix_name x = i) (tb_indexes t)) S"

definition on_table :: "schema \<Rightarrow> string \<Rightarrow> (sql_table \<Rightarrow> sql_table option) \<Rightarrow> schema option" where
  "on_table S n f = (case map_of S n of None \<Rightarrow> None
     | Some t \<Rightarrow> (case f t of None \<Rightarrow> None | Some t' \<Rightarrow> Some (map (\<lambda>(m, u). if m = n then (m, t') else (m, u)) S)))"

definition add_constraint :: "sql_constraint \<Rightarrow> sql_table \<Rightarrow> sql_table option" where
  "add_constraint c t = (if has_constraint (con_name c) t then None else Some (t\<lparr>tb_constraints := tb_constraints t @ [c]\<rparr>))"

definition drop_constraint :: "string \<Rightarrow> sql_table \<Rightarrow> sql_table option" where
  "drop_constraint n t = (if has_constraint n t then Some (t\<lparr>tb_constraints := filter (\<lambda>c. con_name c \<noteq> n) (tb_constraints t)\<rparr>)
     else None)"

text \<open>The effect of one statement on the schema, if the database accepts it.\<close>

fun effect :: "mig_op \<Rightarrow> schema \<Rightarrow> schema option" where
  "effect (Create_Table n cs ks) S = (if n \<in> set (map fst S) then None
     else Some (S @ [(n, \<lparr>tb_columns = cs, tb_constraints = ks, tb_indexes = []\<rparr>)]))"
| "effect (Drop_Table n) S = (if n \<in> set (map fst S) then Some (filter (\<lambda>(m, t). m \<noteq> n) S) else None)"
| "effect (Add_Column n c) S = on_table S n (\<lambda>t. if has_column (col_name c) t then None
     else Some (t\<lparr>tb_columns := tb_columns t @ [c]\<rparr>))"
| "effect (Drop_Column n c) S = on_table S n (\<lambda>t. if has_column c t
     then Some (t\<lparr>tb_columns := filter (\<lambda>x. col_name x \<noteq> c) (tb_columns t)\<rparr>) else None)"
| "effect (Create_Index n i) S = (if has_index (ix_name i) S then None
     else on_table S n (\<lambda>t. if list_all (\<lambda>c. has_column c t) (ix_columns i)
       then Some (t\<lparr>tb_indexes := tb_indexes t @ [i]\<rparr>) else None))"
| "effect (Drop_Index i) S = (if has_index i S
     then Some (map (\<lambda>(n, t). (n, t\<lparr>tb_indexes := filter (\<lambda>x. ix_name x \<noteq> i) (tb_indexes t)\<rparr>)) S) else None)"
| "effect (Batch_Add n c) S = on_table S n (add_constraint c)"
| "effect (Batch_Drop n c) S = on_table S n (drop_constraint c)"
| "effect (Add_Constraint n c) S = on_table S n (add_constraint c)"
| "effect (Drop_Constraint n c) S = on_table S n (drop_constraint c)"
| "effect (Sql_Add_Constraint n c) S = on_table S n (add_constraint c)"
| "effect (Sql_Drop_Constraint n c) S = on_table S n (\<lambda>t. if has_constraint c t then drop_constraint c t else Some t)"
| "effect (Attempt os) S = Some S"

definition refused :: "database \<Rightarrow> mig_op \<Rightarrow> bool" where
  "refused d a = (d = SQLite \<and> (case a of
      Add_Constraint n c \<Rightarrow> True | Drop_Constraint n c \<Rightarrow> True
    | Sql_Add_Constraint n c \<Rightarrow> True | Sql_Drop_Constraint n c \<Rightarrow> True | _ \<Rightarrow> False))"

text \<open>
  Running operations: whether they end without an exception, the schema, and whether the
  transaction is aborted. \<open>Attempt\<close> is \<open>try\<close> with \<open>except Exception: pass\<close>.
\<close>

definition statement :: "database \<Rightarrow> mig_op \<Rightarrow> schema \<times> bool \<Rightarrow> bool \<times> schema \<times> bool" where
  "statement d a st =
     (case st of (S, aborted) \<Rightarrow>
       if aborted \<or> refused d a then (False, S, aborted)
       else (case effect a S of
           Some S' \<Rightarrow> (True, S', False)
         | None \<Rightarrow> (False, S, d = PostgreSQL_Transaction)))"

fun run_op :: "database \<Rightarrow> mig_op \<Rightarrow> schema \<times> bool \<Rightarrow> bool \<times> schema \<times> bool"
and run_ops :: "database \<Rightarrow> mig_op list \<Rightarrow> schema \<times> bool \<Rightarrow> bool \<times> schema \<times> bool" where
  "run_op d (Attempt os) st = (True, snd (run_ops d os st))"
| "run_op d a st = statement d a st"
| "run_ops d [] st = (True, st)"
| "run_ops d (a # as) st = (case run_op d a st of (True, st') \<Rightarrow> run_ops d as st' | r \<Rightarrow> r)"

section \<open>The migrations\<close>

definition up_project :: "mig_op list" where
  "up_project =
    [Create_Table ''project''
     [Col ''id'' (T_Uuid) False None,
      Col ''key'' (T_String 64) False None,
      Col ''name'' (T_String 255) False None,
      Col ''description'' (T_Text) True None,
      Col ''is_active'' (T_Boolean) False (Some ''true()''),
      Col ''created_at'' (T_DateTime) False (Some ''now()''),
      Col ''updated_at'' (T_DateTime) False (Some ''now()'')]
     [Primary_Key ''pk_project'' [''id''],
      Unique ''uq_project_key'' [''key'']]]"

definition down_project :: "mig_op list" where
  "down_project =
    [Drop_Table ''project'']"

definition up_telegram_users :: "mig_op list" where
  "up_telegram_users =
    [Create_Table ''telegram_users''
     [Col ''id'' (T_Uuid) False None,
      Col ''telegram_id'' (T_BigInt) False None,
      Col ''first_name'' (T_String 255) True None,
      Col ''last_name'' (T_String 255) True None,
      Col ''role'' (T_String 32) False (Some ''user''),
      Col ''subscribed_events'' (T_Json) False (Some ''{}''),
      Col ''is_active'' (T_Boolean) False (Some ''false()''),
      Col ''last_active'' (T_DateTime) True None,
      Col ''created_at'' (T_DateTime) False (Some ''now()''),
      Col ''updated_at'' (T_DateTime) False (Some ''now()'')]
     [Check ''ck_telegram_users_telegram_users_role_allowed'' ''role'' [''user'', ''operator'', ''admin''],
      Primary_Key ''pk_telegram_users'' [''id''],
      Unique ''uq_telegram_users_telegram_id'' [''telegram_id'']]]"

definition down_telegram_users :: "mig_op list" where
  "down_telegram_users =
    [Drop_Table ''telegram_users'']"

definition up_task :: "mig_op list" where
  "up_task =
    [Create_Table ''task''
     [Col ''id'' (T_Uuid) False None,
      Col ''task_number'' (T_Integer) False (Some ''identity''),
      Col ''title'' (T_String 255) False (Some ''''),
      Col ''prompt'' (T_Text) False None,
      Col ''type'' (T_String 32) False None,
      Col ''status'' (T_String 32) False (Some ''backlog''),
      Col ''execution_order'' (T_Integer) True None,
      Col ''retry_count'' (T_Integer) False (Some ''0''),
      Col ''max_retries'' (T_Integer) False None,
      Col ''session_id'' (T_String 255) True None,
      Col ''created_by_type'' (T_String 32) False None,
      Col ''created_by_ref'' (T_String 255) False None,
      Col ''project_id'' (T_Uuid) True None,
      Col ''details'' (T_Json) False (Some ''{}''),
      Col ''created_at'' (T_DateTime) False (Some ''now()''),
      Col ''updated_at'' (T_DateTime) False (Some ''now()'')]
     [Check ''ck_task_task_created_by_type_allowed'' ''created_by_type'' [''user'', ''agent''],
      Foreign_Key ''fk_task_project_id_project'' ''project_id'' ''project'',
      Primary_Key ''pk_task'' [''id''],
      Unique ''uq_task_task_number'' [''task_number'']],
     Create_Index ''task'' (Index ''ix_task_status'' [''status''] False None)]"

definition down_task :: "mig_op list" where
  "down_task =
    [Drop_Index ''ix_task_status'',
     Drop_Table ''task'']"

definition up_requirement :: "mig_op list" where
  "up_requirement =
    [Create_Table ''requirement''
     [Col ''id'' (T_Uuid) False None,
      Col ''title'' (T_String 255) False None,
      Col ''description'' (T_Text) False None,
      Col ''status'' (T_String 32) False (Some ''draft''),
      Col ''project_id'' (T_Uuid) True None,
      Col ''created_at'' (T_DateTime) False (Some ''now()''),
      Col ''updated_at'' (T_DateTime) False (Some ''now()'')]
     [Check ''ck_requirement_status_allowed'' ''status'' [''draft'', ''approved'', ''rejected'', ''archived''],
      Foreign_Key ''fk_requirement_project_id_project'' ''project_id'' ''project'',
      Primary_Key ''pk_requirement'' [''id'']],
     Add_Column ''task'' (Col ''requirement_id'' (T_Uuid) True None),
     Add_Column ''task'' (Col ''idempotency_key'' (T_String 255) True None),
     Batch_Add ''task'' (Foreign_Key ''fk_task_requirement_id_requirement'' ''requirement_id'' ''requirement''),
     Batch_Add ''task'' (Unique ''uq_task_idempotency_key'' [''idempotency_key'']),
     Create_Index ''task'' (Index ''ix_task_type'' [''type''] False None),
     Create_Index ''task'' (Index ''ix_task_requirement_id'' [''requirement_id''] False None),
     Create_Index ''requirement'' (Index ''ix_requirement_project_id'' [''project_id''] False None),
     Create_Index ''requirement'' (Index ''ix_requirement_status'' [''status''] False None)]"

definition down_requirement :: "mig_op list" where
  "down_requirement =
    [Drop_Index ''ix_requirement_status'',
     Drop_Index ''ix_requirement_project_id'',
     Drop_Index ''ix_task_requirement_id'',
     Drop_Index ''ix_task_type'',
     Batch_Drop ''task'' ''uq_task_idempotency_key'',
     Batch_Drop ''task'' ''fk_task_requirement_id_requirement'',
     Drop_Column ''task'' ''idempotency_key'',
     Drop_Column ''task'' ''requirement_id'',
     Drop_Table ''requirement'']"

definition up_preparation_fields :: "mig_op list" where
  "up_preparation_fields =
    [Add_Column ''task'' (Col ''queued_at'' (T_DateTime) True None),
     Add_Column ''task'' (Col ''locked_by'' (T_String 255) True None),
     Add_Column ''task'' (Col ''preparation_attempt_count'' (T_Integer) False (Some ''0'')),
     Add_Column ''task'' (Col ''last_preparation_error'' (T_Text) True None),
     Add_Column ''task'' (Col ''branch_name'' (T_String 255) True None),
     Add_Column ''task'' (Col ''worktree_path'' (T_String 1024) True None),
     Add_Column ''task'' (Col ''commit_sha_before'' (T_String 64) True None),
     Add_Column ''task'' (Col ''prepared_context_version'' (T_String 32) True None),
     Add_Column ''task'' (Col ''batch_id'' (T_String 255) True None),
     Create_Index ''task'' (Index ''ix_task_status_created_at'' [''status'', ''created_at''] False None),
     Create_Index ''task'' (Index ''ix_task_queued_recovery'' [''status'', ''queued_at'', ''preparation_attempt_count''] False None),
     Attempt [Drop_Constraint ''task'' ''ck_task_status_allowed''],
     Attempt [Add_Constraint ''task'' (Check ''ck_task_status_allowed'' ''status'' [''backlog'', ''queued'', ''prepared'', ''failed''])]]"

definition down_preparation_fields :: "mig_op list" where
  "down_preparation_fields =
    [Drop_Index ''ix_task_queued_recovery'',
     Drop_Index ''ix_task_status_created_at'',
     Drop_Column ''task'' ''batch_id'',
     Drop_Column ''task'' ''prepared_context_version'',
     Drop_Column ''task'' ''commit_sha_before'',
     Drop_Column ''task'' ''worktree_path'',
     Drop_Column ''task'' ''branch_name'',
     Drop_Column ''task'' ''last_preparation_error'',
     Drop_Column ''task'' ''preparation_attempt_count'',
     Drop_Column ''task'' ''locked_by'',
     Drop_Column ''task'' ''queued_at'',
     Attempt [Drop_Constraint ''task'' ''ck_task_status_allowed'', Add_Constraint ''task'' (Check ''ck_task_status_allowed'' ''status'' [''backlog''])]]"

definition up_requirement_type :: "mig_op list" where
  "up_requirement_type =
    [Sql_Drop_Constraint ''task'' ''ck_task_type_allowed'',
     Sql_Add_Constraint ''task'' (Check ''ck_task_type_allowed'' ''type'' [''planning'', ''execution'', ''analysis'', ''requirement''])]"

definition down_requirement_type :: "mig_op list" where
  "down_requirement_type =
    [Sql_Drop_Constraint ''task'' ''ck_task_type_allowed'',
     Sql_Add_Constraint ''task'' (Check ''ck_task_type_allowed'' ''type'' [''planning'', ''execution'', ''analysis''])]"

definition up_allow_parallel :: "mig_op list" where
  "up_allow_parallel =
    [Add_Column ''task'' (Col ''allow_parallel_execution'' (T_Boolean) False (Some ''false''))]"

definition down_allow_parallel :: "mig_op list" where
  "down_allow_parallel =
    [Drop_Column ''task'' ''allow_parallel_execution'']"

definition up_executions :: "mig_op list" where
  "up_executions =
    [Create_Table ''task_executions''
     [Col ''id'' (T_Uuid) False None,
      Col ''task_id'' (T_Uuid) False None,
      Col ''runner_id'' (T_String 255) True None,
      Col ''correlation_id'' (T_String 64) True None,
      Col ''prepared_context_version'' (T_String 32) True None,
      Col ''opencode_session_id'' (T_String 128) True None,
      Col ''opencode_message_id'' (T_String 128) True None,
      Col ''status'' (T_String 32) False (Some ''prepared''),
      Col ''started_at'' (T_DateTime) True None,
      Col ''dispatched_at'' (T_DateTime) True None,
      Col ''finished_at'' (T_DateTime) True None,
      Col ''heartbeat_at'' (T_DateTime) True None,
      Col ''attempt'' (T_Integer) False (Some ''1''),
      Col ''max_attempts'' (T_Integer) False (Some ''3''),
      Col ''error_type'' (T_String 64) True None,
      Col ''error_message'' (T_Text) True None,
      Col ''result_summary'' (T_Json) True None,
      Col ''branch_name'' (T_String 255) True None,
      Col ''worktree_path'' (T_String 512) True None,
      Col ''commit_sha_before'' (T_String 40) True None,
      Col ''commit_sha_after'' (T_String 40) True None,
      Col ''new_commit_shas'' (T_Json) True None,
      Col ''changed_files'' (T_Json) True None,
      Col ''diff_stat'' (T_Text) True None,
      Col ''has_uncommitted_changes'' (T_Boolean) True None,
      Col ''inspection_status'' (T_String 32) True None,
      Col ''adopted_commit_sha'' (T_String 40) True None,
      Col ''next_retry_at'' (T_DateTime) True None,
      Col ''phase'' (T_String 32) True None,
      Col ''max_execution_duration_seconds'' (T_Integer) True (Some ''3600''),
      Col ''updated_at'' (T_DateTime) False (Some ''now()''),
      Col ''created_at'' (T_DateTime) False (Some ''now()'')]
     [Primary_Key [] [''id''],
      Foreign_Key [] ''task_id'' ''task'',
      Check ''ck_task_execution_status_allowed'' ''status'' [''prepared'', ''queued'', ''dispatching'', ''in_progress'', ''result_inspection'', ''adopting_commit'', ''review'', ''done'', ''failed'']],
     Create_Index ''task_executions'' (Index ''ix_task_executions_task_id'' [''task_id''] False None),
     Create_Index ''task_executions'' (Index ''ix_task_executions_status'' [''status''] False None),
     Create_Index ''task_executions'' (Index ''ix_task_executions_runner_id'' [''runner_id''] False None),
     Create_Index ''task_executions'' (Index ''ix_task_executions_correlation_id'' [''correlation_id''] False None),
     Create_Index ''task_executions'' (Index ''ix_task_executions_opencode_session_id'' [''opencode_session_id''] False None),
     Create_Index ''task_executions'' (Index ''ix_task_executions_updated_at'' [''updated_at''] False None),
     Create_Index ''task_executions'' (Index ''ix_task_executions_heartbeat_at_status'' [''heartbeat_at'', ''status''] False None),
     Create_Index ''task_executions'' (Index ''ix_task_executions_updated_at_status'' [''updated_at'', ''status''] False None),
     Create_Table ''task_execution_events''
     [Col ''id'' (T_Uuid) False None,
      Col ''task_execution_id'' (T_Uuid) False None,
      Col ''sequence'' (T_Integer) False (Some ''1''),
      Col ''external_event_id'' (T_String 128) True None,
      Col ''direction'' (T_String 32) False None,
      Col ''event_type'' (T_String 64) False None,
      Col ''payload'' (T_Json) False (Some ''{}''),
      Col ''correlation_id'' (T_String 64) True None,
      Col ''created_at'' (T_DateTime) False (Some ''now()'')]
     [Primary_Key [] [''id''],
      Foreign_Key [] ''task_execution_id'' ''task_executions'',
      Check ''ck_task_execution_events_direction_allowed'' ''direction'' [''inbound'', ''outbound''],
      Check ''ck_task_execution_events_event_type_allowed'' ''event_type'' [''started'', ''progress'', ''completed'', ''error'', ''status_update'', ''execution.claimed'', ''execution.dispatched'', ''execution.started'', ''execution.completed'', ''execution.failed'', ''session.created'', ''session.closed'', ''message.sent'', ''message.received'', ''stream.connected'', ''stream.disconnected'', ''stream.heartbeat'', ''result.inspected'', ''commit.adoption_started'', ''commit.adoption_success'', ''commit.adoption_conflict'', ''retry.scheduled'', ''retry.exhausted'']],
     Create_Index ''task_execution_events'' (Index ''ix_task_execution_events_unique_sequence'' [''task_execution_id'', ''sequence''] True None),
     Create_Index ''task_execution_events'' (Index ''ix_task_execution_events_unique_external_id'' [''task_execution_id'', ''external_event_id''] True (Some ''external_event_id IS NOT NULL'')),
     Create_Index ''task_execution_events'' (Index ''ix_task_execution_events_task_execution_id'' [''task_execution_id''] False None),
     Create_Index ''task_execution_events'' (Index ''ix_task_execution_events_direction'' [''direction''] False None),
     Create_Index ''task_execution_events'' (Index ''ix_task_execution_events_event_type'' [''event_type''] False None),
     Create_Index ''task_execution_events'' (Index ''ix_task_execution_events_created_at'' [''created_at''] False None),
     Create_Index ''task_execution_events'' (Index ''ix_task_execution_events_sequence'' [''task_execution_id'', ''sequence''] False None)]"

definition down_executions :: "mig_op list" where
  "down_executions =
    [Drop_Table ''task_execution_events'',
     Drop_Table ''task_executions'']"

definition up_runner_fields :: "mig_op list" where
  "up_runner_fields =
    []"

definition down_runner_fields :: "mig_op list" where
  "down_runner_fields =
    []"

definition up_unique_active :: "mig_op list" where
  "up_unique_active =
    [Create_Index ''task_executions'' (Index ''ix_task_executions_unique_active'' [''task_id''] True (Some ''status NOT IN (done, failed, review)''))]"

definition down_unique_active :: "mig_op list" where
  "down_unique_active =
    [Drop_Index ''ix_task_executions_unique_active'']"

definition up_token_usage :: "mig_op list" where
  "up_token_usage =
    [Add_Column ''task_executions'' (Col ''total_tokens'' (T_BigInt) True None),
     Create_Index ''task_executions'' (Index ''ix_task_executions_created_at_total_tokens'' [''created_at'', ''total_tokens''] False None)]"

definition down_token_usage :: "mig_op list" where
  "down_token_usage =
    [Drop_Index ''ix_task_executions_created_at_total_tokens'',
     Drop_Column ''task_executions'' ''total_tokens'']"

section \<open>Revisions\<close>

record revision =
  rev_id :: string
  rev_down :: "string option"
  rev_upgrade :: "mig_op list"
  rev_downgrade :: "mig_op list"

definition rev_unique_active :: revision where
  "rev_unique_active = \<lparr>rev_id = ''0dd3b00c3330'', rev_down = Some ''20260428_05'', rev_upgrade = up_unique_active, rev_downgrade = down_unique_active\<rparr>"

definition rev_allow_parallel :: revision where
  "rev_allow_parallel = \<lparr>rev_id = ''1773edb33736'', rev_down = Some ''7be75af01ab4'', rev_upgrade = up_allow_parallel, rev_downgrade = down_allow_parallel\<rparr>"

definition rev_project :: revision where
  "rev_project = \<lparr>rev_id = ''20260426_01'', rev_down = None, rev_upgrade = up_project, rev_downgrade = down_project\<rparr>"

definition rev_telegram_users :: revision where
  "rev_telegram_users = \<lparr>rev_id = ''20260426_02'', rev_down = Some ''20260426_01'', rev_upgrade = up_telegram_users, rev_downgrade = down_telegram_users\<rparr>"

definition rev_task :: revision where
  "rev_task = \<lparr>rev_id = ''20260426_03'', rev_down = Some ''20260426_02'', rev_upgrade = up_task, rev_downgrade = down_task\<rparr>"

definition rev_requirement :: revision where
  "rev_requirement = \<lparr>rev_id = ''20260426_04'', rev_down = Some ''20260426_03'', rev_upgrade = up_requirement, rev_downgrade = down_requirement\<rparr>"

definition rev_runner_fields :: revision where
  "rev_runner_fields = \<lparr>rev_id = ''20260428_05'', rev_down = Some ''e5eb4a65b3b5'', rev_upgrade = up_runner_fields, rev_downgrade = down_runner_fields\<rparr>"

definition rev_token_usage :: revision where
  "rev_token_usage = \<lparr>rev_id = ''20260429_01'', rev_down = Some ''0dd3b00c3330'', rev_upgrade = up_token_usage, rev_downgrade = down_token_usage\<rparr>"

definition rev_requirement_type :: revision where
  "rev_requirement_type = \<lparr>rev_id = ''7be75af01ab4'', rev_down = Some ''99d5a553d696'', rev_upgrade = up_requirement_type, rev_downgrade = down_requirement_type\<rparr>"

definition rev_preparation_fields :: revision where
  "rev_preparation_fields = \<lparr>rev_id = ''99d5a553d696'', rev_down = Some ''20260426_04'', rev_upgrade = up_preparation_fields, rev_downgrade = down_preparation_fields\<rparr>"

definition rev_executions :: revision where
  "rev_executions = \<lparr>rev_id = ''e5eb4a65b3b5'', rev_down = Some ''1773edb33736'', rev_upgrade = up_executions, rev_downgrade = down_executions\<rparr>"

text \<open>The directory of the revisions, in the order of the file names.\<close>

definition revisions :: "revision list" where
  "revisions = [rev_unique_active, rev_allow_parallel, rev_project, rev_telegram_users, rev_task, rev_requirement, rev_runner_fields, rev_token_usage, rev_requirement_type, rev_preparation_fields, rev_executions]"

text \<open>The order of an upgrade: from the base, each revision after the one it names.\<close>

fun order_from :: "nat \<Rightarrow> string option \<Rightarrow> revision list \<Rightarrow> revision list" where
  "order_from 0 cur rs = []"
| "order_from (Suc n) cur rs =
     (case filter (\<lambda>r. rev_down r = cur) rs of [r] \<Rightarrow> r # order_from n (Some (rev_id r)) rs | _ \<Rightarrow> [])"

definition upgrade_order :: "revision list" where
  "upgrade_order = order_from (length revisions) None revisions"

text \<open>
  \<open>alembic upgrade head\<close> on an empty database: each revision is followed by the update of the
  version table, which an aborted transaction refuses. It gives the revision that fails, or
  the schema.
\<close>

fun upgrade_all :: "database \<Rightarrow> revision list \<Rightarrow> schema \<times> bool \<Rightarrow> string + schema" where
  "upgrade_all d [] st = Inr (fst st)"
| "upgrade_all d (r # rs) st =
     (case run_ops d (rev_upgrade r) st of
        (ok, S, aborted) \<Rightarrow> if ok \<and> \<not> aborted then upgrade_all d rs (S, False) else Inl (rev_id r))"

definition upgrade_head :: "database \<Rightarrow> string + schema" where
  "upgrade_head d = upgrade_all d upgrade_order ([], False)"

section \<open>Declared columns\<close>

definition orm_project :: "(string \<times> sql_type \<times> bool) list" where
  "orm_project =
    [(''id'', T_Uuid, False),
     (''key'', T_String 64, False),
     (''name'', T_String 255, False),
     (''description'', T_Text, True),
     (''is_active'', T_Boolean, False),
     (''created_at'', T_DateTime, False),
     (''updated_at'', T_DateTime, False)]"

definition orm_telegram_users :: "(string \<times> sql_type \<times> bool) list" where
  "orm_telegram_users =
    [(''id'', T_Uuid, False),
     (''telegram_id'', T_BigInt, False),
     (''first_name'', T_String 255, True),
     (''last_name'', T_String 255, True),
     (''role'', T_String 32, False),
     (''subscribed_events'', T_Json, False),
     (''is_active'', T_Boolean, False),
     (''last_active'', T_DateTime, True),
     (''created_at'', T_DateTime, False),
     (''updated_at'', T_DateTime, False)]"

definition orm_requirement :: "(string \<times> sql_type \<times> bool) list" where
  "orm_requirement =
    [(''id'', T_Uuid, False),
     (''title'', T_String 255, False),
     (''description'', T_Text, False),
     (''status'', T_String 32, False),
     (''project_id'', T_Uuid, True),
     (''created_at'', T_DateTime, False),
     (''updated_at'', T_DateTime, False)]"

definition orm_task :: "(string \<times> sql_type \<times> bool) list" where
  "orm_task =
    [(''id'', T_Uuid, False),
     (''task_number'', T_Integer, False),
     (''title'', T_String 255, False),
     (''prompt'', T_Text, False),
     (''type'', T_String 32, False),
     (''status'', T_String 32, False),
     (''execution_order'', T_Integer, True),
     (''retry_count'', T_Integer, False),
     (''max_retries'', T_Integer, False),
     (''session_id'', T_String 255, True),
     (''created_by_type'', T_String 32, False),
     (''created_by_ref'', T_String 255, False),
     (''project_id'', T_Uuid, True),
     (''requirement_id'', T_Uuid, True),
     (''idempotency_key'', T_String 255, True),
     (''details'', T_Json, False),
     (''queued_at'', T_DateTime, True),
     (''locked_by'', T_String 255, True),
     (''preparation_attempt_count'', T_Integer, False),
     (''last_preparation_error'', T_Text, True),
     (''branch_name'', T_String 255, True),
     (''worktree_path'', T_String 1024, True),
     (''commit_sha_before'', T_String 64, True),
     (''prepared_context_version'', T_String 32, True),
     (''batch_id'', T_String 255, True),
     (''allow_parallel_execution'', T_Boolean, False),
     (''created_at'', T_DateTime, False),
     (''updated_at'', T_DateTime, False)]"

definition orm_task_executions :: "(string \<times> sql_type \<times> bool) list" where
  "orm_task_executions =
    [(''id'', T_Uuid, False),
     (''task_id'', T_Uuid, False),
     (''runner_id'', T_String 255, True),
     (''correlation_id'', T_String 64, True),
     (''prepared_context_version'', T_String 32, True),
     (''opencode_session_id'', T_String 128, True),
     (''opencode_message_id'', T_String 128, True),
     (''status'', T_String 32, False),
     (''started_at'', T_DateTime, True),
     (''dispatched_at'', T_DateTime, True),
     (''finished_at'', T_DateTime, True),
     (''heartbeat_at'', T_DateTime, True),
     (''attempt'', T_Integer, False),
     (''max_attempts'', T_Integer, False),
     (''error_type'', T_String 64, True),
     (''error_message'', T_Text, True),
     (''result_summary'', T_Json, True),
     (''branch_name'', T_String 255, True),
     (''worktree_path'', T_String 512, True),
     (''commit_sha_before'', T_String 40, True),
     (''commit_sha_after'', T_String 40, True),
     (''new_commit_shas'', T_Json, True),
     (''changed_files'', T_Json, True),
     (''diff_stat'', T_Text, True),
     (''has_uncommitted_changes'', T_Boolean, True),
     (''inspection_status'', T_String 32, True),
     (''adopted_commit_sha'', T_String 40, True),
     (''total_tokens'', T_BigInt, True),
     (''next_retry_at'', T_DateTime, True),
     (''phase'', T_String 32, True),
     (''max_execution_duration_seconds'', T_Integer, True),
     (''updated_at'', T_DateTime, False),
     (''created_at'', T_DateTime, False)]"

definition orm_task_execution_events :: "(string \<times> sql_type \<times> bool) list" where
  "orm_task_execution_events =
    [(''id'', T_Uuid, False),
     (''task_execution_id'', T_Uuid, False),
     (''sequence'', T_Integer, False),
     (''external_event_id'', T_String 128, True),
     (''direction'', T_String 32, False),
     (''event_type'', T_String 64, False),
     (''payload'', T_Json, False),
     (''correlation_id'', T_String 64, True),
     (''created_at'', T_DateTime, False)]"

text \<open>The constraints of four of the tables. The convention of \<open>db/base.py\<close> names those without a
  name, and puts a prefix before the name of a check.\<close>

fun naming_convention :: "string \<Rightarrow> sql_constraint \<Rightarrow> string" where
  "naming_convention tb (Primary_Key n cs) = ''pk_'' @ tb"
| "naming_convention tb (Unique n cs) = ''uq_'' @ tb @ ''_'' @ hd cs"
| "naming_convention tb (Foreign_Key n c ref) = ''fk_'' @ tb @ ''_'' @ c @ ''_'' @ ref"
| "naming_convention tb (Check n c vs) = ''ck_'' @ tb @ ''_'' @ n"

definition orm_project_constraints :: "sql_constraint list" where
  "orm_project_constraints = [Primary_Key [] [''id''], Unique [] [''key'']]"

definition orm_telegram_users_constraints :: "sql_constraint list" where
  "orm_telegram_users_constraints =
    [Check ''telegram_users_role_allowed'' ''role'' [''user'', ''operator'', ''admin''],
     Primary_Key [] [''id''],
     Unique [] [''telegram_id'']]"

definition orm_requirement_constraints :: "sql_constraint list" where
  "orm_requirement_constraints =
    [Check ''ck_requirement_status_allowed'' ''status'' [''draft'', ''approved'', ''rejected'', ''archived''],
     Primary_Key [] [''id''],
     Foreign_Key [] ''project_id'' ''project'']"

definition orm_task_constraints :: "sql_constraint list" where
  "orm_task_constraints =
    [Check ''ck_task_created_by_type_allowed'' ''created_by_type'' [''user'', ''agent''],
     Check ''ck_task_type_allowed'' ''type'' [''planning'', ''execution'', ''analysis'', ''requirement''],
     Primary_Key [] [''id''],
     Unique [] [''task_number''],
     Foreign_Key [] ''project_id'' ''project'',
     Foreign_Key [] ''requirement_id'' ''requirement'',
     Unique [] [''idempotency_key'']]"

definition orm_constraints :: "(string \<times> sql_constraint list) list" where
  "orm_constraints = [(''project'', orm_project_constraints), (''telegram_users'', orm_telegram_users_constraints),
     (''requirement'', orm_requirement_constraints), (''task'', orm_task_constraints)]"

text \<open>The tables of the two classes that no operation of the program uses.\<close>

definition orm_execution_plan :: "(string \<times> sql_type \<times> bool) list" where
  "orm_execution_plan =
    [(''id'', T_Uuid, False),
     (''requirement_id'', T_Uuid, False),
     (''created_by_task_id'', T_Uuid, True),
     (''created_at'', T_DateTime, False),
     (''content'', T_Json, False),
     (''status'', T_String 32, False)]"

definition orm_task_dependencies :: "(string \<times> sql_type \<times> bool) list" where
  "orm_task_dependencies =
    [(''task_id'', T_Uuid, False),
     (''depends_on_task_id'', T_Uuid, False),
     (''created_at'', T_DateTime, False)]"

definition orm_unused :: "(string \<times> (string \<times> sql_type \<times> bool) list) list" where
  "orm_unused = [(''execution_plan'', orm_execution_plan), (''task_dependencies'', orm_task_dependencies)]"

text \<open>The tables that the program uses.\<close>

definition orm_tables :: "(string \<times> (string \<times> sql_type \<times> bool) list) list" where
  "orm_tables = [(''project'', orm_project), (''telegram_users'', orm_telegram_users), (''task'', orm_task),
     (''requirement'', orm_requirement), (''task_executions'', orm_task_executions),
     (''task_execution_events'', orm_task_execution_events)]"

definition columns_of :: "schema \<Rightarrow> string \<Rightarrow> (string \<times> sql_type \<times> bool) list" where
  "columns_of S n = (case map_of S n of None \<Rightarrow> []
     | Some t \<Rightarrow> map (\<lambda>c. (col_name c, col_type c, col_nullable c)) (tb_columns t))"

definition allowed_values :: "schema \<Rightarrow> string \<Rightarrow> string \<Rightarrow> string list list" where
  "allowed_values S n c = (case map_of S n of None \<Rightarrow> []
     | Some t \<Rightarrow> concat (map (\<lambda>k. case k of Check m d vs \<Rightarrow> if d = c then [vs] else [] | _ \<Rightarrow> []) (tb_constraints t)))"

text \<open>Each revision with the schema it starts from and the one its upgrade gives, and whether
  its downgrade restores the first.\<close>

fun stages :: "revision list \<Rightarrow> schema \<Rightarrow> (revision \<times> schema \<times> bool \<times> schema) list" where
  "stages [] S = []"
| "stages (r # rs) S = (case run_ops PostgreSQL_Autocommit (rev_upgrade r) (S, False) of
     (ok, S1, x) \<Rightarrow> (r, S, ok, S1) # stages rs S1)"

fun restores :: "revision \<times> schema \<times> bool \<times> schema \<Rightarrow> bool" where
  "restores (r, S, ok, S1) =
     (case run_ops PostgreSQL_Autocommit (rev_downgrade r) (S1, False) of (ok', S2, y) \<Rightarrow> ok \<and> ok' \<and> S2 = S)"

section \<open>Properties\<close>

text \<open>
  The revisions form one chain from the base to a single head: the upgrade reaches each of
  the eleven once, each after the one it names.
\<close>

lemma revisions_form_chain:
  "map rev_id upgrade_order = [''20260426_01'', ''20260426_02'', ''20260426_03'', ''20260426_04'', ''99d5a553d696'',
     ''7be75af01ab4'', ''1773edb33736'', ''e5eb4a65b3b5'', ''20260428_05'', ''0dd3b00c3330'', ''20260429_01'']"
  by code_simp

text \<open>The schema at the head, where each statement is committed for itself.\<close>

definition fits :: "schema \<Rightarrow> bool" where
  "fits S = (length S = length orm_tables \<and>
     list_all (\<lambda>(n, cs). let ds = columns_of S n in length ds = length cs \<and> list_all (\<lambda>c. c \<in> set cs) ds \<and>
       list_all (\<lambda>c. c \<in> set ds) cs) orm_tables)"

definition admits :: "schema \<Rightarrow> bool" where
  "admits S = (allowed_values S ''task'' ''status'' = [[''backlog'', ''queued'', ''prepared'', ''failed'']] \<and>
      allowed_values S ''task'' ''type'' = [[''planning'', ''execution'', ''analysis'', ''requirement'']] \<and>
      allowed_values S ''requirement'' ''status'' = [[''draft'', ''approved'', ''rejected'', ''archived'']] \<and>
      allowed_values S ''task_executions'' ''status'' = [[''prepared'', ''queued'', ''dispatching'', ''in_progress'',
        ''result_inspection'', ''adopting_commit'', ''review'', ''done'', ''failed'']] \<and>
      allowed_values S ''task_execution_events'' ''event_type'' = [[''started'', ''progress'', ''completed'', ''error'',
        ''status_update'', ''execution.claimed'', ''execution.dispatched'', ''execution.started'', ''execution.completed'',
        ''execution.failed'', ''session.created'', ''session.closed'', ''message.sent'', ''message.received'',
        ''stream.connected'', ''stream.disconnected'', ''stream.heartbeat'', ''result.inspected'',
        ''commit.adoption_started'', ''commit.adoption_success'', ''commit.adoption_conflict'', ''retry.scheduled'',
        ''retry.exhausted'']])"

definition lacks :: "schema \<Rightarrow> bool" where
  "lacks S = list_all (\<lambda>(n, cs). cs \<noteq> [] \<and> columns_of S n = []) orm_unused"

definition constraints_of :: "schema \<Rightarrow> string \<Rightarrow> sql_constraint list" where
  "constraints_of S n = (case map_of S n of None \<Rightarrow> [] | Some t \<Rightarrow> tb_constraints t)"

fun declared_in :: "sql_constraint list \<Rightarrow> string \<Rightarrow> sql_constraint \<Rightarrow> bool" where
  "declared_in cs n (Check c col vs) =
     (list_ex (\<lambda>k. case k of Check d col' vs' \<Rightarrow> col' = col \<and> vs' = vs | _ \<Rightarrow> False) cs \<and>
      (naming_convention n (Check c col vs) \<in> set (map con_name cs) \<longleftrightarrow> n = ''telegram_users''))"
| "declared_in cs n k = (naming_convention n k \<in> set (map con_name cs))"

definition head_constraints :: "sql_constraint list list" where
  "head_constraints =
    [[Primary_Key ''pk_project'' [''id''], Unique ''uq_project_key'' [''key'']],
     [Check ''ck_telegram_users_telegram_users_role_allowed'' ''role'' [''user'', ''operator'', ''admin''],
      Primary_Key ''pk_telegram_users'' [''id''], Unique ''uq_telegram_users_telegram_id'' [''telegram_id'']],
     [Check ''ck_requirement_status_allowed'' ''status'' [''draft'', ''approved'', ''rejected'', ''archived''],
      Foreign_Key ''fk_requirement_project_id_project'' ''project_id'' ''project'', Primary_Key ''pk_requirement'' [''id'']],
     [Check ''ck_task_task_created_by_type_allowed'' ''created_by_type'' [''user'', ''agent''],
      Foreign_Key ''fk_task_project_id_project'' ''project_id'' ''project'', Primary_Key ''pk_task'' [''id''],
      Unique ''uq_task_task_number'' [''task_number''],
      Foreign_Key ''fk_task_requirement_id_requirement'' ''requirement_id'' ''requirement'',
      Unique ''uq_task_idempotency_key'' [''idempotency_key''],
      Check ''ck_task_status_allowed'' ''status'' [''backlog'', ''queued'', ''prepared'', ''failed''],
      Check ''ck_task_type_allowed'' ''type'' [''planning'', ''execution'', ''analysis'', ''requirement'']]]"

lemma migrated_head:
  "case upgrade_head PostgreSQL_Autocommit of Inl r \<Rightarrow> False
   | Inr S \<Rightarrow> fits S \<and> admits S \<and> lacks S \<and> map (constraints_of S \<circ> fst) orm_constraints = head_constraints"
  by code_simp



text \<open>
  The constraints of the migrated tables. Every key, unique column and reference that a class
  declares is there under the name the convention gives it; the checks are there as well, with
  the same columns and values, but those of the tasks and requirements have other names: the
  classes give them the prefix of the convention a second time.
\<close>

lemma constraint_names:
  "\<exists>S. upgrade_head PostgreSQL_Autocommit = Inr S \<and>
    list_all (\<lambda>(n, ks). list_all (declared_in (constraints_of S n) n) ks) orm_constraints"
proof -
  obtain S where S: "upgrade_head PostgreSQL_Autocommit = Inr S"
    using migrated_head by (cases "upgrade_head PostgreSQL_Autocommit") simp_all
  have "map (constraints_of S \<circ> fst) orm_constraints = head_constraints" using migrated_head by (simp add: S)
  note h = this [unfolded orm_constraints_def list.map comp_apply fst_conv head_constraints_def list.inject]
  have "list_all (\<lambda>(n, ks). list_all (declared_in (constraints_of S n) n) ks) orm_constraints"
    by (simp add: orm_constraints_def h orm_project_constraints_def orm_telegram_users_constraints_def
        orm_requirement_constraints_def orm_task_constraints_def)
  with S show ?thesis by blast
qed

text \<open>
  No revision creates the other two tables that classes declare: a database that has been
  migrated has no column of theirs.
\<close>

lemma unused_tables_missing:
  "\<exists>S. upgrade_head PostgreSQL_Autocommit = Inr S \<and> list_all (\<lambda>(n, cs). cs \<noteq> [] \<and> columns_of S n = []) orm_unused"
  using migrated_head by (auto simp: lacks_def split: sum.splits)

text \<open>
  Downgrades. A downgrade restores the schema from which its revision started, except for
  the two revisions that change the constraints of the task table: they leave a constraint
  behind that was not there before, which admits fewer values.
\<close>

theorem downgrades_restore:
  "map restores (stages upgrade_order []) =
     [True, True, True, True, False, False, True, True, True, True, True]"
  by code_simp

end
