(* ===== verification/Diagnostic_Cli.thy ===== *)
theory Diagnostic_Cli
  imports Observability Error_Classification
begin

text \<open>
  \<open>cli/observability.py\<close>: the diagnostic commands. A command writes lines and JSON values and
  then returns, exits with a code, or raises. The commands call \<open>get_session()\<close>, which is a
  generator function; each takes what this call gives as an argument, so that it is also
  defined for a session, as it was meant. Arguments are the rendering of times and
  \<open>uuid.UUID\<close>; rows that a query leaves unordered come in insertion order.
\<close>

section \<open>Rendering rows\<close>

fun event_direction_value :: "event_direction \<Rightarrow> string" where
  "event_direction_value ED_INBOUND = ''inbound''"
| "event_direction_value ED_OUTBOUND = ''outbound''"

fun format_datetime :: "(datetime \<Rightarrow> string) \<Rightarrow> datetime option \<Rightarrow> string" where
  "format_datetime isofmt None = ''N/A''"
| "format_datetime isofmt (Some t) = isofmt t"

definition opt_str :: "string option \<Rightarrow> json" where
  "opt_str x = (case x of None \<Rightarrow> JNull | Some s \<Rightarrow> JStr s)"

definition opt_int :: "int option \<Rightarrow> json" where
  "opt_int x = (case x of None \<Rightarrow> JNull | Some i \<Rightarrow> JInt i)"

definition opt_strs :: "string list option \<Rightarrow> json" where
  "opt_strs x = (case x of None \<Rightarrow> JNull | Some l \<Rightarrow> JList (map JStr l))"

definition opt_time :: "(datetime \<Rightarrow> string) \<Rightarrow> datetime option \<Rightarrow> json" where
  "opt_time isofmt x = (case x of None \<Rightarrow> JNull | Some t \<Rightarrow> JStr (isofmt t))"

text \<open>\<open>TaskExecution.to_dict\<close>\<close>

definition execution_dict :: "(datetime \<Rightarrow> string) \<Rightarrow> task_execution \<Rightarrow> (string \<times> json) list" where
  "execution_dict isofmt e =
     [(''id'', JStr (uuid_str (e_id e))), (''task_id'', JStr (uuid_str (e_task_id e))),
      (''runner_id'', opt_str (e_runner_id e)), (''correlation_id'', opt_str (e_correlation_id e)),
      (''prepared_context_version'', opt_str (e_prepared_context_version e)),
      (''opencode_session_id'', opt_str (e_opencode_session_id e)),
      (''opencode_message_id'', opt_str (e_opencode_message_id e)),
      (''status'', JStr (execution_status_value (e_status e))),
      (''started_at'', opt_time isofmt (e_started_at e)), (''dispatched_at'', opt_time isofmt (e_dispatched_at e)),
      (''finished_at'', opt_time isofmt (e_finished_at e)), (''heartbeat_at'', opt_time isofmt (e_heartbeat_at e)),
      (''attempt'', JInt (e_attempt e)), (''max_attempts'', JInt (e_max_attempts e)),
      (''error_type'', opt_str (e_error_type e)), (''error_message'', opt_str (e_error_message e)),
      (''result_summary'', e_result_summary e), (''branch_name'', opt_str (e_branch_name e)),
      (''worktree_path'', opt_str (e_worktree_path e)), (''commit_sha_before'', opt_str (e_commit_sha_before e)),
      (''commit_sha_after'', opt_str (e_commit_sha_after e)), (''new_commit_shas'', opt_strs (e_new_commit_shas e)),
      (''changed_files'', opt_strs (e_changed_files e)), (''diff_stat'', opt_str (e_diff_stat e)),
      (''has_uncommitted_changes'', case e_has_uncommitted_changes e of None \<Rightarrow> JNull | Some b \<Rightarrow> JBool b),
      (''inspection_status'', opt_str (e_inspection_status e)),
      (''adopted_commit_sha'', opt_str (e_adopted_commit_sha e)), (''total_tokens'', opt_int (e_total_tokens e)),
      (''next_retry_at'', opt_time isofmt (e_next_retry_at e)), (''phase'', opt_str (e_phase e)),
      (''max_execution_duration_seconds'', opt_int (e_max_execution_duration_seconds e)),
      (''updated_at'', JStr (isofmt (e_updated_at e))), (''created_at'', JStr (isofmt (e_created_at e)))]"

text \<open>\<open>TaskExecutionEvent.to_dict\<close>, with the key of the row, which the model of the events leaves out\<close>

definition event_dict :: "(datetime \<Rightarrow> string) \<Rightarrow> uuid \<Rightarrow> execution_event \<Rightarrow> (string \<times> json) list" where
  "event_dict isofmt i v =
     [(''id'', JStr (uuid_str i)), (''task_execution_id'', JStr (uuid_str (v_execution_id v))),
      (''sequence'', JInt (v_sequence v)), (''external_event_id'', opt_str (v_external_event_id v)),
      (''direction'', JStr (event_direction_value (v_direction v))),
      (''event_type'', JStr (event_type_value (v_event_type v))), (''payload'', JObj (v_payload v)),
      (''correlation_id'', opt_str (v_correlation_id v)), (''created_at'', JStr (isofmt (v_created_at v)))]"

section \<open>Commands\<close>

datatype cli_item = Echo string | Json json

datatype cli_end = Cli_Returned | Cli_Exit int | Cli_Raised exn

type_synonym cli_run = "cli_item list \<times> cli_end"

text \<open>What \<open>get_session()\<close> may give, and what the call in the commands does give. The query is
  the first access; a generator has no such attribute, but it has \<open>close\<close>.\<close>

datatype session_handle = Generator | Opened db

definition cli_session :: "db \<Rightarrow> session_handle" where
  "cli_session d = Generator"

fun with_query :: "session_handle \<Rightarrow> (db \<Rightarrow> cli_run) \<Rightarrow> cli_run" where
  "with_query Generator f =
     ([], Cli_Raised (AttributeError (str_repr ''generator'' @ '' object has no attribute '' @ str_repr ''query'')))"
| "with_query (Opened d) f = f d"

definition event_rows :: "db \<Rightarrow> task_execution \<Rightarrow> execution_event list" where
  "event_rows d e = sort_key v_sequence (events_of d (e_id e))"

definition not_found :: "bool \<Rightarrow> string \<Rightarrow> cli_run" where
  "not_found use_json msg = ([if use_json then Json (JObj [(''error'', JStr msg)]) else Echo (''Error: '' @ msg)], Cli_Exit 1)"

definition or_na :: "string option \<Rightarrow> string" where
  "or_na x = (if str_truthy x then the x else ''N/A'')"

definition nl :: string where
  "nl = [CHR 0x0A]"

definition trace_json :: "(datetime \<Rightarrow> string) \<Rightarrow> task_execution \<Rightarrow> execution_event list \<Rightarrow> json" where
  "trace_json isofmt e vs =
     JObj [(''execution'', JObj (execution_dict isofmt e)),
       (''events'', JList (map (\<lambda>v. JObj [(''sequence'', JInt (v_sequence v)),
          (''event_type'', JStr (event_type_value (v_event_type v))),
          (''direction'', JStr (event_direction_value (v_direction v))), (''payload'', JObj (v_payload v)),
          (''created_at'', JStr (format_datetime isofmt (Some (v_created_at v))))]) vs)),
       (''timeline'', JList (map (\<lambda>v. JObj [(''timestamp'', JStr (format_datetime isofmt (Some (v_created_at v)))),
          (''event'', JStr (event_type_value (v_event_type v))), (''sequence'', JInt (v_sequence v))]) vs))]"

definition trace_text :: "(datetime \<Rightarrow> string) \<Rightarrow> task_execution \<Rightarrow> execution_event list \<Rightarrow> string list" where
  "trace_text isofmt e vs =
     [nl @ ''=== Execution '' @ uuid_str (e_id e) @ '' ==='',
      ''Correlation ID: '' @ json_str (opt_str (e_correlation_id e)),
      ''Task ID: '' @ uuid_str (e_task_id e),
      ''Status: '' @ execution_status_value (e_status e),
      ''Phase: '' @ or_na (e_phase e),
      ''Runner: '' @ or_na (e_runner_id e),
      ''Started: '' @ format_datetime isofmt (e_started_at e),
      ''Dispatched: '' @ format_datetime isofmt (e_dispatched_at e),
      ''Finished: '' @ format_datetime isofmt (e_finished_at e),
      ''Attempt: '' @ int_str (e_attempt e) @ ''/'' @ int_str (e_max_attempts e)] @
     (if str_truthy (e_error_type e)
      then [''Error Type: '' @ the (e_error_type e), ''Error Message: '' @ json_str (opt_str (e_error_message e))] else []) @
     (nl @ ''=== '' @ nat_str (length vs) @ '' Events ==='') #
     concat (map (\<lambda>v. [''  ['' @ int_str (v_sequence v) @ ''] '' @ event_type_value (v_event_type v) @ '' ('' @
          event_direction_value (v_direction v) @ '')'',
        ''      Created: '' @ format_datetime isofmt (Some (v_created_at v))]) vs)"

definition cli_trace :: "(datetime \<Rightarrow> string) \<Rightarrow> session_handle \<Rightarrow> string \<Rightarrow> bool \<Rightarrow> cli_run" where
  "cli_trace isofmt h correlation_id use_json =
     with_query h (\<lambda>d.
       case find (\<lambda>e. e_correlation_id e = Some correlation_id) (executions d) of
         None \<Rightarrow> not_found use_json (''No execution found with correlation_id: '' @ correlation_id)
       | Some e \<Rightarrow>
           (let vs = event_rows d e
            in (if use_json then [Json (trace_json isofmt e vs)] else map Echo (trace_text isofmt e vs), Cli_Returned)))"

text \<open>\<open>list_stale\<close> imports a name that \<open>observability/logging.py\<close> does not define.\<close>

definition cli_list_stale :: "session_handle \<Rightarrow> int \<Rightarrow> bool \<Rightarrow> cli_run" where
  "cli_list_stale h limit use_json =
     ([], Cli_Raised (OtherException (''cannot import name '' @ str_repr ''DEFAULT_STALE_THRESHOLDS'')))"

definition inspect_text :: "(datetime \<Rightarrow> string) \<Rightarrow> task_execution \<Rightarrow> execution_event list \<Rightarrow> string list" where
  "inspect_text isofmt e vs =
     (nl @ ''=== Execution '' @ uuid_str (e_id e) @ '' ==='') #
     map (\<lambda>(k, v). ''  '' @ k @ '': '' @ json_str v) (filter (\<lambda>(k, v). v \<noteq> JNull) (execution_dict isofmt e)) @
     (nl @ ''=== '' @ nat_str (length vs) @ '' Events ==='') #
     concat (map (\<lambda>v. [''  ['' @ int_str (v_sequence v) @ ''] '' @ event_type_value (v_event_type v),
        ''      Direction: '' @ event_direction_value (v_direction v)] @
        (if v_payload v \<noteq> [] then [''      Payload: '' @ json_dumps (JObj (v_payload v))] else [])) vs)"

definition inspect_json :: "(datetime \<Rightarrow> string) \<Rightarrow> task_execution \<Rightarrow> execution_event list \<Rightarrow> json" where
  "inspect_json isofmt e vs =
     JObj [(''execution'', JObj (execution_dict isofmt e)),
       (''events'', JList (map (\<lambda>v. JObj [(''sequence'', JInt (v_sequence v)),
          (''event_type'', JStr (event_type_value (v_event_type v))),
          (''direction'', JStr (event_direction_value (v_direction v))),
          (''external_event_id'', opt_str (v_external_event_id v)), (''payload'', JObj (v_payload v)),
          (''created_at'', JStr (format_datetime isofmt (Some (v_created_at v))))]) vs))]"

definition cli_inspect ::
    "(datetime \<Rightarrow> string) \<Rightarrow> (string \<Rightarrow> uuid option) \<Rightarrow> session_handle \<Rightarrow> string \<Rightarrow> bool \<Rightarrow> cli_run" where
  "cli_inspect isofmt to_uuid h execution_id use_json =
     with_query h (\<lambda>d.
       case to_uuid execution_id of
         None \<Rightarrow> ([], Cli_Raised (ValueError ''badly formed hexadecimal UUID string''))
       | Some i \<Rightarrow>
           (case get_execution d i of
              None \<Rightarrow> not_found use_json (''No execution found with id: '' @ execution_id)
            | Some e \<Rightarrow>
                (let vs = event_rows d e
                 in (if use_json then [Json (inspect_json isofmt e vs)] else map Echo (inspect_text isofmt e vs), Cli_Returned))))"

text \<open>\<open>recent\<close>: SQLAlchemy refuses a filter on a query that has its limit already.\<close>

definition recent_text :: "(datetime \<Rightarrow> string) \<Rightarrow> task_execution list \<Rightarrow> string list" where
  "recent_text isofmt es =
     (nl @ ''=== '' @ nat_str (length es) @ '' Recent Executions ==='') #
     concat (map (\<lambda>e. [nl @ ''  '' @ uuid_str (e_id e),
        ''    Task: '' @ uuid_str (e_task_id e),
        ''    Correlation ID: '' @ json_str (opt_str (e_correlation_id e)),
        ''    Status: '' @ execution_status_value (e_status e),
        ''    Phase: '' @ or_na (e_phase e),
        ''    Updated: '' @ format_datetime isofmt (Some (e_updated_at e))]) es)"

definition cli_recent ::
    "(datetime \<Rightarrow> string) \<Rightarrow> session_handle \<Rightarrow> int \<Rightarrow> string option \<Rightarrow> bool \<Rightarrow> cli_run" where
  "cli_recent isofmt h limit status use_json =
     with_query h (\<lambda>d.
       if str_truthy status then ([], Cli_Raised (SQLAlchemyError
           ''Query.filter() being called on a Query which already has LIMIT or OFFSET applied.''))
       else if limit < 0 then ([], Cli_Raised (SQLAlchemyError ''LIMIT must not be negative''))
       else
         (let es = take (nat limit) (sort_key (\<lambda>e. - e_updated_at e) (executions d))
          in (if use_json
              then [Json (JObj [(''count'', JInt (int (length es))), (''executions'', JList (map (JObj \<circ> execution_dict isofmt) es))])]
              else map Echo (recent_text isofmt es), Cli_Returned)))"

section \<open>Metrics\<close>

text \<open>The dictionary of the metrics: JSON values and rational numbers. The phases are a set in
  the code; here they keep the order in which they were recorded.\<close>

datatype metric_value = MV_Json json | MV_Rat rat | MV_Rats "(string \<times> rat) list"

definition metrics_dict :: "(datetime \<Rightarrow> string) \<Rightarrow> execution_metrics \<Rightarrow> (string \<times> metric_value) list" where
  "metrics_dict isofmt M =
     [(''executions_claimed'', MV_Json (JInt (int (em_claimed M)))),
      (''executions_completed'', MV_Json (JInt (int (em_completed M)))),
      (''executions_failed'', MV_Json (JInt (int (em_failed M)))),
      (''retries_scheduled'', MV_Json (JInt (int (em_retries_scheduled M)))),
      (''retries_exhausted'', MV_Json (JInt (int (em_retries_exhausted M)))),
      (''stale_executions_detected'', MV_Json (JInt (int (em_stale_detected M)))),
      (''adoption_conflicts'', MV_Json (JInt (int (em_adoption_conflicts M)))),
      (''success_rate'', MV_Rat (success_rate M)), (''retry_rate'', MV_Rat (retry_rate M)),
      (''average_phase_durations'', MV_Rats (map (\<lambda>(p, x). (p, get_average_phase_duration M p)) (em_phase_durations M))),
      (''first_execution'', MV_Json (opt_time isofmt (em_first_execution M))),
      (''last_update'', MV_Json (JStr (isofmt (em_last_update M))))]"

text \<open>\<open>format(x, '.nf')\<close>, rounded half to even.\<close>

definition fixed :: "nat \<Rightarrow> rat \<Rightarrow> string" where
  "fixed n x =
     (let k = round_even (x * 10 ^ n); a = nat \<bar>k\<bar>; s = nat_str (a mod 10 ^ n)
      in (if x < 0 then ''-'' else []) @ nat_str (a div 10 ^ n) @ ''.'' @ replicate (n - length s) CHR ''0'' @ s)"

definition percent :: "rat \<Rightarrow> string" where
  "percent x = fixed 1 (x * 100) @ ''%''"

definition metrics_text :: "(datetime \<Rightarrow> string) \<Rightarrow> execution_metrics \<Rightarrow> string list" where
  "metrics_text isofmt M =
     [nl @ ''=== Execution Metrics ==='',
      ''Executions Claimed: '' @ nat_str (em_claimed M),
      ''Executions Completed: '' @ nat_str (em_completed M),
      ''Executions Failed: '' @ nat_str (em_failed M),
      ''Success Rate: '' @ percent (success_rate M),
      ''Retries Scheduled: '' @ nat_str (em_retries_scheduled M),
      ''Retries Exhausted: '' @ nat_str (em_retries_exhausted M),
      ''Retry Rate: '' @ percent (retry_rate M),
      ''Stale Executions Detected: '' @ nat_str (em_stale_detected M),
      ''Adoption Conflicts: '' @ nat_str (em_adoption_conflicts M),
      nl @ ''=== Average Phase Durations ===''] @
     map (\<lambda>(p, x). ''  '' @ p @ '': '' @ fixed 2 (get_average_phase_duration M p) @ ''s'') (em_phase_durations M) @
     [nl @ ''First Execution: '' @ json_str (opt_time isofmt (em_first_execution M)),
      ''Last Update: '' @ isofmt (em_last_update M)]"

datatype metrics_output = Metrics_Json "(string \<times> metric_value) list" | Metrics_Text "string list"

definition cli_metrics :: "(datetime \<Rightarrow> string) \<Rightarrow> execution_metrics \<Rightarrow> bool \<Rightarrow> metrics_output" where
  "cli_metrics isofmt M use_json =
     (if use_json then Metrics_Json (metrics_dict isofmt M) else Metrics_Text (metrics_text isofmt M))"

text \<open>A process of the command line: the metrics are the ones of this process, made on import.\<close>

datatype cli_command =
    Trace string bool | List_Stale int bool | Inspect string bool | Metrics bool | Recent int "string option" bool

datatype cli_result = Rows cli_run | Figures metrics_output

fun cli_main ::
    "(datetime \<Rightarrow> string) \<Rightarrow> (string \<Rightarrow> uuid option) \<Rightarrow> datetime \<Rightarrow> db \<Rightarrow> cli_command \<Rightarrow> cli_result" where
  "cli_main isofmt to_uuid started d (Trace c j) = Rows (cli_trace isofmt (cli_session d) c j)"
| "cli_main isofmt to_uuid started d (List_Stale n j) = Rows (cli_list_stale (cli_session d) n j)"
| "cli_main isofmt to_uuid started d (Inspect i j) = Rows (cli_inspect isofmt to_uuid (cli_session d) i j)"
| "cli_main isofmt to_uuid started d (Metrics j) = Figures (cli_metrics isofmt (reset_metrics started) j)"
| "cli_main isofmt to_uuid started d (Recent n s j) = Rows (cli_recent isofmt (cli_session d) n s j)"

section \<open>Properties\<close>

text \<open>
  The command line shows nothing. Every command that is to read the database raises before it
  writes a line, whatever the database holds, and the metrics are those of a process that has
  just started: no claim, no rate, no first execution.
\<close>

theorem cli_shows_nothing:
  "case cli_main isofmt to_uuid started d c of
     Rows (out, e) \<Rightarrow> out = [] \<and> (\<exists>x. e = Cli_Raised x)
   | Figures (Metrics_Json kv) \<Rightarrow> kv = metrics_dict isofmt (reset_metrics started) \<and>
       map_of kv ''executions_claimed'' = Some (MV_Json (JInt 0)) \<and> map_of kv ''success_rate'' = Some (MV_Rat 0) \<and>
       map_of kv ''first_execution'' = Some (MV_Json JNull)
   | Figures (Metrics_Text ls) \<Rightarrow> ls = metrics_text isofmt (reset_metrics started) \<and> ls ! 4 = ''Success Rate: 0.0%''"
proof (cases c)
  case (Metrics j)
  have "percent 0 = ''0.0%''" by code_simp
  then show ?thesis using Metrics
    by (simp add: cli_metrics_def metrics_dict_def metrics_text_def reset_metrics_def success_rate_def opt_time_def)
qed (simp_all add: cli_trace_def cli_list_stale_def cli_inspect_def cli_recent_def cli_session_def)

lemma sorted_events:
  assumes "wf_db d"
  shows "sorted_wrt (<) (map v_sequence (event_rows d e)) \<and> mset (event_rows d e) = mset (events_of d (e_id e))"
proof -
  have "distinct (map (\<lambda>v. (v_execution_id v, v_sequence v)) (events_of d (e_id e)))"
    using assms by (auto simp: wf_db_def events_unique_def events_of_def intro: distinct_map_filter)
  moreover have "map (\<lambda>v. (v_execution_id v, v_sequence v)) (events_of d (e_id e)) =
      map (Pair (e_id e)) (map v_sequence (events_of d (e_id e)))"
    by (simp add: events_of_def)
  ultimately have "distinct (map v_sequence (events_of d (e_id e)))" by (metis distinct_map)
  then have "distinct (map v_sequence (event_rows d e))"
    by (metis event_rows_def mset_map mset_sort mset_eq_imp_distinct_iff)
  then show ?thesis by (simp add: event_rows_def strict_sorted_iff)
qed

text \<open>
  What a trace is meant to show. On a session, the trace of a correlation identifier that an
  execution has is the JSON of one such execution with exactly its events, in strictly
  increasing order of their sequence numbers, and a timeline of the same length.
\<close>

theorem trace_reports_history:
  assumes "wf_db d" "\<exists>e \<in> set (executions d). e_correlation_id e = Some c"
  shows "\<exists>e vs. e \<in> set (executions d) \<and> e_correlation_id e = Some c \<and>
    mset vs = mset (events_of d (e_id e)) \<and> sorted_wrt (<) (map v_sequence vs) \<and>
    cli_trace isofmt (Opened d) c True = ([Json (trace_json isofmt e vs)], Cli_Returned)"
proof -
  obtain e where e: "find (\<lambda>e. e_correlation_id e = Some c) (executions d) = Some e"
    using assms(2) by (cases "find (\<lambda>e. e_correlation_id e = Some c) (executions d)") (auto simp: find_None_iff)
  then have "e \<in> set (executions d)" "e_correlation_id e = Some c" by (auto simp: find_Some_iff)
  then show ?thesis using sorted_events [OF assms(1), of e] e by (auto simp: cli_trace_def Let_def)
qed

text \<open>A filter by status raises even on a session.\<close>

lemma recent_status_raises: "s \<noteq> [] \<Longrightarrow> \<exists>x. cli_recent isofmt (Opened d) n (Some s) j = ([], Cli_Raised x)"
  by (simp add: cli_recent_def)

end
