(* ===== verification/Spec2Isabelle.thy ===== *)
theory Spec2Isabelle
  imports State_Machine Api_Application Sse_Handler Runner_Process Commit_Adopter Health Telegram_Process Token_Usage E2E_Validation Supervisor Migrations Diagnostic_Cli
begin

text \<open>
  ExecQueue is a task queue. An API takes tasks in and stores them; an orchestrator takes
  waiting tasks from the backlog, plans which may run together, locks them and prepares a git
  worktree and a context for each; runners claim prepared tasks, send their prompt to an
  OpenCode session, read its event stream, inspect what was done in the worktree and adopt
  the commit; errors are classified and retried. A Telegram bot is a second way in, health
  checks look at all parts, and a supervisor starts and stops the processes. The parts talk
  through the tables of one database, so the model is a database (theory \<open>Model\<close>) and
  operations on sessions of it.

  \<^bold>\<open>How the code is modelled.\<close> A table is a list of rows in insertion order, a row is
  a record with the columns of the class, an enumeration is a datatype with a \<open>_value\<close>
  function for the stored string. A session is a pair of the committed and the working state;
  commit and rollback copy one to the other, and what a function has flushed but not committed
  is in the working state. Every constraint that the tables declare (keys, unique columns, the
  partial index on active executions) is an error of the insert. A raised exception is the
  left side of a sum, the classes are in \<open>exn\<close> (theory \<open>Prelude\<close>). Integers are unbounded as in
  Python, times are integers of microseconds, durations and probabilities are rational
  numbers, strings are lists of the 256 characters of Latin-1, and messages with other
  characters are lists of code points. JSON values are a datatype without floats. The
  environment (git, file system, HTTP, SQL errors, signals, clocks, random numbers, hashes) is
  an argument: a function or a list of answers about which nothing is assumed unless a theorem
  says so.

  \<^bold>\<open>Which theory models what.\<close>
  \<^item> \<open>Prelude\<close>: Python's string, number and JSON functions, and the lemmas that all parts
    share. \<open>Model\<close>: \<open>db/models.py\<close>, \<open>models/*.py\<close>, \<open>db/session.py\<close> and the data transfer
    objects of \<open>orchestrator/models.py\<close>, with the invariant \<open>wf_db\<close>.
  \<^item> \<open>Classification\<close> (\<open>orchestrator/classification.py\<close>): which tasks write, which of them
    conflict, and the batch plan. \<open>Candidate_Discovery\<close>, \<open>Locking\<close>, \<open>Orchestrator_Recovery\<close>,
    \<open>Context_Contract\<close> and \<open>Git_Context\<close>: the files of these names. \<open>Orchestrator_Main\<close>
    (\<open>orchestrator/main.py\<close>, \<open>orchestrator_trigger.py\<close>): the preparation cycle composed of
    them; what other workers commit between its query and its lock is the argument \<open>others\<close>.
  \<^item> \<open>Claim\<close> (\<open>runner/claim.py\<close>, \<open>polling.py\<close>, \<open>config.py\<close> and the poll cycle of \<open>main.py\<close>),
    \<open>Dispatch\<close> (\<open>runner/dispatch.py\<close>, \<open>prompt_templates.py\<close>), \<open>Opencode_Client\<close>
    (\<open>opencode/client.py\<close>), \<open>Sse_Handler\<close>, \<open>Watchdog\<close>, \<open>Result_Inspector\<close>, \<open>Commit_Adopter\<close>,
    \<open>Error_Classification\<close>, \<open>Runner_Recovery\<close>: the files of \<open>runner/\<close>. \<open>Runner_Process\<close>
    (\<open>runner/main.py\<close>): the loop, its validator and watchdog, signals and the end of the
    process, as a step relation.
  \<^item> \<open>Migrations\<close> (\<open>alembic/versions\<close>): the operations of all revisions, run on PostgreSQL and
    SQLite as \<open>alembic/env.py\<close> does, and the columns that the mapped classes declare.
  \<^item> \<open>Task_Service\<close> (\<open>tasks/service.py\<close>, \<open>api/routes/domain.py\<close>): intake with its idempotency.
    \<open>Lifecycle\<close> and \<open>System_Run\<close>: the invariants of the whole database and its runs, as a
    step relation over all operations of all workers. \<open>State_Machine\<close>: the status lifecycle as
    an abstract machine (\<open>TaskStatus\<close> and \<open>ExecutionStatus\<close> alone) that all runs refine.
  \<^item> \<open>Api_Service\<close>: the bodies of requests and answers, and the bot at the other end of a
    connection that may lose a request or its answer. \<open>Api_Application\<close> (\<open>main.py\<close>,
    \<open>api/router.py\<close>, the routers of \<open>api/routes/\<close>): every request through its route and endpoint.
  \<^item> \<open>Settings\<close> (\<open>settings.py\<close>, \<open>db/runtime.py\<close>, \<open>db/engine.py\<close>), \<open>Health\<close> (\<open>health/\<close> and the
    checks of the components), \<open>Token_Usage\<close> (\<open>utils/token_tracking.py\<close>, \<open>runner/validator.py\<close>).
  \<^item> \<open>Telegram_Users\<close> (\<open>workers/telegram/persistence.py\<close>, \<open>notifications.py\<close>, \<open>auth.py\<close>,
    \<open>api/dependencies.py\<close>, \<open>api/routes/system.py\<close>), \<open>Telegram_Bot\<close> (\<open>commands.py\<close>,
    \<open>api_client.py\<close> and the handlers of \<open>bot.py\<close>), \<open>Telegram_Process\<close> (the rest of \<open>bot.py\<close>:
    \<open>run_bot\<close> and \<open>main\<close> as programs that may raise at each await).
  \<^item> \<open>Observability\<close> (\<open>observability/logging.py\<close>), \<open>E2E_Validation\<close>
    (\<open>orchestrator/observability.py\<close>), \<open>Supervisor\<close> (\<open>orchestrator_legacy.py\<close>),
    \<open>Diagnostic_Cli\<close> (\<open>cli/observability.py\<close>).

  \<^bold>\<open>Interfaces.\<close> What several operations share is a locale, interpreted on the operations
  themselves: an exclusive attempt on a set of keys (locking and claiming), a log whose
  sequence numbers grow (the event tables), the steps that keep an invariant. The properties
  on exclusiveness and on the order of events are facts of these interpretations.

  \<^bold>\<open>What the lemmas show.\<close> Per component: the invariant and that every operation keeps it,
  the result on every branch, errors included, and the abstract contract where there is one.
  Across components: every run of the system keeps keys, references, at most one active
  execution per task and the order of events, and only extends the history; it refines the
  status machine, in which no execution is ever done; concurrent locks and claims are exclusive; a plan never holds two writing tasks in conflict; intake is
  all or nothing and idempotent; what the bot posts is accepted by the intake, and what it
  replies is true unless the answer was lost; no request starts a restart or changes the
  database but by the routes meant for this; a stopped bot
  is unhealthy for the health check; a signal stops the bot and the supervisor stops its
  children; a signal stops the runner, too, whose claims are never committed and whose pings are
  those of a run of the watchdog; payloads that are logged hold no secrets of the known forms;
  the migrated schema has the columns and values of the classes, but the migrations fail in
  the transaction in which they are run.

  \<^bold>\<open>Bounds and termination.\<close> No fuel is used in the data paths. The loops of the watchdog are
  a step relation with a bound on its steps; the waiting loops of the supervisor are partial
  functions whose value is \<open>None\<close> if they do not end, and that they end is a theorem; an
  \<open>await\<close> of the bot that does not return is the outcome \<open>Waiting\<close>.

  \<^bold>\<open>Not modelled.\<close> The texts of the OpenAPI document, package re-exports, rows of the tables that no operation uses
  (\<open>task_dependencies\<close>, \<open>execution_plan\<close>), option parsing (click), reading settings from the environment (pydantic), the data in the tables
  during a migration, the logging calls inside the modelled operations, floats beyond
  rational arithmetic, and characters beyond Latin-1 in processed strings.
\<close>

end
